(* ===== verification/Peer_Prelude.thy ===== *)
theory Peer_Prelude
  imports Main "HOL-Library.Word" "HOL-Library.Monad_Syntax"
begin

text \<open>
  The prelude of the development: the C base the components share.

  \<^item> Machine types. A \<open>uint8_t\<close> is a \<^typ>\<open>8 word\<close>, \<open>uint16_t\<close>, \<open>uint32_t\<close> and
    \<open>uint64_t\<close> likewise. \<open>ptrdiff_t\<close> and \<open>peer_time_t\<close> (both 64-bit signed) are
    \<^typ>\<open>int\<close>; where a value of theirs crosses the wire or may leave the signed 64-bit range,
    the conversion is written out. \<open>kit_status_t\<close> is \<^typ>\<open>int\<close>, joined by bitwise or.
  \<^item> Faults. A C call either returns or has no defined continuation. The model of a call is an
    \<^typ>\<open>'a option\<close>, \<^const>\<open>None\<close> when an \<open>assert\<close> fails in a build that has assertions, or
    when the code reads or writes outside an object, dereferences a null pointer or overflows a
    signed integer. The flag \<open>nd\<close> says whether \<open>NDEBUG\<close> is defined (assertions off), so
    with \<open>nd = True\<close> the value \<^const>\<open>None\<close> is undefined behaviour only.
  \<^item> Memory. An array is a list; \<open>c_load\<close>, \<open>c_store\<close> and \<open>c_memcpy\<close> are its
    bounds-checked accesses.
  \<^item> The allocator of the kit library (not part of the repository) is a parameter: the list of
    the answers it gives to the coming requests. A refusal is \<^const>\<open>None\<close>; a grant carries the
    (indeterminate) contents of the new memory. A run makes finitely many requests, so a finite
    list covers every behaviour; after its end every request is granted. What the code relies on is
    the documented contract of \<open>DA_INIT\<close> and \<open>DA_RESIZE\<close>: on success the array has the
    requested size and keeps its old elements, on failure its size is unchanged (0 for
    \<open>DA_INIT\<close>), and a request that does not grow the array succeeds.
\<close>

unbundle bit_operations_syntax

subsection \<open>Machine types\<close>

type_synonym byte = "8 word"
type_synonym ptrdiff_t = int
type_synonym peer_time_t = int
type_synonym kit_status_t = int

text \<open>\<open>KIT_OK\<close> is 0: \<open>chunks_wrap\<close> returns a zeroed status for success (peer.c:584) and
  \<open>queue_pack\<close> compares it with \<open>KIT_OK\<close> (peer.c:663).\<close>

abbreviation (input) KIT_OK :: kit_status_t where
  "KIT_OK \<equiv> 0"

abbreviation (input) INT64_MAX :: int where
  "INT64_MAX \<equiv> 9223372036854775807"

definition is_int64 :: "int \<Rightarrow> bool" where
  "is_int64 x \<longleftrightarrow> - 9223372036854775808 \<le> x \<and> x \<le> INT64_MAX"

text \<open>The sum of two \<open>ptrdiff_t\<close> values; signed overflow is undefined.\<close>

definition c_add :: "int \<Rightarrow> int \<Rightarrow> int option" where
  "c_add x y = (if is_int64 (x + y) then Some (x + y) else None)"

subsection \<open>Assertions and memory accesses\<close>

definition c_assert :: "bool \<Rightarrow> bool \<Rightarrow> unit option" where
  "c_assert nd P = (if nd \<or> P then Some () else None)"

definition c_load :: "'a list \<Rightarrow> int \<Rightarrow> 'a option" where
  "c_load xs p = (if 0 \<le> p \<and> p < int (length xs) then Some (xs ! nat p) else None)"

definition c_store :: "'a list \<Rightarrow> int \<Rightarrow> 'a \<Rightarrow> 'a list option" where
  "c_store xs p v = (if 0 \<le> p \<and> p < int (length xs) then Some (xs[nat p := v]) else None)"

text \<open>\<open>memcpy(dst + p, src + q, n)\<close>.\<close>

definition c_memcpy :: "'a list \<Rightarrow> int \<Rightarrow> 'a list \<Rightarrow> int \<Rightarrow> int \<Rightarrow> 'a list option" where
  "c_memcpy dst p src q n =
     (if 0 \<le> n \<and> 0 \<le> p \<and> p + n \<le> int (length dst) \<and> 0 \<le> q \<and> q + n \<le> int (length src)
      then Some (take (nat p) dst @ take (nat n) (drop (nat q) src) @ drop (nat (p + n)) dst)
      else None)"

subsection \<open>The allocator\<close>

type_synonym kit_answer = "(nat \<Rightarrow> byte) option"
type_synonym kit_allocator_t = "kit_answer list"

fun kit_request :: "kit_allocator_t \<Rightarrow> kit_answer \<times> kit_allocator_t" where
  "kit_request [] = (Some (\<lambda>_. 0), [])"
| "kit_request (a # al) = (a, al)"

text \<open>The allocator never refuses.\<close>

definition alloc_ok :: "kit_allocator_t \<Rightarrow> bool" where
  "alloc_ok al \<longleftrightarrow> list_all (\<lambda>a. \<not> Option.is_none a) al"

text \<open>\<open>DA_INIT\<close> of a byte array. A negative size has no documented meaning.\<close>

definition da_init_bytes :: "ptrdiff_t \<Rightarrow> kit_allocator_t \<Rightarrow> (byte list \<times> kit_allocator_t) option" where
  "da_init_bytes n al =
     (if n < 0 then None
      else if n = 0 then Some ([], al)
      else (case kit_request al of
              (None, al') \<Rightarrow> Some ([], al')
            | (Some f, al') \<Rightarrow> Some (map f [0..<nat n], al')))"

text \<open>\<open>DA_INIT\<close> of an array of \<open>n\<close> elements the code overwrites or zeroes before it reads
  them (\<open>z\<close> is the value it gives them).\<close>

definition da_init :: "'a \<Rightarrow> nat \<Rightarrow> kit_allocator_t \<Rightarrow> 'a list \<times> kit_allocator_t" where
  "da_init z n al =
     (if n = 0 then ([], al)
      else (case kit_request al of
              (None, al') \<Rightarrow> ([], al')
            | (Some f, al') \<Rightarrow> (replicate n z, al')))"

text \<open>\<open>DA_RESIZE\<close>; \<open>fresh f k\<close> is the content of element \<open>k\<close> of memory granted with
  contents \<open>f\<close>. Where the code zeroes the new elements before it reads them, \<open>fresh\<close> is
  the constant zero element.\<close>

definition da_resize ::
  "((nat \<Rightarrow> byte) \<Rightarrow> nat \<Rightarrow> 'a) \<Rightarrow> nat \<Rightarrow> 'a list \<Rightarrow> kit_allocator_t \<Rightarrow> 'a list \<times> kit_allocator_t" where
  "da_resize fresh n xs al =
     (if n \<le> length xs then (take n xs, al)
      else (case kit_request al of
              (None, al') \<Rightarrow> (xs, al')
            | (Some f, al') \<Rightarrow> (xs @ map (fresh f) [length xs..<n], al')))"

subsection \<open>Shared facts\<close>

lemmas c_access_defs = c_load_def c_store_def c_memcpy_def

lemma option_bind_cong [fundef_cong]:
  assumes "x = y" and "\<And>a. y = Some a \<Longrightarrow> f a = g a"
  shows "Option.bind x f = Option.bind y g"
  using assms by (cases y) auto

lemma bind_eq_SomeD:
  "Option.bind m f = Some y \<Longrightarrow> \<exists>x. m = Some x \<and> f x = Some y"
  by (cases m) auto

text \<open>Replacing an element by one with the same \<open>f\<close>.\<close>

lemma list_update_keeps:
  assumes "f x = f (xs ! j)"
  shows "map f (xs[j := x]) = map f xs" and "f (xs[j := x] ! k) = f (xs ! k)"
proof -
  show "map f (xs[j := x]) = map f xs"
    using assms by (cases "j < length xs") (simp_all add: map_update list_update_same_conv list_update_beyond)
  show "f (xs[j := x] ! k) = f (xs ! k)"
    using assms by (cases "j < length xs"; cases "j = k") (simp_all add: list_update_beyond)
qed

lemma c_assert_True [simp]: "c_assert nd True = Some ()"
  by (simp add: c_assert_def)

lemma c_assert_ndebug [simp]: "c_assert True P = Some ()"
  by (simp add: c_assert_def)

lemma c_assert_debug_False [simp]: "c_assert False False = None"
  by (simp add: c_assert_def)

lemma c_assert_eq_Some [simp]: "c_assert nd P = Some u \<longleftrightarrow> nd \<or> P"
  by (simp add: c_assert_def)

lemma c_assert_holds: "nd \<or> P \<Longrightarrow> c_assert nd P = Some ()"
  by (simp add: c_assert_def)

text \<open>An assertion as a branch; not a simplification rule by default, since most proofs know its condition.\<close>

lemma c_assert_bind: "Option.bind (c_assert nd P) f = (if nd \<or> P then f () else None)"
  by (simp add: c_assert_def)

lemma c_load_nth [simp]: "i < length xs \<Longrightarrow> c_load xs (int i) = Some (xs ! i)"
  by (simp add: c_load_def)

lemma c_load_inside: "0 \<le> p \<Longrightarrow> p < int (length xs) \<Longrightarrow> c_load xs p = Some (xs ! nat p)"
  by (simp add: c_load_def)

lemma c_load_eq_Some:
  "c_load xs p = Some v \<longleftrightarrow> 0 \<le> p \<and> p < int (length xs) \<and> v = xs ! nat p"
  by (auto simp: c_load_def)

lemma c_store_nth [simp]: "i < length xs \<Longrightarrow> c_store xs (int i) v = Some (xs[i := v])"
  by (simp add: c_store_def)

lemma c_store_inside: "0 \<le> p \<Longrightarrow> p < int (length xs) \<Longrightarrow> c_store xs p v = Some (xs[nat p := v])"
  by (simp add: c_store_def)

text \<open>The last element, as the code reaches it: at index \<open>size - 1\<close>.\<close>

lemma c_load_last [simp]: "c_load (xs @ [x]) (int (length xs)) = Some x"
  by (simp add: c_load_def)

lemma c_store_last [simp]: "c_store (xs @ [x]) (int (length xs)) y = Some (xs @ [y])"
  by (simp add: c_store_def)

lemma c_store_length: "c_store xs p v = Some ys \<Longrightarrow> length ys = length xs"
  by (auto simp: c_store_def split: if_splits)

lemma c_memcpy_length: "c_memcpy dst p src q n = Some ys \<Longrightarrow> length ys = length dst"
  by (auto simp: c_memcpy_def split: if_splits)

text \<open>Copying a whole list to a position counted in \<^typ>\<open>nat\<close>.\<close>

lemma c_memcpy_whole:
  assumes "i + length src \<le> length dst"
  shows "c_memcpy dst (int i) src 0 (int (length src)) =
    Some (take i dst @ src @ drop (i + length src) dst)"
  using assms by (simp add: c_memcpy_def nat_add_distrib)

lemma c_memcpy_append:
  assumes "n \<le> length src" and "n \<le> length ys"
  shows "c_memcpy (xs @ ys) (int (length xs)) src 0 (int n) = Some (xs @ take n src @ drop n ys)"
  using assms by (simp add: c_memcpy_def nat_add_distrib)

text \<open>Reading a slice back.\<close>

lemma c_memcpy_fresh:
  assumes "length dst = n" and "i + n \<le> length src"
  shows "c_memcpy dst 0 src (int i) (int n) = Some (take n (drop i src))"
  using assms by (simp add: c_memcpy_def)

lemma kit_request_ok:
  assumes "alloc_ok al"
  obtains f al' where "kit_request al = (Some f, al')" and "alloc_ok al'"
proof (cases al)
  case Nil
  with assms that show ?thesis by simp
next
  case (Cons a as)
  with assms obtain f where "a = Some f" by (auto simp: alloc_ok_def Option.is_none_def)
  with Cons assms that show ?thesis by (simp add: alloc_ok_def)
qed

lemma alloc_ok_Nil [simp]: "alloc_ok []"
  by (simp add: alloc_ok_def)

text \<open>An allocator that grants its requests goes on granting them.\<close>

lemma kit_request_alloc: "kit_request al = (a, al') \<Longrightarrow> alloc_ok al \<Longrightarrow> alloc_ok al'"
  by (cases al) (auto simp: alloc_ok_def)

lemma da_init_bytes_alloc: "da_init_bytes n al = Some (bs, al') \<Longrightarrow> alloc_ok al \<Longrightarrow> alloc_ok al'"
  by (auto simp: da_init_bytes_def split: if_splits option.splits prod.splits dest: kit_request_alloc)

lemma da_resize_alloc: "da_resize fresh n xs al = (ys, al') \<Longrightarrow> alloc_ok al \<Longrightarrow> alloc_ok al'"
  by (auto simp: da_resize_def split: if_splits option.splits prod.splits dest: kit_request_alloc)

lemma da_init_bytes_ok:
  assumes "alloc_ok al" and "0 \<le> n"
  obtains bs al' where "da_init_bytes n al = Some (bs, al')" and "length bs = nat n"
    and "alloc_ok al'"
proof -
  obtain f al' where "kit_request al = (Some f, al')" and "alloc_ok al'"
    using assms(1) by (rule kit_request_ok)
  with assms that show ?thesis by (cases "n = 0") (auto simp: da_init_bytes_def)
qed

lemma da_init_bytes_cases:
  assumes "da_init_bytes n al = Some (bs, al')"
  shows "0 \<le> n \<and> (length bs = nat n \<or> bs = [])"
  using assms by (auto simp: da_init_bytes_def split: if_splits option.splits prod.splits)

lemma da_init_bytes_total: "0 \<le> n \<Longrightarrow> \<exists>bs al'. da_init_bytes n al = Some (bs, al')"
  by (auto simp: da_init_bytes_def split: prod.split option.split)

lemma da_init_ok:
  assumes "alloc_ok al"
  obtains al' where "da_init z n al = (replicate n z, al')" and "alloc_ok al'"
proof -
  obtain f al' where "kit_request al = (Some f, al')" and "alloc_ok al'"
    using assms(1) by (rule kit_request_ok)
  with assms that show ?thesis by (cases "n = 0") (auto simp: da_init_def)
qed

lemma da_resize_ok:
  assumes "alloc_ok al" and "length xs \<le> n"
  obtains f al' where "da_resize fresh n xs al = (xs @ map (fresh f) [length xs..<n], al')"
    and "alloc_ok al'"
proof -
  obtain f al' where "kit_request al = (Some f, al')" and "alloc_ok al'"
    using assms(1) by (rule kit_request_ok)
  with assms that show ?thesis by (cases "n = length xs") (auto simp: da_resize_def)
qed

lemma da_resize_cases:
  assumes "da_resize fresh n xs al = (ys, al')" and "length xs \<le> n"
  shows "(\<exists>f. ys = xs @ map (fresh f) [length xs..<n]) \<or> (length xs < n \<and> ys = xs)"
  using assms by (auto simp: da_resize_def split: if_splits option.splits prod.splits)

end
