(* ===== verification/Peer_Options.thy ===== *)
theory Peer_Options
  imports Peer_Prelude
begin

text \<open>
  The constants of \<open>source/peer/options.h\<close>: protocol settings, packet and message modes, service
  message ids, the byte offsets of the wire format and the error codes. Sizes, offsets, timeouts and
  error codes are \<^typ>\<open>int\<close> (the type the C code computes them in); modes and service ids are
  bytes. Settings the code never uses (\<open>PEER_VERSION\<close>, \<open>PEER_DEVELOPMENT\<close>,
  \<open>PEER_TIMEOUT_PING\<close>, \<open>PEER_TIMEOUT_CONNECTION\<close>, the ping, pong, request and resume ids,
  and the packet session and index offsets) are kept, as the header is the wire format's definition.
\<close>

subsection \<open>Settings\<close>

abbreviation (input) PEER_UNDEFINED :: ptrdiff_t where
  "PEER_UNDEFINED \<equiv> - 1"

abbreviation (input) PEER_VERSION :: int where
  "PEER_VERSION \<equiv> 1"

abbreviation (input) PEER_DEVELOPMENT :: int where
  "PEER_DEVELOPMENT \<equiv> 1"

abbreviation (input) PEER_ADDRESS_SIZE :: int where
  "PEER_ADDRESS_SIZE \<equiv> 64"

abbreviation (input) PEER_PACKET_SIZE :: int where
  "PEER_PACKET_SIZE \<equiv> 400"

abbreviation (input) PEER_MT64_KEY_SIZE :: int where
  "PEER_MT64_KEY_SIZE \<equiv> 128"

abbreviation (input) PEER_TRAIL_SERIAL_SIZE :: int where
  "PEER_TRAIL_SERIAL_SIZE \<equiv> 5"

abbreviation (input) PEER_TRAIL_SCATTER_SIZE :: int where
  "PEER_TRAIL_SCATTER_SIZE \<equiv> 5"

abbreviation (input) PEER_TRAIL_SCATTER_DISTANCE :: int where
  "PEER_TRAIL_SCATTER_DISTANCE \<equiv> 100"

abbreviation (input) PEER_TIMEOUT_HEARTBEAT :: int where
  "PEER_TIMEOUT_HEARTBEAT \<equiv> 10"

abbreviation (input) PEER_TIMEOUT_PING :: int where
  "PEER_TIMEOUT_PING \<equiv> 200"

abbreviation (input) PEER_TIMEOUT_CONNECTION :: int where
  "PEER_TIMEOUT_CONNECTION \<equiv> 2000"

subsection \<open>Modes and service ids\<close>

abbreviation (input) PEER_PACKET_MODE_PLAIN :: byte where
  "PEER_PACKET_MODE_PLAIN \<equiv> 0"

abbreviation (input) PEER_PACKET_MODE_MT64 :: byte where
  "PEER_PACKET_MODE_MT64 \<equiv> 1"

abbreviation (input) PEER_MESSAGE_MODE_SERVICE :: byte where
  "PEER_MESSAGE_MODE_SERVICE \<equiv> 0"

abbreviation (input) PEER_MESSAGE_MODE_APPLICATION :: byte where
  "PEER_MESSAGE_MODE_APPLICATION \<equiv> 1"

abbreviation (input) PEER_M_HEARTBEAT :: byte where
  "PEER_M_HEARTBEAT \<equiv> 1"

abbreviation (input) PEER_M_PING :: byte where
  "PEER_M_PING \<equiv> 2"

abbreviation (input) PEER_M_PONG :: byte where
  "PEER_M_PONG \<equiv> 3"

abbreviation (input) PEER_M_SESSION_REQUEST :: byte where
  "PEER_M_SESSION_REQUEST \<equiv> 4"

abbreviation (input) PEER_M_SESSION_RESPONSE :: byte where
  "PEER_M_SESSION_RESPONSE \<equiv> 5"

abbreviation (input) PEER_M_SESSION_RESUME :: byte where
  "PEER_M_SESSION_RESUME \<equiv> 6"

subsection \<open>Data offsets\<close>

abbreviation (input) PEER_N_PACKET_SESSION :: int where
  "PEER_N_PACKET_SESSION \<equiv> 0"

abbreviation (input) PEER_N_PACKET_INDEX :: int where
  "PEER_N_PACKET_INDEX \<equiv> 4"

abbreviation (input) PEER_N_PACKET_MODE :: int where
  "PEER_N_PACKET_MODE \<equiv> 12"

abbreviation (input) PEER_N_PACKET_SIZE :: int where
  "PEER_N_PACKET_SIZE \<equiv> 13"

abbreviation (input) PEER_N_PACKET_MESSAGES :: int where
  "PEER_N_PACKET_MESSAGES \<equiv> 15"

abbreviation (input) PEER_N_MESSAGE_CHECKSUM :: int where
  "PEER_N_MESSAGE_CHECKSUM \<equiv> 0"

abbreviation (input) PEER_N_MESSAGE_SIZE :: int where
  "PEER_N_MESSAGE_SIZE \<equiv> 8"

abbreviation (input) PEER_N_MESSAGE_SIZE_AND_MODE :: int where
  "PEER_N_MESSAGE_SIZE_AND_MODE \<equiv> 9"

abbreviation (input) PEER_N_MESSAGE_INDEX :: int where
  "PEER_N_MESSAGE_INDEX \<equiv> 10"

abbreviation (input) PEER_N_MESSAGE_TIME :: int where
  "PEER_N_MESSAGE_TIME \<equiv> 18"

abbreviation (input) PEER_N_MESSAGE_ACTOR :: int where
  "PEER_N_MESSAGE_ACTOR \<equiv> 26"

abbreviation (input) PEER_N_MESSAGE_DATA :: int where
  "PEER_N_MESSAGE_DATA \<equiv> 30"

abbreviation (input) PEER_MAX_MESSAGE_SIZE :: int where
  "PEER_MAX_MESSAGE_SIZE \<equiv> PEER_PACKET_SIZE - PEER_N_PACKET_MESSAGES - PEER_N_MESSAGE_DATA"

subsection \<open>Error codes\<close>

abbreviation (input) PEER_ERROR_BAD_ALLOC :: kit_status_t where
  "PEER_ERROR_BAD_ALLOC \<equiv> 0x00000001"

abbreviation (input) PEER_ERROR_INVALID_CIPHER :: kit_status_t where
  "PEER_ERROR_INVALID_CIPHER \<equiv> 0x00000002"

abbreviation (input) PEER_ERROR_INVALID_KEY :: kit_status_t where
  "PEER_ERROR_INVALID_KEY \<equiv> 0x00000004"

abbreviation (input) PEER_ERROR_INVALID_PEER :: kit_status_t where
  "PEER_ERROR_INVALID_PEER \<equiv> 0x00000008"

abbreviation (input) PEER_ERROR_INVALID_MODE :: kit_status_t where
  "PEER_ERROR_INVALID_MODE \<equiv> 0x00000010"

abbreviation (input) PEER_ERROR_INVALID_MESSAGE :: kit_status_t where
  "PEER_ERROR_INVALID_MESSAGE \<equiv> 0x00000020"

abbreviation (input) PEER_ERROR_INVALID_ID :: kit_status_t where
  "PEER_ERROR_INVALID_ID \<equiv> 0x00000040"

abbreviation (input) PEER_ERROR_INVALID_TIME_ELAPSED :: kit_status_t where
  "PEER_ERROR_INVALID_TIME_ELAPSED \<equiv> 0x00000080"

abbreviation (input) PEER_ERROR_INVALID_MESSAGE_SIZE :: kit_status_t where
  "PEER_ERROR_INVALID_MESSAGE_SIZE \<equiv> 0x00000100"

abbreviation (input) PEER_ERROR_INVALID_PACKET_SIZE :: kit_status_t where
  "PEER_ERROR_INVALID_PACKET_SIZE \<equiv> 0x00000200"

abbreviation (input) PEER_ERROR_INVALID_MESSAGE_INDEX :: kit_status_t where
  "PEER_ERROR_INVALID_MESSAGE_INDEX \<equiv> 0x00000400"

abbreviation (input) PEER_ERROR_INVALID_MESSAGE_TIME :: kit_status_t where
  "PEER_ERROR_INVALID_MESSAGE_TIME \<equiv> 0x00000800"

abbreviation (input) PEER_ERROR_INVALID_MESSAGE_ACTOR :: kit_status_t where
  "PEER_ERROR_INVALID_MESSAGE_ACTOR \<equiv> 0x00001040"

abbreviation (input) PEER_ERROR_NO_FREE_SLOTS :: kit_status_t where
  "PEER_ERROR_NO_FREE_SLOTS \<equiv> 0x00002000"

abbreviation (input) PEER_ERROR_SLOT_NOT_FOUND :: kit_status_t where
  "PEER_ERROR_SLOT_NOT_FOUND \<equiv> 0x00004000"

abbreviation (input) PEER_ERROR_UNKNOWN_SERVICE_ID :: kit_status_t where
  "PEER_ERROR_UNKNOWN_SERVICE_ID \<equiv> 0x00008000"

abbreviation (input) PEER_ERROR_INVALID_OUT_INDEX :: kit_status_t where
  "PEER_ERROR_INVALID_OUT_INDEX \<equiv> 0x00010000"

abbreviation (input) PEER_ERROR_TIME_OVERFLOW :: kit_status_t where
  "PEER_ERROR_TIME_OVERFLOW \<equiv> 0x00020000"

abbreviation (input) PEER_ERROR_INVALID_SLOT_STATE :: kit_status_t where
  "PEER_ERROR_INVALID_SLOT_STATE \<equiv> 0x00040000"

abbreviation (input) PEER_ERROR_INVALID_POOL :: kit_status_t where
  "PEER_ERROR_INVALID_POOL \<equiv> 0x00080000"

abbreviation (input) PEER_ERROR_UNKNOWN_PROTOCOL :: kit_status_t where
  "PEER_ERROR_UNKNOWN_PROTOCOL \<equiv> 0x00100000"

abbreviation (input) PEER_ERROR_INVALID_COUNT :: kit_status_t where
  "PEER_ERROR_INVALID_COUNT \<equiv> 0x00200000"

abbreviation (input) PEER_ERROR_CREATE_SOCKET_FAILED :: kit_status_t where
  "PEER_ERROR_CREATE_SOCKET_FAILED \<equiv> 0x00400000"

abbreviation (input) PEER_ERROR_MAKE_SOCKET_NONBLOCKING_FAILED :: kit_status_t where
  "PEER_ERROR_MAKE_SOCKET_NONBLOCKING_FAILED \<equiv> 0x00800000"

abbreviation (input) PEER_ERROR_BIND_SOCKET_FAILED :: kit_status_t where
  "PEER_ERROR_BIND_SOCKET_FAILED \<equiv> 0x01000000"

abbreviation (input) PEER_ERROR_GET_SOCKET_NAME_FAILED :: kit_status_t where
  "PEER_ERROR_GET_SOCKET_NAME_FAILED \<equiv> 0x02000000"

abbreviation (input) PEER_ERROR_INVALID_ADDRESS :: kit_status_t where
  "PEER_ERROR_INVALID_ADDRESS \<equiv> 0x04000000"

abbreviation (input) PEER_ERROR_INVALID_PORT :: kit_status_t where
  "PEER_ERROR_INVALID_PORT \<equiv> 0x08000000"

abbreviation (input) PEER_ERROR_SOCKET_RECEIVE_FAILED :: kit_status_t where
  "PEER_ERROR_SOCKET_RECEIVE_FAILED \<equiv> 0x10000000"

abbreviation (input) PEER_ERROR_SOCKET_SEND_FAILED :: kit_status_t where
  "PEER_ERROR_SOCKET_SEND_FAILED \<equiv> 0x20000000"

abbreviation (input) PEER_ERROR_INVALID_SOCKET :: kit_status_t where
  "PEER_ERROR_INVALID_SOCKET \<equiv> 0x40000000"

abbreviation (input) PEER_ERROR_NOT_IMPLEMENTED :: kit_status_t where
  "PEER_ERROR_NOT_IMPLEMENTED \<equiv> - 1"

text \<open>The single-flag error codes, in the header's order (\<open>PEER_ERROR_NOT_IMPLEMENTED\<close>, all
  bits set, is not among them).\<close>

definition peer_error_flags :: "kit_status_t list" where
  "peer_error_flags =
    [PEER_ERROR_BAD_ALLOC,
     PEER_ERROR_INVALID_CIPHER,
     PEER_ERROR_INVALID_KEY,
     PEER_ERROR_INVALID_PEER,
     PEER_ERROR_INVALID_MODE,
     PEER_ERROR_INVALID_MESSAGE,
     PEER_ERROR_INVALID_ID,
     PEER_ERROR_INVALID_TIME_ELAPSED,
     PEER_ERROR_INVALID_MESSAGE_SIZE,
     PEER_ERROR_INVALID_PACKET_SIZE,
     PEER_ERROR_INVALID_MESSAGE_INDEX,
     PEER_ERROR_INVALID_MESSAGE_TIME,
     PEER_ERROR_INVALID_MESSAGE_ACTOR,
     PEER_ERROR_NO_FREE_SLOTS,
     PEER_ERROR_SLOT_NOT_FOUND,
     PEER_ERROR_UNKNOWN_SERVICE_ID,
     PEER_ERROR_INVALID_OUT_INDEX,
     PEER_ERROR_TIME_OVERFLOW,
     PEER_ERROR_INVALID_SLOT_STATE,
     PEER_ERROR_INVALID_POOL,
     PEER_ERROR_UNKNOWN_PROTOCOL,
     PEER_ERROR_INVALID_COUNT,
     PEER_ERROR_CREATE_SOCKET_FAILED,
     PEER_ERROR_MAKE_SOCKET_NONBLOCKING_FAILED,
     PEER_ERROR_BIND_SOCKET_FAILED,
     PEER_ERROR_GET_SOCKET_NAME_FAILED,
     PEER_ERROR_INVALID_ADDRESS,
     PEER_ERROR_INVALID_PORT,
     PEER_ERROR_SOCKET_RECEIVE_FAILED,
     PEER_ERROR_SOCKET_SEND_FAILED,
     PEER_ERROR_INVALID_SOCKET]"

end
