(* ===== verification/Peer_Serial.thy ===== *)
theory Peer_Serial
  imports Peer_Options
begin

text \<open>
  The serialization helpers of \<open>source/peer/serial.h\<close>: little-endian reads and writes of
  unsigned integers, the accessors of the message header, and \<open>peer_write_message\<close>, which
  writes a whole message. A pointer \<open>source + p\<close> is a byte array with a position \<open>p\<close>;
  the writers of a message take the array the message starts at. A null data pointer is the empty
  array, any read of which is a fault.

  The lemmas give each writer its effect as a closed form on lists, the round trips of every
  accessor, and that the bytes of a written message do not depend on the contents the buffer had
  (\<open>message_bytes\<close> is the wire format).
\<close>

subsection \<open>Unsigned integers\<close>

definition peer_read_u8 :: "byte list \<Rightarrow> int \<Rightarrow> byte option" where
  "peer_read_u8 source p = c_load source p"

definition peer_read_u16 :: "byte list \<Rightarrow> int \<Rightarrow> 16 word option" where
  "peer_read_u16 source p = do {
     b0 \<leftarrow> c_load source p;
     b1 \<leftarrow> c_load source (p + 1);
     Some (ucast b0 OR push_bit 8 (ucast b1))
   }"

definition peer_read_u32 :: "byte list \<Rightarrow> int \<Rightarrow> 32 word option" where
  "peer_read_u32 source p = do {
     b0 \<leftarrow> c_load source p;
     b1 \<leftarrow> c_load source (p + 1);
     b2 \<leftarrow> c_load source (p + 2);
     b3 \<leftarrow> c_load source (p + 3);
     Some (ucast b0 OR push_bit 8 (ucast b1) OR push_bit 16 (ucast b2) OR push_bit 24 (ucast b3))
   }"

definition peer_read_u64 :: "byte list \<Rightarrow> int \<Rightarrow> 64 word option" where
  "peer_read_u64 source p = do {
     b0 \<leftarrow> c_load source p;
     b1 \<leftarrow> c_load source (p + 1);
     b2 \<leftarrow> c_load source (p + 2);
     b3 \<leftarrow> c_load source (p + 3);
     b4 \<leftarrow> c_load source (p + 4);
     b5 \<leftarrow> c_load source (p + 5);
     b6 \<leftarrow> c_load source (p + 6);
     b7 \<leftarrow> c_load source (p + 7);
     Some (ucast b0 OR push_bit 8 (ucast b1) OR push_bit 16 (ucast b2) OR push_bit 24 (ucast b3) OR
       push_bit 32 (ucast b4) OR push_bit 40 (ucast b5) OR push_bit 48 (ucast b6) OR
       push_bit 56 (ucast b7))
   }"

definition peer_write_u8 :: "byte list \<Rightarrow> int \<Rightarrow> byte \<Rightarrow> byte list option" where
  "peer_write_u8 destination p x = c_store destination p x"

definition peer_write_u16 :: "byte list \<Rightarrow> int \<Rightarrow> 16 word \<Rightarrow> byte list option" where
  "peer_write_u16 destination p x = do {
     d0 \<leftarrow> c_store destination p (ucast (x AND 0xff));
     c_store d0 (p + 1) (ucast (drop_bit 8 x))
   }"

definition peer_write_u32 :: "byte list \<Rightarrow> int \<Rightarrow> 32 word \<Rightarrow> byte list option" where
  "peer_write_u32 destination p x = do {
     d0 \<leftarrow> c_store destination p (ucast (x AND 0xff));
     d1 \<leftarrow> c_store d0 (p + 1) (ucast (drop_bit 8 x));
     d2 \<leftarrow> c_store d1 (p + 2) (ucast (drop_bit 16 x));
     c_store d2 (p + 3) (ucast (drop_bit 24 x))
   }"

definition peer_write_u64 :: "byte list \<Rightarrow> int \<Rightarrow> 64 word \<Rightarrow> byte list option" where
  "peer_write_u64 destination p x = do {
     d0 \<leftarrow> c_store destination p (ucast (x AND 0xff));
     d1 \<leftarrow> c_store d0 (p + 1) (ucast (drop_bit 8 x));
     d2 \<leftarrow> c_store d1 (p + 2) (ucast (drop_bit 16 x));
     d3 \<leftarrow> c_store d2 (p + 3) (ucast (drop_bit 24 x));
     d4 \<leftarrow> c_store d3 (p + 4) (ucast (drop_bit 32 x));
     d5 \<leftarrow> c_store d4 (p + 5) (ucast (drop_bit 40 x));
     d6 \<leftarrow> c_store d5 (p + 6) (ucast (drop_bit 48 x));
     c_store d6 (p + 7) (ucast (drop_bit 56 x))
   }"

subsection \<open>The message header\<close>

definition peer_read_message_checksum :: "byte list \<Rightarrow> int \<Rightarrow> 64 word option" where
  "peer_read_message_checksum message p = peer_read_u64 message (p + PEER_N_MESSAGE_CHECKSUM)"

definition peer_read_message_size :: "byte list \<Rightarrow> int \<Rightarrow> 16 word option" where
  "peer_read_message_size message p = do {
     b0 \<leftarrow> c_load message (p + PEER_N_MESSAGE_SIZE);
     b1 \<leftarrow> c_load message (p + PEER_N_MESSAGE_SIZE_AND_MODE);
     Some (ucast b0 OR push_bit 8 (ucast b1 AND 0x3))
   }"

definition peer_read_message_data_size :: "bool \<Rightarrow> byte list \<Rightarrow> int \<Rightarrow> ptrdiff_t option" where
  "peer_read_message_data_size nd message p = do {
     full_size \<leftarrow> peer_read_message_size message p;
     c_assert nd (uint full_size \<ge> PEER_N_MESSAGE_DATA);
     Some (uint full_size - PEER_N_MESSAGE_DATA)
   }"

definition peer_read_message_mode :: "byte list \<Rightarrow> int \<Rightarrow> byte option" where
  "peer_read_message_mode message p = do {
     b \<leftarrow> c_load message (p + PEER_N_MESSAGE_SIZE_AND_MODE);
     Some (drop_bit 2 b)
   }"

definition peer_read_message_index :: "byte list \<Rightarrow> int \<Rightarrow> ptrdiff_t option" where
  "peer_read_message_index message p = do {
     x \<leftarrow> peer_read_u64 message (p + PEER_N_MESSAGE_INDEX);
     Some (sint x)
   }"

definition peer_read_message_time :: "byte list \<Rightarrow> int \<Rightarrow> peer_time_t option" where
  "peer_read_message_time message p = do {
     x \<leftarrow> peer_read_u64 message (p + PEER_N_MESSAGE_TIME);
     Some (sint x)
   }"

definition peer_read_message_actor :: "byte list \<Rightarrow> int \<Rightarrow> ptrdiff_t option" where
  "peer_read_message_actor message p = do {
     actor \<leftarrow> peer_read_u32 message (p + PEER_N_MESSAGE_ACTOR);
     if actor = - 1 then Some PEER_UNDEFINED else Some (uint actor)
   }"

definition peer_write_message_size :: "bool \<Rightarrow> byte list \<Rightarrow> 16 word \<Rightarrow> byte list option" where
  "peer_write_message_size nd message n = do {
     c_assert nd (n AND 0xfc00 = 0);
     m0 \<leftarrow> c_store message PEER_N_MESSAGE_SIZE (ucast (n AND 0xff));
     b \<leftarrow> c_load m0 PEER_N_MESSAGE_SIZE_AND_MODE;
     m1 \<leftarrow> c_store m0 PEER_N_MESSAGE_SIZE_AND_MODE (b AND 0xfc);
     b' \<leftarrow> c_load m1 PEER_N_MESSAGE_SIZE_AND_MODE;
     c_store m1 PEER_N_MESSAGE_SIZE_AND_MODE (b' OR ucast (drop_bit 8 n AND 0x3))
   }"

definition peer_write_message_mode :: "bool \<Rightarrow> byte list \<Rightarrow> byte \<Rightarrow> byte list option" where
  "peer_write_message_mode nd message mode = do {
     c_assert nd (mode AND 0xc0 = 0);
     b \<leftarrow> c_load message PEER_N_MESSAGE_SIZE_AND_MODE;
     m0 \<leftarrow> c_store message PEER_N_MESSAGE_SIZE_AND_MODE (b AND 0x3);
     b' \<leftarrow> c_load m0 PEER_N_MESSAGE_SIZE_AND_MODE;
     c_store m0 PEER_N_MESSAGE_SIZE_AND_MODE (b' OR push_bit 2 mode)
   }"

definition peer_write_message ::
  "bool \<Rightarrow> byte list \<Rightarrow> byte \<Rightarrow> ptrdiff_t \<Rightarrow> peer_time_t \<Rightarrow> ptrdiff_t \<Rightarrow> ptrdiff_t \<Rightarrow> byte list \<Rightarrow>
   byte list option" where
  "peer_write_message nd destination mode index time actor data_size data = do {
     c_assert nd (data_size \<ge> 0 \<and> data_size \<le> PEER_MAX_MESSAGE_SIZE);
     c_assert nd (actor \<ge> 0 \<or> actor = PEER_UNDEFINED);
     c_assert nd (actor \<le> 0xffffffff);
     let checksum = (0 :: 64 word);
         full_size = (word_of_int (PEER_N_MESSAGE_DATA + data_size) :: 16 word)
     in do {
       d0 \<leftarrow> peer_write_u64 destination PEER_N_MESSAGE_CHECKSUM checksum;
       d1 \<leftarrow> peer_write_message_size nd d0 full_size;
       d2 \<leftarrow> peer_write_message_mode nd d1 mode;
       d3 \<leftarrow> peer_write_u64 d2 PEER_N_MESSAGE_INDEX (word_of_int index);
       d4 \<leftarrow> peer_write_u64 d3 PEER_N_MESSAGE_TIME (word_of_int time);
       d5 \<leftarrow> peer_write_u32 d4 PEER_N_MESSAGE_ACTOR
               (if actor = PEER_UNDEFINED then - 1 else word_of_int actor);
       if data_size > 0 then c_memcpy d5 PEER_N_MESSAGE_DATA data 0 data_size else Some d5
     }
   }"

subsection \<open>The wire format\<close>

text \<open>The bytes of an integer, least significant first, and of a whole message.\<close>

definition le16 :: "16 word \<Rightarrow> byte list" where
  "le16 x = [ucast x, ucast (drop_bit 8 x)]"

definition le32 :: "32 word \<Rightarrow> byte list" where
  "le32 x = [ucast x, ucast (drop_bit 8 x), ucast (drop_bit 16 x), ucast (drop_bit 24 x)]"

definition le64 :: "64 word \<Rightarrow> byte list" where
  "le64 x = [ucast x, ucast (drop_bit 8 x), ucast (drop_bit 16 x), ucast (drop_bit 24 x),
     ucast (drop_bit 32 x), ucast (drop_bit 40 x), ucast (drop_bit 48 x), ucast (drop_bit 56 x)]"

definition message_bytes ::
  "byte \<Rightarrow> ptrdiff_t \<Rightarrow> peer_time_t \<Rightarrow> ptrdiff_t \<Rightarrow> byte list \<Rightarrow> byte list" where
  "message_bytes mode index time actor data =
     (let n = (word_of_int (PEER_N_MESSAGE_DATA + int (length data)) :: 16 word) in
      le64 0 @
      [ucast n, ucast (drop_bit 8 n AND 0x3) OR push_bit 2 mode] @
      le64 (word_of_int index) @ le64 (word_of_int time) @ le32 (word_of_int actor) @ data)"

subsection \<open>Closed forms and round trips\<close>

lemma le_length [simp]: "length (le16 x) = 2" "length (le32 y) = 4" "length (le64 z) = 8"
  by (simp_all add: le16_def le32_def le64_def)

lemma take_bit_join:
  fixes x :: "'a::len word"
  shows "take_bit n x OR push_bit n (take_bit m (drop_bit n x)) = take_bit (n + m) x"
  by (rule bit_word_eqI) (auto simp: bit_simps)

lemma ucast_byte:
  fixes x :: "'a::len word"
  assumes "8 \<le> LENGTH('a)"
  shows "ucast (ucast x :: byte) = take_bit 8 x"
  using assms by (intro bit_word_eqI) (auto simp: bit_simps)

lemma ucast_low_byte:
  fixes x :: "'a::len word"
  shows "(ucast (x AND 0xff) :: byte) = ucast x"
proof -
  have eq: "(255 :: 'a word) = mask 8" by (simp add: mask_eq_exp_minus_1)
  show ?thesis
    unfolding eq by (intro bit_word_eqI) (auto simp: bit_simps dest: bit_imp_le_length)
qed

lemmas byte_join = ucast_byte take_bit_join take_bit_word_eq_self or.assoc [symmetric]

lemma word_join16:
  fixes x :: "16 word"
  shows "ucast (ucast x :: byte) OR push_bit 8 (ucast (ucast (drop_bit 8 x) :: byte)) = x"
  by (simp add: byte_join)

lemma word_join32:
  fixes x :: "32 word"
  shows "ucast (ucast x :: byte) OR push_bit 8 (ucast (ucast (drop_bit 8 x) :: byte)) OR
    push_bit 16 (ucast (ucast (drop_bit 16 x) :: byte)) OR
    push_bit 24 (ucast (ucast (drop_bit 24 x) :: byte)) = x"
  by (simp add: byte_join)

lemma word_join64:
  fixes x :: "64 word"
  shows "ucast (ucast x :: byte) OR push_bit 8 (ucast (ucast (drop_bit 8 x) :: byte)) OR
    push_bit 16 (ucast (ucast (drop_bit 16 x) :: byte)) OR
    push_bit 24 (ucast (ucast (drop_bit 24 x) :: byte)) OR
    push_bit 32 (ucast (ucast (drop_bit 32 x) :: byte)) OR
    push_bit 40 (ucast (ucast (drop_bit 40 x) :: byte)) OR
    push_bit 48 (ucast (ucast (drop_bit 48 x) :: byte)) OR
    push_bit 56 (ucast (ucast (drop_bit 56 x) :: byte)) = x"
  by (simp add: byte_join)

text \<open>Stores and loads in the middle of a list, by the length of what precedes.\<close>

lemma c_store_append:
  "0 \<le> k \<Longrightarrow> k < int (length ys) \<Longrightarrow>
   c_store (xs @ ys) (int (length xs) + k) v = Some (xs @ ys[nat k := v])"
  "0 < length ys \<Longrightarrow> c_store (xs @ ys) (int (length xs)) v = Some (xs @ ys[0 := v])"
  by (simp_all add: c_store_def nat_add_distrib list_update_append)

lemma c_load_append:
  "0 \<le> k \<Longrightarrow> k < int (length ys) \<Longrightarrow>
   c_load (xs @ ys) (int (length xs) + k) = Some (ys ! nat k)"
  "0 < length ys \<Longrightarrow> c_load (xs @ ys) (int (length xs)) = Some (ys ! 0)"
  by (simp_all add: c_load_def nat_add_distrib nth_append)

text \<open>The writers, on a list split where they write.\<close>

lemma peer_write_u16_append:
  assumes "2 \<le> length ys"
  shows "peer_write_u16 (xs @ ys) (int (length xs)) x = Some (xs @ le16 x @ drop 2 ys)"
  using assms unfolding peer_write_u16_def le16_def
  by (auto simp: c_store_append ucast_low_byte numeral_eq_Suc Suc_le_length_iff)

lemma peer_write_u32_append:
  assumes "4 \<le> length ys"
  shows "peer_write_u32 (xs @ ys) (int (length xs)) x = Some (xs @ le32 x @ drop 4 ys)"
proof -
  from assms obtain b0 b1 b2 b3 zs where "ys = b0 # b1 # b2 # b3 # zs"
    by (auto simp: numeral_eq_Suc Suc_le_length_iff)
  then show ?thesis by (simp add: peer_write_u32_def le32_def c_store_append ucast_low_byte)
qed

lemma peer_write_u64_append:
  assumes "8 \<le> length ys"
  shows "peer_write_u64 (xs @ ys) (int (length xs)) x = Some (xs @ le64 x @ drop 8 ys)"
proof -
  from assms obtain b0 b1 b2 b3 b4 b5 b6 b7 zs where
    "ys = b0 # b1 # b2 # b3 # b4 # b5 # b6 # b7 # zs"
    by (auto simp: numeral_eq_Suc Suc_le_length_iff)
  then show ?thesis by (simp add: peer_write_u64_def le64_def c_store_append ucast_low_byte)
qed

lemma peer_read_u16_append:
  "peer_read_u16 (xs @ le16 x @ ys) (int (length xs)) = Some x"
  unfolding peer_read_u16_def le16_def by (simp add: c_load_append word_join16)

lemma peer_read_u32_append:
  "peer_read_u32 (xs @ le32 x @ ys) (int (length xs)) = Some x"
  unfolding peer_read_u32_def le32_def by (simp add: c_load_append word_join32)

lemma peer_read_u64_append:
  "peer_read_u64 (xs @ le64 x @ ys) (int (length xs)) = Some x"
  unfolding peer_read_u64_def le64_def by (simp add: c_load_append word_join64)

text \<open>
  The contract of a fixed-width integer in a byte array, and what follows for a buffer of any size:
  what is written is read back, and the bytes around it are untouched.
\<close>

locale int_codec =
  fixes width :: nat
    and bytes :: "'w \<Rightarrow> byte list"
    and store :: "byte list \<Rightarrow> int \<Rightarrow> 'w \<Rightarrow> byte list option"
    and load :: "byte list \<Rightarrow> int \<Rightarrow> 'w option"
  assumes bytes_length: "length (bytes x) = width"
    and write_at: "width \<le> length ys \<Longrightarrow> store (xs @ ys) (int (length xs)) x = Some (xs @ bytes x @ drop width ys)"
    and read_at: "load (xs @ bytes x @ ys) (int (length xs)) = Some x"
begin

lemma write_closed:
  assumes "p + width \<le> length buf"
  shows "store buf (int p) x = Some (take p buf @ bytes x @ drop (p + width) buf)"
  using write_at [of "drop p buf" "take p buf" x] assms by (simp add: add.commute)

lemma write_read:
  assumes "p + width \<le> length buf"
  shows "\<exists>buf'. store buf (int p) x = Some buf' \<and> load buf' (int p) = Some x \<and> length buf' = length buf \<and>
    (\<forall>i < length buf. i < p \<or> p + width \<le> i \<longrightarrow> buf' ! i = buf ! i)"
proof (intro exI conjI)
  let ?buf' = "take p buf @ bytes x @ drop (p + width) buf"
  show "store buf (int p) x = Some ?buf'" by (rule write_closed [OF assms])
  show "load ?buf' (int p) = Some x" using read_at [of "take p buf" x "drop (p + width) buf"] assms by simp
  show "length ?buf' = length buf" using assms by (simp add: bytes_length)
  show "\<forall>i < length buf. i < p \<or> p + width \<le> i \<longrightarrow> ?buf' ! i = buf ! i"
    using assms by (auto simp: nth_append bytes_length)
qed

end

interpretation u8: int_codec 1 "\<lambda>x. [x]" peer_write_u8 peer_read_u8
  by unfold_locales (auto simp: peer_write_u8_def peer_read_u8_def c_store_append c_load_append Suc_le_length_iff)

interpretation u16: int_codec 2 le16 peer_write_u16 peer_read_u16
  by unfold_locales (simp_all add: peer_write_u16_append peer_read_u16_append)

interpretation u32: int_codec 4 le32 peer_write_u32 peer_read_u32
  by unfold_locales (simp_all add: peer_write_u32_append peer_read_u32_append)

interpretation u64: int_codec 8 le64 peer_write_u64 peer_read_u64
  by unfold_locales (simp_all add: peer_write_u64_append peer_read_u64_append)

text \<open>The byte that holds the two high bits of the size and the six bits of the mode.\<close>

lemma three_mask: "(3 :: 'a::len word) = mask 2"
  by (simp add: mask_eq_exp_minus_1)

lemma fc_mask: "(0xfc :: byte) = NOT (mask 2)"
  by (simp add: mask_eq_exp_minus_1)

lemma size_mode_byte:
  fixes b :: byte and c :: "16 word"
  shows "(b AND 0xfc OR ucast (c AND 0x3)) AND 0x3 = ucast (c AND 0x3)"
  unfolding three_mask fc_mask
  by (intro bit_word_eqI) (auto simp: bit_simps)

lemma size_mode_byte_size:
  fixes c :: "16 word" and m :: byte
  shows "ucast (ucast (c AND 0x3) OR push_bit 2 m) AND (0x3 :: 16 word) = c AND 0x3"
  unfolding three_mask by (intro bit_word_eqI) (auto simp: bit_simps)

lemma size_mode_byte_mode:
  fixes c :: "16 word" and m :: byte
  shows "drop_bit 2 (ucast (c AND 0x3) OR push_bit 2 m) = take_bit 6 m"
  unfolding three_mask
  by (intro bit_word_eqI) (auto simp: bit_simps dest: bit_imp_le_length)

lemma size_take_bit_10:
  fixes n :: "16 word"
  shows "ucast (ucast n :: byte) OR push_bit 8 (drop_bit 8 n AND 0x3) = take_bit 10 n"
  unfolding three_mask by (simp add: ucast_byte take_bit_join flip: take_bit_eq_mask)

lemma peer_write_message_size_append:
  assumes "length xs = 8" and "nd \<or> n AND 0xfc00 = 0"
  shows "peer_write_message_size nd (xs @ b0 # b1 # zs) n =
    Some (xs @ ucast n # (b1 AND 0xfc OR ucast (drop_bit 8 n AND 0x3)) # zs)"
proof -
  have "c_store (xs @ b0 # b1 # zs) 8 v = Some (xs @ v # b1 # zs)"
    and "c_store (xs @ v # w # zs) 9 u = Some (xs @ v # u # zs)"
    and "c_load (xs @ v # w # zs) 9 = Some w" for u v w
    using assms(1) by (simp_all add: c_access_defs list_update_append nth_append)
  with assms(2) show ?thesis
    by (simp add: peer_write_message_size_def ucast_low_byte c_assert_holds)
qed

lemma peer_write_message_mode_append:
  assumes "length xs = 8" and "nd \<or> m AND 0xc0 = 0"
  shows "peer_write_message_mode nd (xs @ b0 # b1 # zs) m =
    Some (xs @ b0 # (b1 AND 0x3 OR push_bit 2 m) # zs)"
proof -
  have "c_store (xs @ v # w # zs) 9 u = Some (xs @ v # u # zs)"
    and "c_load (xs @ v # w # zs) 9 = Some w" for u v w
    using assms(1) by (simp_all add: c_access_defs list_update_append nth_append)
  with assms(2) show ?thesis
    by (simp add: peer_write_message_mode_def c_assert_holds)
qed

lemma peer_read_message_size_append:
  assumes "length xs = 8"
  shows "peer_read_message_size (ps @ xs @ b0 # b1 # zs) (int (length ps)) =
    Some (ucast b0 OR push_bit 8 (ucast b1 AND 0x3))"
  using assms unfolding peer_read_message_size_def
  by (simp add: c_load_append nth_append)

text \<open>
  A message fits when its data size is one the code allows. The assertions of
  \<open>peer_write_message\<close> also bound the actor and the mode.
\<close>

definition message_fits :: "byte \<Rightarrow> ptrdiff_t \<Rightarrow> byte list \<Rightarrow> bool" where
  "message_fits mode actor data \<longleftrightarrow>
     mode AND 0xc0 = 0 \<and> (0 \<le> actor \<or> actor = PEER_UNDEFINED) \<and> actor \<le> 0xffffffff \<and>
     int (length data) \<le> PEER_MAX_MESSAGE_SIZE"

lemma message_bytes_length [simp]:
  "length (message_bytes mode index time actor data) = 30 + length data"
  by (simp add: message_bytes_def Let_def)

lemma small_size_bits:
  assumes "0 \<le> k" and "k < 1024"
  shows "(word_of_int k :: 16 word) AND 0xfc00 = 0"
    and "take_bit 10 (word_of_int k :: 16 word) = word_of_int k"
proof -
  have "uint (take_bit 10 (word_of_int k :: 16 word)) = uint (word_of_int k :: 16 word)"
    using assms by (simp add: unsigned_take_bit_eq uint_word_of_int take_bit_int_eq_self)
  then show small: "take_bit 10 (word_of_int k :: 16 word) = word_of_int k"
    by (rule word_uint_eqI)
  have mask: "(0xfc00 :: 16 word) = NOT (mask 10)" by (simp add: mask_eq_exp_minus_1)
  have "take_bit 10 (word_of_int k) AND (0xfc00 :: 16 word) = 0"
    unfolding mask by (intro bit_word_eqI) (auto simp: bit_simps)
  then show "(word_of_int k :: 16 word) AND 0xfc00 = 0"
    by (simp only: small)
qed

lemma split_list_at:
  assumes "n \<le> length xs"
  obtains ys zs where "xs = ys @ zs" and "length ys = n"
  using that [of "take n xs" "drop n xs"] assms by simp

lemma split_header:
  assumes "30 \<le> length dst"
  obtains as b0 b1 cs ds es rest where "dst = as @ b0 # b1 # cs @ ds @ es @ rest"
    and "length as = 8" and "length cs = 8" and "length ds = 8" and "length es = 4"
proof -
  obtain as t0 where 0: "dst = as @ t0" "length as = 8"
    by (rule split_list_at [of 8 dst]) (use assms in auto)
  then obtain bs t1 where 1: "t0 = bs @ t1" "length bs = 2"
    by - (rule split_list_at [of 2 t0], use assms in auto)
  then obtain b0 b1 where bs: "bs = [b0, b1]"
    by (auto simp: length_Suc_conv numeral_2_eq_2)
  obtain cs t2 where 2: "t1 = cs @ t2" "length cs = 8"
    by (rule split_list_at [of 8 t1]) (use assms 0 1 in auto)
  obtain ds t3 where 3: "t2 = ds @ t3" "length ds = 8"
    by (rule split_list_at [of 8 t2]) (use assms 0 1 2 in auto)
  obtain es rest where 4: "t3 = es @ rest" "length es = 4"
    by (rule split_list_at [of 4 t3]) (use assms 0 1 2 3 in auto)
  show ?thesis
    by (rule that [of as b0 b1 cs ds es rest]) (simp_all add: 0 1 2 3 4 bs)
qed

text \<open>
  The effect of \<open>peer_write_message\<close> in closed form: the wire format of the message, and the
  rest of the buffer unchanged. The right-hand side does not mention the first bytes of the buffer:
  the message written into indeterminate memory is determined.
\<close>

lemma peer_write_message_eq:
  assumes ok: "nd \<or> message_fits mode actor (take n data)" and n: "n \<le> length data"
    and room: "30 + n \<le> length dst"
  shows "peer_write_message nd dst mode index time actor (int n) data =
    Some (message_bytes mode index time actor (take n data) @ drop (30 + n) dst)"
proof -
  obtain as b0 b1 cs ds es rest where dst: "dst = as @ b0 # b1 # cs @ ds @ es @ rest"
    and len: "length as = 8" "length cs = 8" "length ds = 8" "length es = 4"
    by (rule split_header [of dst]) (use room in auto)
  define sz where "sz = (word_of_int (30 + int n) :: 16 word)"
  define hm where "hm = (ucast (drop_bit 8 sz AND 0x3) OR push_bit 2 mode :: byte)"
  let ?i = "word_of_int index :: 64 word" and ?t = "word_of_int time :: 64 word"
  let ?a = "word_of_int actor :: 32 word"
  let ?h = "le64 0 @ ucast sz # hm # []"
  have szok: "nd \<or> sz AND 0xfc00 = 0"
    using ok n small_size_bits(1) [of "30 + int n"] by (auto simp: message_fits_def sz_def)
  have modeok: "nd \<or> mode AND 0xc0 = 0" using ok by (auto simp: message_fits_def)
  have w0: "peer_write_u64 dst 0 0 = Some (le64 0 @ b0 # b1 # cs @ ds @ es @ rest)"
    using peer_write_u64_append [of dst "[]" 0] dst len by simp
  have w1: "peer_write_message_size nd (le64 0 @ b0 # b1 # cs @ ds @ es @ rest) sz =
      Some (le64 0 @ ucast sz # (b1 AND 0xfc OR ucast (drop_bit 8 sz AND 0x3)) # cs @ ds @ es @ rest)"
    by (rule peer_write_message_size_append) (use szok in auto)
  have w2: "peer_write_message_mode nd
      (le64 0 @ ucast sz # (b1 AND 0xfc OR ucast (drop_bit 8 sz AND 0x3)) # cs @ ds @ es @ rest) mode =
      Some (?h @ cs @ ds @ es @ rest)"
    using modeok by (subst peer_write_message_mode_append) (auto simp: size_mode_byte hm_def)
  have w3: "peer_write_u64 (?h @ cs @ ds @ es @ rest) 10 ?i = Some (?h @ le64 ?i @ ds @ es @ rest)"
    using peer_write_u64_append [of "cs @ ds @ es @ rest" ?h ?i] len by simp
  have w4: "peer_write_u64 (?h @ le64 ?i @ ds @ es @ rest) 18 ?t =
      Some (?h @ le64 ?i @ le64 ?t @ es @ rest)"
    using peer_write_u64_append [of "ds @ es @ rest" "?h @ le64 ?i" ?t] len by simp
  have w5: "peer_write_u32 (?h @ le64 ?i @ le64 ?t @ es @ rest) 26 ?a =
      Some (?h @ le64 ?i @ le64 ?t @ le32 ?a @ rest)"
    using peer_write_u32_append [of "es @ rest" "?h @ le64 ?i @ le64 ?t" ?a] len by simp
  have actor: "(if actor = - 1 then - 1 else ?a) = ?a" by simp
  have w6: "(if int n > 0 then c_memcpy (?h @ le64 ?i @ le64 ?t @ le32 ?a @ rest) 30 data 0 (int n)
      else Some (?h @ le64 ?i @ le64 ?t @ le32 ?a @ rest)) =
      Some (?h @ le64 ?i @ le64 ?t @ le32 ?a @ take n data @ drop n rest)"
    using c_memcpy_append [of n data rest "?h @ le64 ?i @ le64 ?t @ le32 ?a"] room n dst len by auto
  have "drop 30 dst = rest" using dst len by simp
  then have "drop (30 + n) dst = drop n rest" by (metis add.commute drop_drop)
  moreover have "message_bytes mode index time actor (take n data) =
      ?h @ le64 ?i @ le64 ?t @ le32 ?a @ take n data"
    using n by (simp add: message_bytes_def Let_def sz_def hm_def)
  moreover have "c_assert nd (int n \<ge> 0 \<and> int n \<le> PEER_MAX_MESSAGE_SIZE) = Some ()"
    and "c_assert nd (actor \<ge> 0 \<or> actor = - 1) = Some ()" and "c_assert nd (actor \<le> 0xffffffff) = Some ()"
    using ok n by (auto simp: message_fits_def c_assert_def)
  moreover note ws = w0 w1 w2 w3 w4 w5 w6
  ultimately show ?thesis
    unfolding peer_write_message_def Let_def sz_def [symmetric]
    by (simp only: ws [unfolded append_assoc append_Cons append_Nil] actor Option.bind.simps
        append_assoc append_Cons append_Nil)
qed

subsection \<open>Reading a message back\<close>

lemma sint_word_of_int64: "is_int64 x \<Longrightarrow> sint (word_of_int x :: 64 word) = x"
  by (simp add: is_int64_def signed_of_int signed_take_bit_int_eq_self)

lemma read_bytes_size:
  assumes "length data < 994"
  shows "peer_read_message_size (ps @ message_bytes mode index time actor data @ rest) (int (length ps)) =
    Some (word_of_int (30 + int (length data)))"
proof -
  let ?n = "word_of_int (30 + int (length data)) :: 16 word"
  have "ucast (ucast ?n :: byte) OR
      push_bit 8 (ucast (ucast (drop_bit 8 ?n AND 0x3) OR push_bit 2 mode :: byte) AND 0x3) = ?n"
    using assms small_size_bits(2) [of "30 + int (length data)"]
    by (simp only: size_mode_byte_size size_take_bit_10)
  then show ?thesis
    using peer_read_message_size_append [of "le64 0" ps "ucast ?n"
        "ucast (drop_bit 8 ?n AND 0x3) OR push_bit 2 mode"
        "le64 (word_of_int index) @ le64 (word_of_int time) @ le32 (word_of_int actor) @ data @ rest"]
    by (simp only: message_bytes_def Let_def append_assoc append_Cons append_Nil le_length)
qed

lemma read_bytes_data_size:
  assumes "length data < 994"
  shows "peer_read_message_data_size nd (ps @ message_bytes mode index time actor data @ rest)
      (int (length ps)) = Some (int (length data))"
proof -
  have "uint (word_of_int (30 + int (length data)) :: 16 word) = 30 + int (length data)"
    using assms by (subst uint_word_of_int) (simp add: take_bit_int_eq_self)
  with assms show ?thesis
    by (simp add: peer_read_message_data_size_def read_bytes_size del: of_int_add)
qed

lemma read_bytes_mode:
  "peer_read_message_mode (ps @ message_bytes mode index time actor data @ rest) (int (length ps)) =
    Some (take_bit 6 mode)"
  using size_mode_byte_mode [of "drop_bit 8 (word_of_int (30 + int (length data)))" mode]
  by (simp add: peer_read_message_mode_def message_bytes_def Let_def c_load_append nth_append)

lemma read_bytes_index:
  assumes "is_int64 index"
  shows "peer_read_message_index (ps @ message_bytes mode index time actor data @ rest)
    (int (length ps)) = Some index"
proof -
  let ?n = "word_of_int (30 + int (length data)) :: 16 word"
  let ?pre = "ps @ le64 0 @ [ucast ?n, ucast (drop_bit 8 ?n AND 0x3) OR push_bit 2 mode]"
  have "peer_read_u64 (ps @ message_bytes mode index time actor data @ rest) (int (length ?pre)) =
      Some (word_of_int index)"
    using peer_read_u64_append [of ?pre "word_of_int index"]
    by (simp only: message_bytes_def Let_def append_assoc append_Cons append_Nil)
  moreover have "int (length ?pre) = int (length ps) + 10" by simp
  ultimately show ?thesis
    using assms by (simp only: peer_read_message_index_def Option.bind.simps sint_word_of_int64)
qed

lemma read_bytes_time:
  assumes "is_int64 time"
  shows "peer_read_message_time (ps @ message_bytes mode index time actor data @ rest)
    (int (length ps)) = Some time"
proof -
  let ?n = "word_of_int (30 + int (length data)) :: 16 word"
  let ?pre = "ps @ le64 0 @ [ucast ?n, ucast (drop_bit 8 ?n AND 0x3) OR push_bit 2 mode] @
    le64 (word_of_int index)"
  have "peer_read_u64 (ps @ message_bytes mode index time actor data @ rest) (int (length ?pre)) =
      Some (word_of_int time)"
    using peer_read_u64_append [of ?pre "word_of_int time"]
    by (simp only: message_bytes_def Let_def append_assoc append_Cons append_Nil)
  moreover have "int (length ?pre) = int (length ps) + 18" by simp
  ultimately show ?thesis
    using assms by (simp only: peer_read_message_time_def Option.bind.simps sint_word_of_int64)
qed

lemma read_bytes_actor:
  assumes "- 1 \<le> actor" and "actor < 0xffffffff"
  shows "peer_read_message_actor (ps @ message_bytes mode index time actor data @ rest)
    (int (length ps)) = Some actor"
proof -
  let ?n = "word_of_int (30 + int (length data)) :: 16 word"
  let ?pre = "ps @ le64 0 @ [ucast ?n, ucast (drop_bit 8 ?n AND 0x3) OR push_bit 2 mode] @
    le64 (word_of_int index) @ le64 (word_of_int time)"
  have "peer_read_u32 (ps @ message_bytes mode index time actor data @ rest) (int (length ?pre)) =
      Some (word_of_int actor)"
    using peer_read_u32_append [of ?pre "word_of_int actor"]
    by (simp only: message_bytes_def Let_def append_assoc append_Cons append_Nil)
  moreover have "int (length ?pre) = int (length ps) + 26" by simp
  ultimately have "peer_read_u32 (ps @ message_bytes mode index time actor data @ rest)
      (int (length ps) + 26) = Some (word_of_int actor)" by (simp only:)
  moreover have "uint (word_of_int actor :: 32 word) = actor" if "actor \<noteq> - 1"
    using assms that by (simp add: uint_word_of_int take_bit_int_eq_self)
  moreover have "word_of_int actor \<noteq> (- 1 :: 32 word)" if "actor \<noteq> - 1"
    using assms that by (simp add: word_uint_eq_iff uint_word_of_int take_bit_int_eq_self
        unsigned_minus_1_eq_mask mask_eq_exp_minus_1)
  ultimately show ?thesis
    by (cases "actor = - 1") (simp_all add: peer_read_message_actor_def)
qed

lemma message_bytes_data:
  "drop 30 (message_bytes mode index time actor data) = data"
  by (simp add: message_bytes_def Let_def le64_def le32_def)

lemmas read_bytes = read_bytes_size read_bytes_data_size read_bytes_mode read_bytes_index
  read_bytes_time read_bytes_actor

lemmas read_bytes_0 = read_bytes [where ps = "[]", unfolded append_Nil list.size(3) of_nat_0]

lemma read_bytes_actor_max:
  "peer_read_message_actor (message_bytes mode index time 0xffffffff data @ rest) 0 = Some PEER_UNDEFINED"
proof -
  have "(word_of_int 0xffffffff :: 32 word) = word_of_int (- 1)"
    by (simp add: word_uint_eq_iff unsigned_minus_1_eq_mask mask_eq_exp_minus_1)
  then have "message_bytes mode index time 0xffffffff data = message_bytes mode index time (- 1) data"
    by (simp only: message_bytes_def)
  then show ?thesis using read_bytes_0(6) [of "- 1" mode index time data rest] by simp
qed

lemma mode_six_bits:
  fixes mode :: byte
  assumes "mode AND 0xc0 = 0"
  shows "take_bit 6 mode = mode"
proof (rule bit_word_eqI)
  fix n assume n: "n < LENGTH(8)"
  have "\<not> bit (mode AND 0xc0) k" for k using assms by simp
  moreover have "bit (0xc0 :: byte) 6" "bit (0xc0 :: byte) 7" by simp_all
  ultimately have "\<not> bit mode 6" "\<not> bit mode 7" unfolding bit_and_iff by blast+
  moreover have "n < 6 \<or> n = 6 \<or> n = 7" using n by auto
  ultimately show "bit (take_bit 6 mode) n = bit mode n" by (auto simp: bit_take_bit_iff)
qed

subsection \<open>Properties\<close>

text \<open>C29. A message written by \<open>peer_write_message\<close> into a buffer with room for it, whatever the buffer
  held before, is read back by every accessor of the header: size, mode, index, time, actor and data;
  the bytes after it are untouched. The largest actor the assertions allow, \<open>0xffffffff\<close>, is read as
  \<open>PEER_UNDEFINED\<close>.\<close>

theorem message_roundtrip:
  assumes "message_fits mode actor data" and "is_int64 index" and "is_int64 time" and "30 + length data \<le> length dst"
  shows "\<exists>out. peer_write_message nd dst mode index time actor (int (length data)) data = Some out \<and>
    length out = length dst \<and> peer_read_message_checksum out 0 = Some 0 \<and>
    peer_read_message_data_size nd out 0 = Some (int (length data)) \<and> peer_read_message_mode out 0 = Some mode \<and>
    peer_read_message_index out 0 = Some index \<and> peer_read_message_time out 0 = Some time \<and>
    peer_read_message_actor out 0 = Some (if actor = 0xffffffff then PEER_UNDEFINED else actor) \<and>
    take (length data) (drop 30 out) = data \<and> drop (30 + length data) out = drop (30 + length data) dst"
proof -
  let ?out = "message_bytes mode index time actor data @ drop (30 + length data) dst"
  have len: "length data < 994" and actor: "- 1 \<le> actor" "actor \<le> 0xffffffff" and mode: "mode AND 0xc0 = 0"
    using assms(1) by (auto simp: message_fits_def)
  have "peer_write_message nd dst mode index time actor (int (length data)) data = Some ?out"
    using peer_write_message_eq [of nd mode actor "length data" data dst index time] assms(1,4) by simp
  moreover have "peer_read_message_checksum ?out 0 = Some 0"
    using u64.read_at [of "[]" 0] by (simp add: peer_read_message_checksum_def message_bytes_def Let_def)
  moreover have "take_bit 6 mode = mode" by (rule mode_six_bits [OF mode])
  moreover have "peer_read_message_actor ?out 0 = Some (if actor = 0xffffffff then PEER_UNDEFINED else actor)"
    using read_bytes_actor_max read_bytes_0(6) actor by simp
  moreover have "take (length data) (drop 30 ?out) = data"
    using message_bytes_data [of mode index time actor data] by simp
  ultimately show ?thesis
    using read_bytes_0(2-5) assms(2-4) len by (intro exI [of _ ?out]) simp
qed

theorem message_roundtrip_witness:
  "\<exists>out. peer_write_message False (replicate 40 0xab) 1 (- 5) 77 0xffffffff (int (length [1, 2, 3 :: byte])) [1, 2, 3] = Some out \<and>
    length out = length (replicate 40 (0xab :: byte)) \<and> peer_read_message_checksum out 0 = Some 0 \<and>
    peer_read_message_data_size False out 0 = Some (int (length [1, 2, 3 :: byte])) \<and>
    peer_read_message_mode out 0 = Some 1 \<and>
    peer_read_message_index out 0 = Some (- 5) \<and> peer_read_message_time out 0 = Some 77 \<and>
    peer_read_message_actor out 0 = Some (if (0xffffffff :: int) = 0xffffffff then PEER_UNDEFINED else 0xffffffff) \<and>
    take (length [1, 2, 3 :: byte]) (drop 30 out) = [1, 2, 3] \<and>
    drop (30 + length [1, 2, 3 :: byte]) out = drop (30 + length [1, 2, 3 :: byte]) (replicate 40 0xab)"
  by (rule message_roundtrip) (simp_all add: message_fits_def is_int64_def)

text \<open>The integer writers and readers agree: a value of 8, 16, 32 or 64 bits written anywhere inside a
  buffer is read back at that place, and no other byte of the buffer changes.\<close>

theorem integer_roundtrip:
  assumes "p + 8 \<le> length buf"
  shows "(\<exists>buf'. peer_write_u8 buf (int p) x8 = Some buf' \<and> peer_read_u8 buf' (int p) = Some x8 \<and>
      length buf' = length buf \<and> (\<forall>i < length buf. i < p \<or> p + 1 \<le> i \<longrightarrow> buf' ! i = buf ! i)) \<and>
    (\<exists>buf'. peer_write_u16 buf (int p) x16 = Some buf' \<and> peer_read_u16 buf' (int p) = Some x16 \<and>
      length buf' = length buf \<and> (\<forall>i < length buf. i < p \<or> p + 2 \<le> i \<longrightarrow> buf' ! i = buf ! i)) \<and>
    (\<exists>buf'. peer_write_u32 buf (int p) x32 = Some buf' \<and> peer_read_u32 buf' (int p) = Some x32 \<and>
      length buf' = length buf \<and> (\<forall>i < length buf. i < p \<or> p + 4 \<le> i \<longrightarrow> buf' ! i = buf ! i)) \<and>
    (\<exists>buf'. peer_write_u64 buf (int p) x64 = Some buf' \<and> peer_read_u64 buf' (int p) = Some x64 \<and>
      length buf' = length buf \<and> (\<forall>i < length buf. i < p \<or> p + 8 \<le> i \<longrightarrow> buf' ! i = buf ! i))"
  using assms by (intro conjI u8.write_read u16.write_read u32.write_read u64.write_read) simp_all

theorem integer_roundtrip_witness:
  "\<exists>buf'. peer_write_u32 (replicate 12 7) (int 3) 0xdeadbeef = Some buf' \<and> peer_read_u32 buf' (int 3) = Some 0xdeadbeef \<and>
    length buf' = length (replicate 12 (7 :: byte)) \<and>
    (\<forall>i < length (replicate 12 (7 :: byte)). i < 3 \<or> 3 + 4 \<le> i \<longrightarrow> buf' ! i = replicate 12 7 ! i)"
  using integer_roundtrip [of 3 "replicate 12 7" 0 0 "0xdeadbeef" 0] by simp

end
