(* ===== verification/Peer_Packet.thy ===== *)
theory Peer_Packet
  imports Peer_Serial
begin

text \<open>
  Packets: \<open>source/peer/packet.h\<close> and \<open>source/peer/packet.c\<close>. \<open>peer_pack\<close> puts message chunks
  into packets of at most \<open>PEER_PACKET_SIZE\<close> bytes, greedily and in order; \<open>peer_unpack\<close>
  takes them out again. The arrays of the source are lists, and the loops are recursive functions
  over them; a \<open>return\<close> in the middle of \<open>peer_pack\<close>'s loop is the left side of a sum.

  The theorems: packing then unpacking returns the same chunks; the shape of the packets packing
  produces; unpacking reads nothing outside the packet, whatever the bytes are; and the packets the
  assertions of a debug build reject.
\<close>

subsection \<open>Data\<close>

record peer_packet_t =
  source_id :: ptrdiff_t
  destination_id :: ptrdiff_t
  packet_size :: ptrdiff_t
  packet_data :: "byte list"

record peer_chunk_ref_t =
  ref_size :: ptrdiff_t
  ref_values :: "byte list option"

type_synonym peer_packets_t = "peer_packet_t list"
type_synonym peer_chunk_t = "byte list"
type_synonym peer_chunks_t = "peer_chunk_t list"
type_synonym peer_chunks_ref_t = "peer_chunk_ref_t list"

definition zero_packet :: peer_packet_t where
  "zero_packet = \<lparr>source_id = 0, destination_id = 0, packet_size = 0,
     packet_data = replicate (nat PEER_PACKET_SIZE) 0\<rparr>"

text \<open>Packet \<open>k\<close> of an array in memory with contents \<open>f\<close>: three 8-byte fields and the data.\<close>

definition junk_packet :: "(nat \<Rightarrow> byte) \<Rightarrow> nat \<Rightarrow> peer_packet_t" where
  "junk_packet f k =
     (let m = map f [424 * k..<424 * k + 424];
          field = (\<lambda>p. case peer_read_u64 m p of Some x \<Rightarrow> sint x | None \<Rightarrow> 0)
      in \<lparr>source_id = field 0, destination_id = field 8, packet_size = field 16,
          packet_data = drop 24 m\<rparr>)"

subsection \<open>Packing\<close>

text \<open>Write the header of the last packet (packet.c:27-38 and 102-112).\<close>

definition pack_header :: "bool \<Rightarrow> ptrdiff_t \<Rightarrow> peer_packets_t \<Rightarrow> peer_packets_t option" where
  "pack_header nd offset out_packets = do {
     c_assert nd (offset < 65536);
     c_assert nd (offset < PEER_PACKET_SIZE - PEER_N_PACKET_MESSAGES);
     let m = int (length out_packets) - 1;
     packet \<leftarrow> c_load out_packets m;
     d0 \<leftarrow> peer_write_u8 (packet_data packet) PEER_N_PACKET_MODE PEER_PACKET_MODE_PLAIN;
     d1 \<leftarrow> peer_write_u16 d0 PEER_N_PACKET_SIZE (word_of_int offset);
     c_store out_packets m (packet\<lparr>packet_size := offset, packet_data := d1\<rparr>)
   }"

type_synonym pack_state = "ptrdiff_t \<times> peer_packets_t \<times> kit_allocator_t"
type_synonym pack_return = "kit_status_t \<times> peer_packets_t \<times> kit_allocator_t"

text \<open>Close the current packet and add a new one (packet.c:23-53).\<close>

definition pack_new_packet ::
  "bool \<Rightarrow> ptrdiff_t \<Rightarrow> ptrdiff_t \<Rightarrow> nat \<Rightarrow> pack_state \<Rightarrow> (pack_return + pack_state) option" where
  "pack_new_packet nd src dst previous_size = (\<lambda>(offset, out_packets, al). do {
     ps \<leftarrow> (if length out_packets > previous_size then pack_header nd offset out_packets
            else Some out_packets);
     let n = length ps;
     let (ps', al') = da_resize (\<lambda>_ _. zero_packet) (n + 1) ps al;
     if length ps' \<noteq> n + 1 then Some (Inl (PEER_ERROR_BAD_ALLOC, ps', al'))
     else do {
       ps'' \<leftarrow> c_store ps' (int n) (zero_packet\<lparr>source_id := src, destination_id := dst\<rparr>);
       Some (Inr (PEER_N_PACKET_MESSAGES, ps'', al'))
     }
   })"

text \<open>One iteration of the loop of \<open>peer_pack\<close>.\<close>

definition pack_chunk ::
  "bool \<Rightarrow> ptrdiff_t \<Rightarrow> ptrdiff_t \<Rightarrow> nat \<Rightarrow> peer_chunk_ref_t \<Rightarrow> pack_state \<Rightarrow>
   (pack_return + pack_state) option" where
  "pack_chunk nd src dst previous_size chunk = (\<lambda>(offset, out_packets, al). do {
     r \<leftarrow> (if offset + ref_size chunk > PEER_PACKET_SIZE
           then pack_new_packet nd src dst previous_size (offset, out_packets, al)
           else Some (Inr (offset, out_packets, al)));
     case r of
       Inl ret \<Rightarrow> Some (Inl ret)
     | Inr (offset, ps, al) \<Rightarrow> do {
         v \<leftarrow> ref_values chunk;
         chunk_size \<leftarrow> peer_read_message_size v 0;
         c_assert nd (ref_size chunk = uint chunk_size);
         if ref_size chunk \<noteq> uint chunk_size
         then Some (Inl (PEER_ERROR_INVALID_MESSAGE_SIZE, ps, al))
         else do {
           c_assert nd (length ps > 0);
           c_assert nd (ref_size chunk + PEER_N_PACKET_MESSAGES < PEER_PACKET_SIZE);
           let m = int (length ps) - 1;
           packet \<leftarrow> c_load ps m;
           d \<leftarrow> c_memcpy (packet_data packet) offset v 0 (ref_size chunk);
           ps' \<leftarrow> c_store ps m (packet\<lparr>packet_data := d\<rparr>);
           Some (Inr (offset + ref_size chunk, ps', al))
         }
       }
   })"

fun pack_loop ::
  "bool \<Rightarrow> ptrdiff_t \<Rightarrow> ptrdiff_t \<Rightarrow> nat \<Rightarrow> peer_chunks_ref_t \<Rightarrow> pack_state \<Rightarrow>
   (pack_return + pack_state) option" where
  "pack_loop nd src dst previous_size [] st = Some (Inr st)"
| "pack_loop nd src dst previous_size (chunk # chunks) st = do {
     r \<leftarrow> pack_chunk nd src dst previous_size chunk st;
     case r of
       Inl ret \<Rightarrow> Some (Inl ret)
     | Inr st' \<Rightarrow> pack_loop nd src dst previous_size chunks st'
   }"

definition peer_pack ::
  "bool \<Rightarrow> ptrdiff_t \<Rightarrow> ptrdiff_t \<Rightarrow> peer_chunks_ref_t \<Rightarrow> peer_packets_t \<Rightarrow> kit_allocator_t \<Rightarrow>
   pack_return option" where
  "peer_pack nd src dst chunks out_packets al = do {
     c_assert nd (src \<noteq> dst);
     let previous_size = length out_packets;
     r \<leftarrow> pack_loop nd src dst previous_size chunks (PEER_PACKET_SIZE, out_packets, al);
     case r of
       Inl ret \<Rightarrow> Some ret
     | Inr (offset, ps, al) \<Rightarrow>
         (if length ps = previous_size
          then (let (ps', al') = da_resize junk_packet (previous_size + 1) ps al in
            if length ps' \<noteq> previous_size + 1 then Some (PEER_ERROR_BAD_ALLOC, ps', al')
            else do {
              ps'' \<leftarrow> c_store ps' 0 (zero_packet\<lparr>source_id := src, destination_id := dst\<rparr>);
              c_assert nd (length ps'' > 0);
              ps''' \<leftarrow> pack_header nd 0 ps'';
              Some (KIT_OK, ps''', al')
            })
          else do {
            c_assert nd (length ps > 0);
            ps' \<leftarrow> pack_header nd offset ps;
            Some (KIT_OK, ps', al)
          })
   }"

subsection \<open>Unpacking\<close>

text \<open>The inner loop of \<open>peer_unpack\<close> over the messages of one packet (packet.c:144-176).\<close>

function unpack_messages ::
  "peer_packet_t \<Rightarrow> ptrdiff_t \<Rightarrow> kit_status_t \<Rightarrow> peer_chunks_t \<Rightarrow> kit_allocator_t \<Rightarrow>
   (kit_status_t \<times> peer_chunks_t \<times> kit_allocator_t) option" where
  "unpack_messages packet offset status out_chunks al =
     (if offset + PEER_N_MESSAGE_DATA \<le> packet_size packet then do {
        s \<leftarrow> peer_read_message_size (packet_data packet) offset;
        if uint s = 0 then Some (status, out_chunks, al)
        else if uint s < 0 \<or> offset + uint s > PEER_PACKET_SIZE
        then Some (status OR PEER_ERROR_INVALID_MESSAGE_SIZE, out_chunks, al)
        else (case da_resize (\<lambda>_ _. []) (length out_chunks + 1) out_chunks al of (chunks1, al1) \<Rightarrow>
          if length chunks1 \<noteq> length out_chunks + 1
          then Some (status OR PEER_ERROR_BAD_ALLOC, chunks1, al1)
          else do {
            (values, al2) \<leftarrow> da_init_bytes (uint s) al1;
            chunks2 \<leftarrow> c_store chunks1 (int (length out_chunks)) values;
            if int (length values) \<noteq> uint s
            then Some (status OR PEER_ERROR_BAD_ALLOC, chunks2, al2)
            else do {
              values' \<leftarrow> c_memcpy values 0 (packet_data packet) offset (uint s);
              chunks3 \<leftarrow> c_store chunks2 (int (length out_chunks)) values';
              unpack_messages packet (offset + uint s) status chunks3 al2
            }
          })
      } else Some (status, out_chunks, al))"
  by pat_completeness auto
termination
proof (relation "measure (\<lambda>(packet, offset, status, out_chunks, al). nat (packet_size packet - offset))",
    goal_cases)
  case 1
  show ?case by simp
next
  case (2 packet offset status out_chunks al a)
  then have "0 < uint a" by linarith
  with 2(1) show ?case by simp
qed

declare unpack_messages.simps [simp del]

definition unpack_packet ::
  "bool \<Rightarrow> peer_packet_t \<Rightarrow> kit_status_t \<times> peer_chunks_t \<times> kit_allocator_t \<Rightarrow>
   (kit_status_t \<times> peer_chunks_t \<times> kit_allocator_t) option" where
  "unpack_packet nd packet = (\<lambda>(status, out_chunks, al).
     if packet_size packet = 0 then Some (status, out_chunks, al)
     else do {
       let offset = PEER_N_PACKET_MESSAGES;
       c_assert nd (packet_size packet \<ge> offset \<and> packet_size packet \<le> PEER_PACKET_SIZE);
       if packet_size packet < offset \<or> packet_size packet > PEER_PACKET_SIZE
       then Some (status OR PEER_ERROR_INVALID_PACKET_SIZE, out_chunks, al)
       else unpack_messages packet offset status out_chunks al
     })"

fun unpack_packets ::
  "bool \<Rightarrow> peer_packets_t \<Rightarrow> kit_status_t \<times> peer_chunks_t \<times> kit_allocator_t \<Rightarrow>
   (kit_status_t \<times> peer_chunks_t \<times> kit_allocator_t) option" where
  "unpack_packets nd [] st = Some st"
| "unpack_packets nd (packet # packets) st = do {
     st' \<leftarrow> unpack_packet nd packet st;
     unpack_packets nd packets st'
   }"

definition peer_unpack ::
  "bool \<Rightarrow> peer_packets_t \<Rightarrow> peer_chunks_t \<Rightarrow> kit_allocator_t \<Rightarrow>
   (kit_status_t \<times> peer_chunks_t \<times> kit_allocator_t) option" where
  "peer_unpack nd packets out_chunks al = unpack_packets nd packets (KIT_OK, out_chunks, al)"

subsection \<open>What packing does, on lists of chunks\<close>

text \<open>A reference to the whole of a chunk, as \<open>chunks_wrap\<close> makes it.\<close>

definition chunk_ref :: "peer_chunk_t \<Rightarrow> peer_chunk_ref_t" where
  "chunk_ref c = \<lparr>ref_size = int (length c), ref_values = Some c\<rparr>"

text \<open>A chunk whose size field says its length, and which one packet can hold.\<close>

definition chunk_wf :: "peer_chunk_t \<Rightarrow> bool" where
  "chunk_wf c \<longleftrightarrow> 30 \<le> length c \<and> length c \<le> 385 \<and>
     peer_read_message_size c 0 = Some (word_of_int (int (length c)))"

text \<open>The greedy grouping: \<open>g\<close> is the open packet, \<open>gs\<close> the closed ones.\<close>

fun pack_greedy ::
  "peer_chunks_t list \<Rightarrow> peer_chunks_t \<Rightarrow> peer_chunks_t \<Rightarrow> peer_chunks_t list \<times> peer_chunks_t" where
  "pack_greedy gs g [] = (gs, g)"
| "pack_greedy gs g (c # cs) =
     (if 15 + length (concat g) + length c > 400 then pack_greedy (gs @ [g]) [c] cs
      else pack_greedy gs (g @ [c]) cs)"

definition pack_groups :: "peer_chunks_t \<Rightarrow> peer_chunks_t list" where
  "pack_groups cs =
     (case cs of [] \<Rightarrow> [] | c # cs' \<Rightarrow> (case pack_greedy [] [c] cs' of (gs, g) \<Rightarrow> gs @ [g]))"

text \<open>A packet being filled, and one with its header written.\<close>

definition open_packet :: "ptrdiff_t \<Rightarrow> ptrdiff_t \<Rightarrow> byte list \<Rightarrow> peer_packet_t" where
  "open_packet src dst body = \<lparr>source_id = src, destination_id = dst, packet_size = 0,
     packet_data = replicate 15 0 @ body @ replicate (385 - length body) 0\<rparr>"

definition closed_packet :: "ptrdiff_t \<Rightarrow> ptrdiff_t \<Rightarrow> byte list \<Rightarrow> peer_packet_t" where
  "closed_packet src dst body = \<lparr>source_id = src, destination_id = dst,
     packet_size = 15 + int (length body),
     packet_data = replicate 12 0 @ PEER_PACKET_MODE_PLAIN #
       le16 (word_of_int (15 + int (length body))) @ body @ replicate (385 - length body) 0\<rparr>"

subsection \<open>Packing: lemmas\<close>

lemma chunk_wf_length: "chunk_wf c \<Longrightarrow> 30 \<le> length c" "chunk_wf c \<Longrightarrow> length c \<le> 385"
  by (simp_all add: chunk_wf_def)

lemma chunk_wf_size: "chunk_wf c \<Longrightarrow>
    \<exists>s. peer_read_message_size c 0 = Some s \<and> uint s = int (length c)"
  by (simp add: chunk_wf_def unsigned_of_nat take_bit_nat_eq_self)

lemma pack_header_open:
  assumes "length body \<le> 385" and "nd \<or> 15 + length body < 385"
  shows "pack_header nd (15 + int (length body)) (ps @ [open_packet src dst body]) =
    Some (ps @ [closed_packet src dst body])"
proof -
  let ?z = "replicate (385 - length body) (0 :: byte)"
  have u8: "peer_write_u8 (replicate 15 0 @ body @ ?z) 12 0 = Some (replicate 15 0 @ body @ ?z)"
    by (simp add: peer_write_u8_def c_store_def list_update_append numeral_eq_Suc)
  have split: "replicate 15 0 @ body @ ?z = replicate 13 0 @ [0, 0] @ body @ ?z"
    by (simp add: numeral_eq_Suc)
  have u16: "peer_write_u16 (replicate 15 0 @ body @ ?z) 13 x =
      Some (replicate 13 0 @ le16 x @ body @ ?z)" for x
    using peer_write_u16_append [of "[0, 0] @ body @ ?z" "replicate 13 0" x]
    unfolding split by simp
  have "replicate 13 (0 :: byte) = replicate 12 0 @ [0]" by (simp add: numeral_eq_Suc)
  then show ?thesis
    using assms u8 u16
    by (simp add: pack_header_def open_packet_def closed_packet_def c_assert_holds)
qed

lemma pack_new_packet_open:
  assumes "length body \<le> 385" and "nd \<or> 15 + length body < 385" and "alloc_ok al"
    and "prev \<le> length ps"
  shows "\<exists>al'. alloc_ok al' \<and>
    pack_new_packet nd src dst prev (15 + int (length body), ps @ [open_packet src dst body], al) =
      Some (Inr (15, ps @ [closed_packet src dst body, open_packet src dst []], al'))"
proof -
  obtain f al' where "da_resize (\<lambda>_ _. zero_packet) (length ps + 2) (ps @ [closed_packet src dst body]) al
      = (ps @ [closed_packet src dst body, zero_packet], al')" and "alloc_ok al'"
    using da_resize_ok [OF assms(3), of "ps @ [closed_packet src dst body]" "length ps + 2"
        "\<lambda>_ _. zero_packet"] by auto
  moreover have "c_store (ps @ [closed_packet src dst body, zero_packet]) (1 + int (length ps)) p =
      Some (ps @ [closed_packet src dst body, p])" for p
    using c_store_last [of "ps @ [closed_packet src dst body]" zero_packet p] by (simp add: add.commute)
  moreover have "zero_packet\<lparr>source_id := src, destination_id := dst\<rparr> = open_packet src dst []"
    by (simp add: zero_packet_def open_packet_def flip: replicate_add)
  ultimately show ?thesis
    using assms by (simp add: pack_new_packet_def pack_header_open)
qed

lemma pack_new_packet_first:
  assumes "alloc_ok al"
  shows "\<exists>al'. alloc_ok al' \<and>
    pack_new_packet nd src dst (length ps) (offset, ps, al) =
      Some (Inr (15, ps @ [open_packet src dst []], al'))"
proof -
  obtain f al' where "da_resize (\<lambda>_ _. zero_packet) (length ps + 1) ps al = (ps @ [zero_packet], al')"
    and "alloc_ok al'"
    using da_resize_ok [OF assms, of ps "length ps + 1" "\<lambda>_ _. zero_packet"] by auto
  moreover have "zero_packet\<lparr>source_id := src, destination_id := dst\<rparr> = open_packet src dst []"
    by (simp add: zero_packet_def open_packet_def flip: replicate_add)
  ultimately show ?thesis
    by (simp add: pack_new_packet_def)
qed

text \<open>Copying a chunk that fits into the open packet.\<close>

lemma open_packet_memcpy:
  assumes "length body + length c \<le> 385"
  shows "c_memcpy (packet_data (open_packet src dst body)) (15 + int (length body)) c 0 (int (length c)) =
    Some (packet_data (open_packet src dst (body @ c)))"
  using assms c_memcpy_append [of "length c" c "replicate (385 - length body) 0"
      "replicate 15 0 @ body"]
  by (simp add: open_packet_def)

lemma pack_chunk_body:
  assumes "chunk_wf c" and "length body + length c \<le> 385" and "nd \<or> length c < 385"
  shows "pack_chunk nd src dst prev (chunk_ref c) (15 + int (length body), ps @ [open_packet src dst body], al) =
    Some (Inr (15 + int (length (body @ c)), ps @ [open_packet src dst (body @ c)], al))"
proof -
  obtain s where "peer_read_message_size c 0 = Some s" and "uint s = int (length c)"
    using chunk_wf_size [OF assms(1)] by blast
  then show ?thesis
    using assms(2,3)
    by (simp add: pack_chunk_def chunk_ref_def open_packet_memcpy c_assert_holds)
      (simp add: open_packet_def)
qed

text \<open>When the chunk does not fit, the iteration is that of the new, empty packet.\<close>

lemma pack_chunk_new:
  assumes "offset + int (length c) > 400" and "length c \<le> 385"
    and "pack_new_packet nd src dst prev (offset, ps, al) = Some (Inr (15, ps', al'))"
  shows "pack_chunk nd src dst prev (chunk_ref c) (offset, ps, al) =
    pack_chunk nd src dst prev (chunk_ref c) (15, ps', al')"
  using assms by (simp add: pack_chunk_def chunk_ref_def)

lemma pack_chunk_step:
  assumes "chunk_wf c" and "length (concat g) \<le> 385" and "alloc_ok al" and "prev \<le> length ps"
    and "nd \<or> 15 + length (concat g) < 385" and "nd \<or> length c < 385"
  shows "\<exists>al'. alloc_ok al' \<and>
    pack_chunk nd src dst prev (chunk_ref c)
      (15 + int (length (concat g)), ps @ [open_packet src dst (concat g)], al) =
    Some (Inr (if 15 + length (concat g) + length c > 400
      then (15 + int (length c),
        ps @ [closed_packet src dst (concat g), open_packet src dst c], al')
      else (15 + int (length (concat (g @ [c]))), ps @ [open_packet src dst (concat (g @ [c]))], al')))"
proof (cases "15 + length (concat g) + length c > 400")
  case False
  then show ?thesis
    using assms pack_chunk_body [of c "concat g" nd src dst prev ps al] by auto
next
  case True
  obtain al' where al': "alloc_ok al'" and new:
    "pack_new_packet nd src dst prev (15 + int (length (concat g)), ps @ [open_packet src dst (concat g)], al)
      = Some (Inr (15, (ps @ [closed_packet src dst (concat g)]) @ [open_packet src dst []], al'))"
    using pack_new_packet_open [of "concat g" nd al prev ps src dst] assms by auto
  have "15 + int (length (concat g)) + int (length c) > 400" using True by linarith
  then have "pack_chunk nd src dst prev (chunk_ref c)
      (15 + int (length (concat g)), ps @ [open_packet src dst (concat g)], al) =
      pack_chunk nd src dst prev (chunk_ref c)
        (15, (ps @ [closed_packet src dst (concat g)]) @ [open_packet src dst []], al')"
    using assms(1) new by (intro pack_chunk_new) (auto simp: chunk_wf_length)
  also have "\<dots> = Some (Inr (15 + int (length c),
      (ps @ [closed_packet src dst (concat g)]) @ [open_packet src dst c], al'))"
    using pack_chunk_body [of c "[]" nd src dst prev "ps @ [closed_packet src dst (concat g)]" al'] assms
    by (simp add: chunk_wf_length)
  finally show ?thesis using True al' by auto
qed

text \<open>The greedy grouping keeps the chunks and their order, and fills no packet past its size.\<close>

lemma pack_greedy_concat:
  "pack_greedy gs g cs = (gs', g') \<Longrightarrow> concat (gs' @ [g']) = concat gs @ g @ cs"
  by (induction gs g cs rule: pack_greedy.induct) (auto split: if_splits)

lemma pack_greedy_bound:
  assumes "pack_greedy gs g cs = (gs', g')" and "\<forall>c \<in> set cs. length c \<le> 385"
    and "\<forall>h \<in> set (gs @ [g]). length (concat h) \<le> 385"
  shows "\<forall>h \<in> set (gs' @ [g']). length (concat h) \<le> 385"
  using assms by (induction gs g cs rule: pack_greedy.induct) (auto split: if_splits)

lemma pack_greedy_nonempty:
  assumes "pack_greedy gs g cs = (gs', g')" and "[] \<notin> set (gs @ [g])"
  shows "[] \<notin> set (gs' @ [g'])"
  using assms by (induction gs g cs rule: pack_greedy.induct) (auto split: if_splits)

lemma pack_greedy_extends:
  assumes "pack_greedy gs g cs = (gs', g')"
  shows "\<exists>h \<in> set (gs' @ [g']). length (concat g) \<le> length (concat h)"
proof -
  have "set gs \<subseteq> set gs' \<and> (\<exists>h \<in> set (gs' @ [g']). length (concat g) \<le> length (concat h))"
    using assms
    by (induction gs g cs rule: pack_greedy.induct) (fastforce split: if_splits)+
  then show ?thesis ..
qed

lemma pack_greedy_chunk_le:
  assumes "pack_greedy gs g cs = (gs', g')" and "c \<in> set cs"
  shows "\<exists>h \<in> set (gs' @ [g']). length c \<le> length (concat h)"
proof -
  have "c \<in> set (concat (gs' @ [g']))" using pack_greedy_concat [OF assms(1)] assms(2) by simp
  then obtain h where "h \<in> set (gs' @ [g'])" and "c \<in> set h" by auto
  then show ?thesis by (auto dest!: split_list)
qed

text \<open>The packets a debug build's assertions let pass.\<close>

definition assertable :: "bool \<Rightarrow> peer_chunks_t list \<Rightarrow> bool" where
  "assertable nd gs \<longleftrightarrow> nd \<or> (\<forall>g \<in> set gs. 15 + length (concat g) < 385)"

lemma pack_loop_greedy:
  assumes "pack_greedy gs g cs = (gs', g')" and "\<forall>c \<in> set cs. chunk_wf c"
    and "length (concat g) \<le> 385" and "alloc_ok al" and "assertable nd (gs' @ [g'])"
  shows "\<exists>al'. alloc_ok al' \<and>
    pack_loop nd src dst (length out) (map chunk_ref cs)
      (15 + int (length (concat g)),
       out @ map (\<lambda>h. closed_packet src dst (concat h)) gs @ [open_packet src dst (concat g)], al) =
    Some (Inr (15 + int (length (concat g')),
       out @ map (\<lambda>h. closed_packet src dst (concat h)) gs' @ [open_packet src dst (concat g')], al'))"
  using assms
proof (induction cs arbitrary: gs g al)
  case Nil
  then show ?case by auto
next
  case (Cons c cs)
  let ?ps = "out @ map (\<lambda>h. closed_packet src dst (concat h)) gs"
  have g_ok: "nd \<or> 15 + length (concat g) < 385"
    using Cons.prems(5) pack_greedy_extends [OF Cons.prems(1)]
    by (fastforce simp: assertable_def)
  have c_ok: "nd \<or> length c < 385"
    using Cons.prems(5) pack_greedy_chunk_le [OF Cons.prems(1), of c]
    by (fastforce simp: assertable_def)
  obtain al1 where al1: "alloc_ok al1" and step: "pack_chunk nd src dst (length out) (chunk_ref c)
      (15 + int (length (concat g)), ?ps @ [open_packet src dst (concat g)], al) =
    Some (Inr (if 15 + length (concat g) + length c > 400
      then (15 + int (length c),
        ?ps @ [closed_packet src dst (concat g), open_packet src dst c], al1)
      else (15 + int (length (concat (g @ [c]))), ?ps @ [open_packet src dst (concat (g @ [c]))], al1)))"
    using pack_chunk_step [of c g al "length out" ?ps nd src dst] Cons.prems g_ok c_ok by auto
  show ?case
  proof (cases "15 + length (concat g) + length c > 400")
    case True
    with Cons.prems(1) have "pack_greedy (gs @ [g]) [c] cs = (gs', g')" by simp
    then show ?thesis
      using Cons.IH [of "gs @ [g]" "[c]" al1] Cons.prems al1 step True by (simp add: chunk_wf_length)
  next
    case False
    with Cons.prems(1) have "pack_greedy gs (g @ [c]) cs = (gs', g')" by simp
    then show ?thesis
      using Cons.IH [of gs "g @ [c]" al1] Cons.prems al1 step False by simp
  qed
qed

lemma peer_pack_groups:
  assumes "\<forall>c \<in> set cs. chunk_wf c" and "cs \<noteq> []" and "alloc_ok al"
    and "assertable nd (pack_groups cs)" and "nd \<or> src \<noteq> dst"
  shows "\<exists>al'. alloc_ok al' \<and> peer_pack nd src dst (map chunk_ref cs) out al =
    Some (KIT_OK, out @ map (\<lambda>g. closed_packet src dst (concat g)) (pack_groups cs), al')"
proof -
  obtain c cs' where cs: "cs = c # cs'" using assms(2) by (cases cs) auto
  obtain gs g where greedy: "pack_greedy [] [c] cs' = (gs, g)" by (cases "pack_greedy [] [c] cs'")
  have groups: "pack_groups cs = gs @ [g]" by (simp add: pack_groups_def cs greedy)
  have c: "chunk_wf c" using assms(1) cs by simp
  have all_ok: "assertable nd (gs @ [g])" using assms(4) by (simp only: groups)
  obtain al1 where al1: "alloc_ok al1" and new: "pack_new_packet nd src dst (length out) (400, out, al) =
      Some (Inr (15, out @ [open_packet src dst []], al1))"
    using pack_new_packet_first [OF assms(3)] by blast
  have c_ok: "nd \<or> length c < 385"
    using all_ok pack_greedy_extends [OF greedy] by (fastforce simp: assertable_def)
  have "pack_chunk nd src dst (length out) (chunk_ref c) (400, out, al) =
      Some (Inr (15 + int (length c), out @ [open_packet src dst c], al1))"
    using pack_chunk_new [OF _ _ new, of c] pack_chunk_body [of c "[]" nd src dst "length out" out al1]
      c c_ok chunk_wf_length [OF c] by fastforce
  moreover obtain al2 where al2: "alloc_ok al2" and "pack_loop nd src dst (length out) (map chunk_ref cs')
      (15 + int (length c), out @ [open_packet src dst c], al1) =
    Some (Inr (15 + int (length (concat g)),
       out @ map (\<lambda>h. closed_packet src dst (concat h)) gs @ [open_packet src dst (concat g)], al2))"
    using pack_loop_greedy [OF greedy, of al1 nd src dst out] assms(1) c al1 all_ok
    by (auto simp: cs chunk_wf_length)
  moreover have "pack_header nd (15 + int (length (concat g)))
      ((out @ map (\<lambda>h. closed_packet src dst (concat h)) gs) @ [open_packet src dst (concat g)]) =
      Some ((out @ map (\<lambda>h. closed_packet src dst (concat h)) gs) @ [closed_packet src dst (concat g)])"
  proof (rule pack_header_open)
    show "length (concat g) \<le> 385"
      using pack_greedy_bound [OF greedy] assms(1) by (simp add: cs chunk_wf_length)
    show "nd \<or> 15 + length (concat g) < 385" using all_ok by (auto simp: assertable_def)
  qed
  ultimately show ?thesis
    using assms(5) al2 by (simp add: peer_pack_def cs groups [unfolded cs] c_assert_holds)
qed

lemma pack_groups_concat: "concat (pack_groups cs) = cs"
  using pack_greedy_concat [of "[]"]
  by (cases cs) (auto simp: pack_groups_def split: prod.splits)

lemma pack_groups_bound:
  assumes "\<forall>c \<in> set cs. chunk_wf c" and "g \<in> set (pack_groups cs)"
  shows "length (concat g) \<le> 385"
proof (cases cs)
  case (Cons c cs')
  obtain gs h where greedy: "pack_greedy [] [c] cs' = (gs, h)" by (cases "pack_greedy [] [c] cs'")
  have "\<forall>g \<in> set (gs @ [h]). length (concat g) \<le> 385"
    using assms(1) by (intro pack_greedy_bound [OF greedy]) (auto simp: Cons chunk_wf_length)
  with assms(2) show ?thesis by (auto simp: pack_groups_def Cons greedy)
qed (use assms(2) in \<open>simp add: pack_groups_def\<close>)

lemma pack_groups_nonempty:
  assumes "cs \<noteq> []" shows "pack_groups cs \<noteq> []" and "[] \<notin> set (pack_groups cs)"
proof -
  obtain c cs' where cs: "cs = c # cs'" using assms by (cases cs) auto
  obtain gs h where greedy: "pack_greedy [] [c] cs' = (gs, h)" by (cases "pack_greedy [] [c] cs'")
  show "pack_groups cs \<noteq> []" by (simp add: pack_groups_def cs greedy)
  show "[] \<notin> set (pack_groups cs)"
    using pack_greedy_nonempty [OF greedy] by (simp add: pack_groups_def cs greedy)
qed

subsection \<open>Unpacking: lemmas\<close>

lemma peer_read_message_size_inside:
  assumes "10 \<le> length c"
  shows "peer_read_message_size (pre @ c @ rest) (int (length pre)) = peer_read_message_size c 0"
proof -
  have "c_load (pre @ c @ rest) (int (length pre) + 8) = c_load c 8"
    and "c_load (pre @ c @ rest) (int (length pre) + 9) = c_load c 9"
    using assms by (simp_all add: c_load_def nat_add_distrib nth_append)
  then show ?thesis by (simp add: peer_read_message_size_def)
qed

text \<open>One message taken out of a packet.\<close>

lemma unpack_messages_step:
  assumes "packet_data packet = pre @ c @ rest" and "chunk_wf c" and "alloc_ok al"
    and "int (length pre) + int (length c) \<le> packet_size packet" and "packet_size packet \<le> 400"
  shows "\<exists>al'. alloc_ok al' \<and> unpack_messages packet (int (length pre)) status out al =
    unpack_messages packet (int (length (pre @ c))) status (out @ [c]) al'"
proof -
  obtain s where s: "peer_read_message_size (packet_data packet) (int (length pre)) = Some s"
    and us: "uint s = int (length c)"
    using chunk_wf_size [OF assms(2)] assms(1,2)
    by (auto simp: peer_read_message_size_inside chunk_wf_def)
  obtain f al1 where al1: "da_resize (\<lambda>_ _. []) (Suc (length out)) out al = (out @ [[]], al1)" "alloc_ok al1"
    using da_resize_ok [OF assms(3), of out "Suc (length out)" "\<lambda>_ _. []"] by auto
  obtain v al2 where v: "da_init_bytes (uint s) al1 = Some (v, al2)" "length v = length c" "alloc_ok al2"
    using da_init_bytes_ok [OF al1(2), of "uint s"] us by auto
  have copy: "c_memcpy v 0 (packet_data packet) (int (length pre)) (uint s) = Some c"
    using c_memcpy_fresh [of v "length c" "length pre" "packet_data packet"] v(2) us assms(1) by simp
  have "30 \<le> length c" using assms(2) by (rule chunk_wf_length)
  then have guards: "int (length pre) + 30 \<le> packet_size packet" "c \<noteq> []"
      "\<not> 400 < int (length pre) + int (length c)"
    using assms(4,5) by auto
  have "unpack_messages packet (int (length pre)) status out al =
      unpack_messages packet (int (length pre) + int (length c)) status (out @ [c]) al2"
    using guards v(2)
    by (subst unpack_messages.simps)
      (simp add: s us al1(1) v(1) [unfolded us] copy [unfolded us])
  then show ?thesis using v(3) by auto
qed

lemma unpack_messages_chunks:
  assumes "packet_data packet = pre @ concat cs @ rest" and "\<forall>c \<in> set cs. chunk_wf c"
    and "alloc_ok al" and "packet_size packet = int (length pre) + int (length (concat cs))"
    and "packet_size packet \<le> 400"
  shows "\<exists>al'. alloc_ok al' \<and>
    unpack_messages packet (int (length pre)) status out al = Some (status, out @ cs, al')"
  using assms
proof (induction cs arbitrary: pre out al)
  case Nil
  then show ?case by (subst unpack_messages.simps) auto
next
  case (Cons c cs)
  obtain al1 where al1: "alloc_ok al1" and step:
    "unpack_messages packet (int (length pre)) status out al =
      unpack_messages packet (int (length (pre @ c))) status (out @ [c]) al1"
    using unpack_messages_step [of packet pre c "concat cs @ rest" al status out] Cons.prems by auto
  show ?case
    using Cons.IH [of "pre @ c" al1 "out @ [c]"] Cons.prems al1 step by auto
qed

lemma unpack_closed_packet:
  assumes "\<forall>c \<in> set cs. chunk_wf c" and "length (concat cs) \<le> 385" and "alloc_ok al"
  shows "\<exists>al'. alloc_ok al' \<and>
    unpack_packet nd (closed_packet src dst (concat cs)) (status, out, al) = Some (status, out @ cs, al')"
proof -
  let ?p = "closed_packet src dst (concat cs)"
  let ?pre = "replicate 12 0 @ 0 # le16 (word_of_int (15 + int (length (concat cs))))"
  have "packet_data ?p = ?pre @ concat cs @ replicate (385 - length (concat cs)) 0"
    by (simp add: closed_packet_def)
  moreover have size: "packet_size ?p = 15 + int (length (concat cs))"
    by (simp add: closed_packet_def)
  moreover have "int (length ?pre) = 15" by simp
  ultimately obtain al' where "alloc_ok al'"
    and "unpack_messages ?p 15 status out al = Some (status, out @ cs, al')"
    using unpack_messages_chunks [of ?p ?pre cs _ al status out] assms by force
  then show ?thesis
    using assms(2) size by (auto simp: unpack_packet_def c_assert_holds)
qed

lemma unpack_closed_packets:
  assumes "\<forall>g \<in> set gs. (\<forall>c \<in> set g. chunk_wf c) \<and> length (concat g) \<le> 385" and "alloc_ok al"
  shows "\<exists>al'. alloc_ok al' \<and>
    unpack_packets nd (map (\<lambda>g. closed_packet src dst (concat g)) gs) (status, out, al) =
      Some (status, out @ concat gs, al')"
  using assms
proof (induction gs arbitrary: out al)
  case Nil
  then show ?case by auto
next
  case (Cons g gs)
  obtain al1 where "alloc_ok al1"
    and "unpack_packet nd (closed_packet src dst (concat g)) (status, out, al) = Some (status, out @ g, al1)"
    using unpack_closed_packet [of g al nd src dst status out] Cons.prems by auto
  then show ?case using Cons.IH [of al1 "out @ g"] Cons.prems by auto
qed

text \<open>
  Unpacking arbitrary bytes. Every chunk is a run of the packet's data, except the empty array a
  refused allocation leaves behind (packet.c:154-166).
\<close>

definition chunk_of :: "peer_packet_t \<Rightarrow> peer_chunk_t \<Rightarrow> bool" where
  "chunk_of packet c \<longleftrightarrow>
     (\<exists>k \<le> 400 - length c. 15 \<le> k \<and> c = take (length c) (drop k (packet_data packet)) \<and>
        peer_read_message_size (packet_data packet) (int k) = Some (word_of_int (int (length c))) \<and>
        c \<noteq> [])"

text \<open>One iteration on arbitrary bytes: the loop stops, or it goes on after one more chunk.\<close>

lemma unpack_messages_iter:
  assumes data: "length (packet_data packet) = 400" and off: "15 \<le> offset"
    and loop: "offset + 30 \<le> packet_size packet" "packet_size packet \<le> 400"
    and s: "peer_read_message_size (packet_data packet) offset = Some s"
    and size: "uint s \<noteq> 0" "\<not> 400 < offset + uint s"
  defines "c \<equiv> take (nat (uint s)) (drop (nat offset) (packet_data packet))"
  shows "(\<exists>new al'. unpack_messages packet offset status out al =
        Some (status OR PEER_ERROR_BAD_ALLOC, out @ new, al') \<and> (new = [] \<or> new = [[]]) \<and> \<not> alloc_ok al) \<or>
    (\<exists>al'. unpack_messages packet offset status out al =
        unpack_messages packet (offset + uint s) status (out @ [c]) al' \<and> (alloc_ok al \<longrightarrow> alloc_ok al'))"
proof -
  have unfold: "unpack_messages packet offset status out al =
     (case da_resize (\<lambda>_ _. []) (length out + 1) out al of (chunks1, al1) \<Rightarrow>
        if length chunks1 \<noteq> length out + 1 then Some (status OR PEER_ERROR_BAD_ALLOC, chunks1, al1)
        else do {
          (values, al2) \<leftarrow> da_init_bytes (uint s) al1;
          chunks2 \<leftarrow> c_store chunks1 (int (length out)) values;
          if int (length values) \<noteq> uint s then Some (status OR PEER_ERROR_BAD_ALLOC, chunks2, al2)
          else do {
            values' \<leftarrow> c_memcpy values 0 (packet_data packet) offset (uint s);
            chunks3 \<leftarrow> c_store chunks2 (int (length out)) values';
            unpack_messages packet (offset + uint s) status chunks3 al2
          }
        })"
    using loop s size by (subst unpack_messages.simps) simp
  obtain chunks1 al1 where r: "da_resize (\<lambda>_ _. []) (length out + 1) out al = (chunks1, al1)"
    by fastforce
  have r_ok: "alloc_ok al \<Longrightarrow> chunks1 = out @ [[]] \<and> alloc_ok al1"
    using da_resize_ok [of al out "length out + 1" "\<lambda>_ _. []"] r by fastforce
  obtain v al2 where v: "da_init_bytes (uint s) al1 = Some (v, al2)"
    using da_init_bytes_total [of "uint s" al1] by auto
  have v_ok: "alloc_ok al1 \<Longrightarrow> length v = nat (uint s) \<and> alloc_ok al2"
    using da_init_bytes_ok [of al1 "uint s"] v by fastforce
  consider "chunks1 = out" "\<not> alloc_ok al" | "chunks1 = out @ [[]]" "v = []" |
      "chunks1 = out @ [[]]" "length v = nat (uint s)"
    using da_resize_cases [OF r] da_init_bytes_cases [OF v] r_ok by auto
  then show ?thesis
  proof cases
    case 1
    then show ?thesis using unfold r by auto
  next
    case 2
    moreover have "\<not> alloc_ok al" using 2 r_ok v_ok size(1) by (auto simp: unat_0_iff)
    ultimately show ?thesis using unfold r v size(1) by (auto intro!: exI [of _ "[[]]"])
  next
    case 3
    have "nat offset + nat (uint s) \<le> length (packet_data packet)"
      unfolding data using off size(2) uint_ge_0 [of s] by linarith
    then have "c_memcpy v 0 (packet_data packet) offset (uint s) = Some c"
      using c_memcpy_fresh [OF 3(2), of "nat offset" "packet_data packet"] off by (simp add: c_def)
    then show ?thesis using unfold r v 3 r_ok v_ok by auto
  qed
qed

lemma chunk_ofI:
  assumes "length (packet_data packet) = 400" and "15 \<le> offset"
    and "peer_read_message_size (packet_data packet) offset = Some s"
    and "uint s \<noteq> 0" and "\<not> 400 < offset + uint s"
  shows "chunk_of packet (take (nat (uint s)) (drop (nat offset) (packet_data packet)))"
proof -
  let ?c = "take (nat (uint s)) (drop (nat offset) (packet_data packet))"
  have le: "nat (uint s) \<le> 400 - nat offset" using assms(2,5) by linarith
  then have len: "length ?c = nat (uint s)" by (simp only: length_take length_drop assms(1) min_absorb2)
  have "nat offset \<le> 400 - length ?c" unfolding len using le assms(2,5) uint_ge_0 [of s] by linarith
  moreover have "?c \<noteq> []" using len assms(4) uint_ge_0 [of s] by (metis length_0_conv nat_0_iff order_antisym)
  ultimately show ?thesis
    unfolding chunk_of_def using assms(2,3) len by (intro exI [of _ "nat offset"]) auto
qed

lemma unpack_messages_total:
  assumes "length (packet_data packet) = 400" and "packet_size packet \<le> 400" and "15 \<le> offset"
  shows "\<exists>status' new al'. unpack_messages packet offset status out al = Some (status', out @ new, al') \<and>
    (\<forall>c \<in> set new. c = [] \<or> chunk_of packet c) \<and> int (length new) \<le> max 0 (packet_size packet - offset - 29) \<and>
    (alloc_ok al \<longrightarrow> alloc_ok al' \<and> [] \<notin> set new)"
  using assms(3)
proof (induction "nat (packet_size packet - offset)" arbitrary: offset out al rule: less_induct)
  case less
  show ?case
  proof (cases "offset + 30 \<le> packet_size packet")
    case False
    then show ?thesis by (subst unpack_messages.simps) simp
  next
    case loop: True
    with less.prems assms obtain s where s: "peer_read_message_size (packet_data packet) offset = Some s"
      by (simp add: peer_read_message_size_def c_load_inside)
    show ?thesis
    proof (cases "uint s = 0 \<or> offset + uint s > 400")
      case True
      then show ?thesis using s loop by (subst unpack_messages.simps) auto
    next
      case False
      define c where "c = take (nat (uint s)) (drop (nat offset) (packet_data packet))"
      from False have c: "chunk_of packet c" "c \<noteq> []"
        using chunk_ofI [of packet offset s] assms(1) less.prems s by (auto simp: c_def chunk_of_def)
      have pos: "0 < uint s" using False uint_ge_0 [of s] by linarith
      then have dec: "nat (packet_size packet - (offset + uint s)) < nat (packet_size packet - offset)"
        using loop by simp
      from unpack_messages_iter [of packet offset s status out al] assms loop less.prems s False
      consider new al' where "unpack_messages packet offset status out al =
            Some (status OR PEER_ERROR_BAD_ALLOC, out @ new, al')" "new = [] \<or> new = [[]]" "\<not> alloc_ok al"
        | al' where "unpack_messages packet offset status out al =
            unpack_messages packet (offset + uint s) status (out @ [c]) al'" "alloc_ok al \<longrightarrow> alloc_ok al'"
        unfolding c_def by auto
      then show ?thesis
      proof cases
        case 1
        then show ?thesis using loop by (intro exI [of _ "status OR PEER_ERROR_BAD_ALLOC"] exI [of _ new] exI [of _ al']) auto
      next
        case 2
        from less.prems pos have "15 \<le> offset + uint s" by simp
        from less.hyps [OF dec this, of "out @ [c]" al'] obtain status' new al'' where
          rest: "unpack_messages packet (offset + uint s) status (out @ [c]) al' = Some (status', (out @ [c]) @ new, al'')"
          "\<forall>c \<in> set new. c = [] \<or> chunk_of packet c" "int (length new) \<le> max 0 (packet_size packet - (offset + uint s) - 29)"
          "alloc_ok al' \<longrightarrow> alloc_ok al'' \<and> [] \<notin> set new" by blast
        moreover have "int (length (c # new)) \<le> max 0 (packet_size packet - offset - 29)" using rest(3) pos loop by simp
        ultimately show ?thesis
          using 2 c by (intro exI [of _ status'] exI [of _ "c # new"] exI [of _ al'']) auto
      qed
    qed
  qed
qed

lemma unpack_packet_total:
  assumes "length (packet_data packet) = 400"
    and "nd \<or> packet_size packet = 0 \<or> 15 \<le> packet_size packet \<and> packet_size packet \<le> 400"
  shows "\<exists>status' new al'. unpack_packet nd packet (status, out, al) = Some (status', out @ new, al') \<and>
    (\<forall>c \<in> set new. c = [] \<or> chunk_of packet c) \<and> length new \<le> 356 \<and>
    (alloc_ok al \<longrightarrow> alloc_ok al' \<and> [] \<notin> set new)"
  using assms unpack_messages_total [of packet 15 status out al]
  by (auto simp: unpack_packet_def c_assert_def)

lemma unpack_packets_total:
  assumes "\<forall>p \<in> set packets. length (packet_data p) = 400 \<and>
      (nd \<or> packet_size p = 0 \<or> 15 \<le> packet_size p \<and> packet_size p \<le> 400)"
  shows "\<exists>status' new al'. unpack_packets nd packets (status, out, al) = Some (status', out @ new, al') \<and>
    (\<forall>c \<in> set new. c = [] \<or> (\<exists>p \<in> set packets. chunk_of p c)) \<and> length new \<le> 356 * length packets \<and>
    (alloc_ok al \<longrightarrow> alloc_ok al' \<and> [] \<notin> set new)"
  using assms
proof (induction packets arbitrary: status out al)
  case Nil
  then show ?case by simp
next
  case (Cons p ps)
  obtain status1 new1 al1 where 1:
    "unpack_packet nd p (status, out, al) = Some (status1, out @ new1, al1)"
    "\<forall>c \<in> set new1. c = [] \<or> chunk_of p c" "length new1 \<le> 356" "alloc_ok al \<longrightarrow> alloc_ok al1 \<and> [] \<notin> set new1"
    using unpack_packet_total [of p nd status out al] Cons.prems by auto
  obtain status2 new2 al2 where 2:
    "unpack_packets nd ps (status1, out @ new1, al1) = Some (status2, (out @ new1) @ new2, al2)"
    "\<forall>c \<in> set new2. c = [] \<or> (\<exists>p \<in> set ps. chunk_of p c)" "length new2 \<le> 356 * length ps"
    "alloc_ok al1 \<longrightarrow> alloc_ok al2 \<and> [] \<notin> set new2"
    using Cons.IH [of status1 "out @ new1" al1] Cons.prems by auto
  show ?case
    using 1 2 by (intro exI [of _ status2] exI [of _ "new1 @ new2"] exI [of _ al2]) auto
qed

lemma chunk_wf_message:
  assumes "length data \<le> 355"
  shows "chunk_wf (message_bytes mode index time actor data)"
  using assms read_bytes_0(1) [of data mode index time actor "[]"]
  by (simp add: chunk_wf_def)

lemma closed_packet_fields:
  assumes "length body \<le> 385"
  shows "length (packet_data (closed_packet src dst body)) = 400"
    and "peer_read_u8 (packet_data (closed_packet src dst body)) PEER_N_PACKET_MODE =
      Some PEER_PACKET_MODE_PLAIN"
    and "peer_read_u16 (packet_data (closed_packet src dst body)) PEER_N_PACKET_SIZE =
      Some (word_of_int (packet_size (closed_packet src dst body)))"
proof -
  show "length (packet_data (closed_packet src dst body)) = 400"
    using assms by (simp add: closed_packet_def)
  show "peer_read_u8 (packet_data (closed_packet src dst body)) 12 = Some 0"
    by (simp add: closed_packet_def peer_read_u8_def c_load_def nth_append)
  show "peer_read_u16 (packet_data (closed_packet src dst body)) 13 =
      Some (word_of_int (packet_size (closed_packet src dst body)))"
    using peer_read_u16_append [of "replicate 12 0 @ [0]" "word_of_int (15 + int (length body))"
        "body @ replicate (385 - length body) 0"]
    by (simp add: closed_packet_def)
qed

lemma pack_header_zero:
  assumes "length (packet_data p) = 400"
  shows "pack_header nd 0 (ps @ [p]) =
    Some (ps @ [p\<lparr>packet_size := 0, packet_data := (packet_data p)[12 := 0, 13 := 0, 14 := 0]\<rparr>])"
  using assms by (simp add: pack_header_def peer_write_u8_def peer_write_u16_def c_store_def)

lemma zero_packet_data: "(packet_data zero_packet)[12 := 0, 13 := 0, 14 := 0] = packet_data zero_packet"
  by (rule nth_equalityI) (auto simp: zero_packet_def nth_list_update)

lemma junk_packet_data: "length (packet_data (junk_packet f k)) = 400"
  by (simp add: junk_packet_def Let_def)

subsection \<open>Properties\<close>

text \<open>C19. Unpacking what packing produced returns exactly the chunks that were packed, in order,
  with status \<open>KIT_OK\<close>, for any chunks whose size field is their length and which a packet can
  hold, in both builds (with assertions on, for the packings the assertions let pass).\<close>

theorem pack_unpack_roundtrip:
  assumes "\<forall>c \<in> set cs. chunk_wf c" and "cs \<noteq> []" and "alloc_ok al" and "alloc_ok al2"
    and "assertable nd (pack_groups cs)" and "nd \<or> src \<noteq> dst"
  shows "\<exists>ps al'. peer_pack nd src dst (map chunk_ref cs) [] al = Some (KIT_OK, ps, al') \<and>
    (\<exists>al''. peer_unpack nd ps [] al2 = Some (KIT_OK, cs, al''))"
proof -
  let ?ps = "map (\<lambda>g. closed_packet src dst (concat g)) (pack_groups cs)"
  obtain al' where pack: "peer_pack nd src dst (map chunk_ref cs) [] al = Some (KIT_OK, [] @ ?ps, al')"
    using peer_pack_groups [of cs al nd src dst "[]"] assms by blast
  have "\<forall>g \<in> set (pack_groups cs). (\<forall>c \<in> set g. chunk_wf c) \<and> length (concat g) \<le> 385"
    using assms(1) pack_groups_bound [of cs] pack_groups_concat [of cs]
    by (metis concat_eq_concat_iff in_set_conv_nth UN_I set_concat)
  then obtain al'' where "unpack_packets nd ?ps (KIT_OK, [], al2) = Some (KIT_OK, [] @ concat (pack_groups cs), al'')"
    using unpack_closed_packets [of "pack_groups cs" al2 nd src dst KIT_OK "[]"] assms(4) by blast
  then show ?thesis
    using pack by (auto simp: peer_unpack_def pack_groups_concat)
qed

theorem pack_unpack_roundtrip_witness:
  "\<exists>ps al'. peer_pack False 0 1
      (map chunk_ref [message_bytes 1 0 5 0 [1, 2], message_bytes 1 1 5 2 (replicate 300 7),
        message_bytes 1 2 5 3 (replicate 90 9)]) [] [] = Some (KIT_OK, ps, al') \<and>
    (\<exists>al''. peer_unpack False ps [] [] = Some (KIT_OK,
      [message_bytes 1 0 5 0 [1, 2], message_bytes 1 1 5 2 (replicate 300 7),
        message_bytes 1 2 5 3 (replicate 90 9)], al''))"
  by (rule pack_unpack_roundtrip)
    (auto simp: chunk_wf_message assertable_def pack_groups_def)

text \<open>C27. What \<open>peer_pack\<close> appends: at least one packet, every one with the two ids, 400 bytes of
  data, a size between one message and \<open>PEER_PACKET_SIZE\<close>, the plain mode and its size in the
  header; the packets that were there are untouched, and the chunks are split over the new packets
  greedily, in order.\<close>

theorem pack_packets_shape:
  assumes "\<forall>c \<in> set cs. chunk_wf c" and "cs \<noteq> []" and "alloc_ok al"
    and "assertable nd (pack_groups cs)" and "nd \<or> src \<noteq> dst"
  shows "\<exists>new al'. peer_pack nd src dst (map chunk_ref cs) out al = Some (KIT_OK, out @ new, al') \<and>
    new = map (\<lambda>g. closed_packet src dst (concat g)) (pack_groups cs) \<and> new \<noteq> [] \<and>
    (\<forall>p \<in> set new. source_id p = src \<and> destination_id p = dst \<and> length (packet_data p) = 400 \<and>
       45 \<le> packet_size p \<and> packet_size p \<le> PEER_PACKET_SIZE \<and>
       peer_read_u8 (packet_data p) PEER_N_PACKET_MODE = Some PEER_PACKET_MODE_PLAIN \<and>
       peer_read_u16 (packet_data p) PEER_N_PACKET_SIZE = Some (word_of_int (packet_size p)))"
proof -
  let ?new = "map (\<lambda>g. closed_packet src dst (concat g)) (pack_groups cs)"
  obtain al' where "peer_pack nd src dst (map chunk_ref cs) out al = Some (KIT_OK, out @ ?new, al')"
    using peer_pack_groups [of cs al nd src dst out] assms by blast
  moreover have "?new \<noteq> []" using assms(2) by (simp add: pack_groups_nonempty)
  moreover have "source_id p = src \<and> destination_id p = dst \<and> length (packet_data p) = 400 \<and>
       45 \<le> packet_size p \<and> packet_size p \<le> PEER_PACKET_SIZE \<and>
       peer_read_u8 (packet_data p) PEER_N_PACKET_MODE = Some PEER_PACKET_MODE_PLAIN \<and>
       peer_read_u16 (packet_data p) PEER_N_PACKET_SIZE = Some (word_of_int (packet_size p))"
    if "p \<in> set ?new" for p
  proof -
    from that obtain g where g: "g \<in> set (pack_groups cs)" and p: "p = closed_packet src dst (concat g)"
      by auto
    have bound: "length (concat g) \<le> 385" using pack_groups_bound [OF assms(1) g] .
    obtain c g' where "g = c # g'" using pack_groups_nonempty(2) [OF assms(2)] g by (cases g) auto
    moreover have "c \<in> set cs" using calculation g pack_groups_concat [of cs]
      by (metis UN_I list.set_intros(1) set_concat)
    ultimately have "30 \<le> length (concat g)" using assms(1) chunk_wf_length(1) [of c] by simp
    then show ?thesis using bound closed_packet_fields [OF bound, of src dst]
      by (simp add: p) (simp add: closed_packet_def)
  qed
  ultimately show ?thesis by blast
qed

theorem pack_packets_shape_witness:
  "\<exists>new al'. peer_pack True 3 4 (map chunk_ref [message_bytes 1 0 5 0 (replicate 355 8)]) [zero_packet] [] =
      Some (KIT_OK, [zero_packet] @ new, al') \<and>
    new = map (\<lambda>g. closed_packet 3 4 (concat g)) (pack_groups [message_bytes 1 0 5 0 (replicate 355 8)]) \<and>
    new \<noteq> [] \<and>
    (\<forall>p \<in> set new. source_id p = 3 \<and> destination_id p = 4 \<and> length (packet_data p) = 400 \<and>
       45 \<le> packet_size p \<and> packet_size p \<le> PEER_PACKET_SIZE \<and>
       peer_read_u8 (packet_data p) PEER_N_PACKET_MODE = Some PEER_PACKET_MODE_PLAIN \<and>
       peer_read_u16 (packet_data p) PEER_N_PACKET_SIZE = Some (word_of_int (packet_size p)))"
  by (rule pack_packets_shape) (auto simp: chunk_wf_message assertable_def)

text \<open>C28. \<open>peer_unpack\<close> is memory safe on arbitrary bytes: with assertions off it returns for every
  list of packets (any sizes, any contents of the 400 data bytes) and every allocator, and each chunk
  it appends is a nonempty run of some packet's data as long as the size field at its start, or the
  empty array a refused allocation leaves; the latter does not occur when no allocation fails. It ends after at
  most 356 chunks per packet.\<close>

theorem unpack_memory_safe:
  assumes "\<forall>p \<in> set packets. length (packet_data p) = 400"
  shows "\<exists>status new al'. peer_unpack True packets out al = Some (status, out @ new, al') \<and>
    (\<forall>c \<in> set new. c = [] \<or> (\<exists>p \<in> set packets. chunk_of p c)) \<and> length new \<le> 356 * length packets \<and>
    (alloc_ok al \<longrightarrow> [] \<notin> set new)"
  using unpack_packets_total [of packets True KIT_OK out al] assms
  by (auto simp: peer_unpack_def)

theorem unpack_memory_safe_witness:
  "\<exists>status new al'. peer_unpack True [zero_packet\<lparr>packet_size := 300, packet_data := replicate 400 31\<rparr>,
      zero_packet\<lparr>packet_size := 9000\<rparr>] [] [None] = Some (status, [] @ new, al') \<and>
    (\<forall>c \<in> set new. c = [] \<or> (\<exists>p \<in> set [zero_packet\<lparr>packet_size := 300, packet_data := replicate 400 31\<rparr>,
      zero_packet\<lparr>packet_size := 9000\<rparr>]. chunk_of p c)) \<and>
    length new \<le> 356 * length [zero_packet\<lparr>packet_size := 300, packet_data := replicate 400 31\<rparr>, zero_packet\<lparr>packet_size := 9000\<rparr>] \<and>
    (alloc_ok [None] \<longrightarrow> [] \<notin> set new)"
  by (rule unpack_memory_safe) (simp add: zero_packet_def)

text \<open>C37. A message larger than 339 bytes, which \<open>PEER_MAX_MESSAGE_SIZE\<close> (355) allows, cannot be packed
  with assertions on: the header assertion of packet.c:30 and 107 wants the packet to end 15 bytes
  before its capacity, and the build aborts. With assertions off the same call succeeds.\<close>

theorem pack_large_chunk_aborts:
  assumes "chunk_wf c" and "370 \<le> length c" and "alloc_ok al"
  shows "peer_pack False src dst [chunk_ref c] out al = None \<and>
    (\<exists>ps al'. peer_pack True src dst [chunk_ref c] out al = Some (KIT_OK, ps, al'))"
proof
  obtain al1 where new: "pack_new_packet False src dst (length out) (400, out, al) =
      Some (Inr (15, out @ [open_packet src dst []], al1))"
    using pack_new_packet_first [OF assms(3)] by blast
  have first: "pack_chunk False src dst (length out) (chunk_ref c) (400, out, al) =
      pack_chunk False src dst (length out) (chunk_ref c) (15, out @ [open_packet src dst []], al1)"
    using assms chunk_wf_length [OF assms(1)] by (intro pack_chunk_new [OF _ _ new]) auto
  show "peer_pack False src dst [chunk_ref c] out al = None"
  proof (cases "length c < 385")
    case True
    then have "pack_chunk False src dst (length out) (chunk_ref c) (400, out, al) =
        Some (Inr (15 + int (length c), out @ [open_packet src dst c], al1))"
      using first pack_chunk_body [of c "[]" False src dst "length out" out al1] assms(1) by simp
    then show ?thesis
      using assms(2) by (simp add: peer_pack_def pack_header_def c_assert_def)
  next
    case False
    obtain s where "peer_read_message_size c 0 = Some s" and "uint s = int (length c)"
      using chunk_wf_size [OF assms(1)] by blast
    then have "pack_chunk False src dst (length out) (chunk_ref c) (400, out, al) = None"
      unfolding first using False chunk_wf_length(2) [OF assms(1)]
      by (simp add: pack_chunk_def chunk_ref_def c_assert_def)
    then show ?thesis by (simp add: peer_pack_def)
  qed
  show "\<exists>ps al'. peer_pack True src dst [chunk_ref c] out al = Some (KIT_OK, ps, al')"
    using peer_pack_groups [of "[c]" al True src dst out] assms by (auto simp: assertable_def)
qed

theorem pack_large_chunk_aborts_witness:
  "peer_pack False 0 1 [chunk_ref (message_bytes 1 0 0 0 (replicate 340 1))] [] [] = None \<and>
    (\<exists>ps al'. peer_pack True 0 1 [chunk_ref (message_bytes 1 0 0 0 (replicate 340 1))] [] [] =
      Some (KIT_OK, ps, al'))"
  by (rule pack_large_chunk_aborts) (auto simp: chunk_wf_message)

text \<open>Packing no chunks yields one packet of size 0 with the two ids, which unpacking skips. But
  only when no packet was there before: otherwise the call wipes the first of the earlier packets and
  leaves the new one with the contents of fresh memory (packet.c:93-95 index element 0, not the new
  one).\<close>

theorem pack_no_chunks:
  assumes "nd \<or> src \<noteq> dst"
  shows "peer_pack nd src dst [] [] (Some f # al) =
      Some (KIT_OK, [zero_packet\<lparr>source_id := src, destination_id := dst\<rparr>], al) \<and>
    (\<exists>q. peer_pack nd src dst [] (p # ps) (Some f # al) =
      Some (KIT_OK, (zero_packet\<lparr>source_id := src, destination_id := dst\<rparr>) # ps @ [q], al) \<and>
      source_id q = source_id (junk_packet f (Suc (length ps))))"
proof (intro conjI exI)
  let ?z = "zero_packet\<lparr>source_id := src, destination_id := dst\<rparr>"
  have "?z\<lparr>packet_size := 0, packet_data := packet_data zero_packet\<rparr> = ?z"
    by (simp add: zero_packet_def)
  moreover have "length (packet_data zero_packet) = 400" by (simp add: zero_packet_def)
  ultimately show "peer_pack nd src dst [] [] (Some f # al) = Some (KIT_OK, [?z], al)"
    using assms pack_header_zero [of ?z nd "[]"]
    by (simp add: peer_pack_def da_resize_def c_store_def c_assert_holds zero_packet_data)
  let ?q = "junk_packet f (Suc (length ps))"
  let ?q' = "?q\<lparr>packet_size := 0, packet_data := (packet_data ?q)[12 := 0, 13 := 0, 14 := 0]\<rparr>"
  show "peer_pack nd src dst [] (p # ps) (Some f # al) = Some (KIT_OK, ?z # ps @ [?q'], al)"
    using assms pack_header_zero [of ?q nd "?z # ps"]
    by (simp add: peer_pack_def da_resize_def c_store_def c_assert_holds junk_packet_data)
  show "source_id ?q' = source_id ?q" by simp
qed

theorem pack_no_chunks_witness:
  "peer_pack False 1 2 [] [] (Some (\<lambda>_. 255) # []) =
      Some (KIT_OK, [zero_packet\<lparr>source_id := 1, destination_id := 2\<rparr>], []) \<and>
    (\<exists>q. peer_pack False 1 2 [] (zero_packet\<lparr>packet_size := 45\<rparr> # []) (Some (\<lambda>_. 255) # []) =
      Some (KIT_OK, (zero_packet\<lparr>source_id := 1, destination_id := 2\<rparr>) # [] @ [q], []) \<and>
      source_id q = source_id (junk_packet (\<lambda>_. 255) (Suc (length ([] :: peer_packet_t list)))))"
  by (rule pack_no_chunks) simp

text \<open>A packet whose recorded size is neither 0 nor between the header's size and
  \<open>PEER_PACKET_SIZE\<close> is skipped with \<open>PEER_ERROR_INVALID_PACKET_SIZE\<close> and nothing is taken out of it
  (assertions off; with assertions on the call aborts).\<close>

theorem unpack_invalid_packet_size:
  assumes "packet_size p \<noteq> 0" and "packet_size p < 15 \<or> packet_size p > 400"
  shows "peer_unpack nd (p # ps) out al =
    (if nd then unpack_packets nd ps (PEER_ERROR_INVALID_PACKET_SIZE, out, al) else None)"
  using assms by (auto simp: peer_unpack_def unpack_packet_def c_assert_def)

theorem unpack_invalid_packet_size_witness:
  "peer_unpack True (zero_packet\<lparr>packet_size := 14\<rparr> # []) [] [] =
    (if True then unpack_packets True [] (PEER_ERROR_INVALID_PACKET_SIZE, [], []) else None)"
  by (rule unpack_invalid_packet_size) simp_all

end
