(* ===== verification/Peer_Cipher.thy ===== *)
theory Peer_Cipher
  imports Peer_Packet
begin

text \<open>
  The packet cipher (\<open>source/peer/cipher.h\<close>, \<open>source/peer/cipher.c\<close>). The source leaves it
  unimplemented: \<open>peer_cipher_init\<close> stores the key and every function then reports
  \<open>PEER_ERROR_NOT_IMPLEMENTED\<close>. Pointers are options, \<^const>\<open>None\<close> for \<open>NULL\<close>.
\<close>

record peer_cipher_t =
  cipher_key :: "byte list"
  cipher_index :: ptrdiff_t

definition zero_cipher :: peer_cipher_t where
  "zero_cipher = \<lparr>cipher_key = replicate (nat PEER_MT64_KEY_SIZE) 0, cipher_index = 0\<rparr>"

definition peer_cipher_init ::
  "bool \<Rightarrow> peer_cipher_t option \<Rightarrow> byte list option \<Rightarrow> (kit_status_t \<times> peer_cipher_t option) option" where
  "peer_cipher_init nd cipher key = do {
     c_assert nd (cipher \<noteq> None);
     c_assert nd (key \<noteq> None);
     case cipher of
       None \<Rightarrow> Some (PEER_ERROR_INVALID_CIPHER, None)
     | Some _ \<Rightarrow>
         (case key of
            None \<Rightarrow> Some (PEER_ERROR_INVALID_KEY, Some zero_cipher)
          | Some k \<Rightarrow> do {
              key' \<leftarrow> c_memcpy (cipher_key zero_cipher) 0 k 0 PEER_MT64_KEY_SIZE;
              Some (PEER_ERROR_NOT_IMPLEMENTED, Some (zero_cipher\<lparr>cipher_key := key'\<rparr>))
            })
   }"

record peer_cipher_result_t =
  cipher_status :: kit_status_t
  cipher_packets :: peer_packets_t

definition peer_encrypt :: "bool \<Rightarrow> peer_cipher_t option \<Rightarrow> peer_packets_t \<Rightarrow> peer_cipher_result_t option" where
  "peer_encrypt nd cipher packets = do {
     c_assert nd (cipher \<noteq> None);
     if cipher = None then Some \<lparr>cipher_status = PEER_ERROR_INVALID_CIPHER, cipher_packets = []\<rparr>
     else Some \<lparr>cipher_status = PEER_ERROR_NOT_IMPLEMENTED, cipher_packets = []\<rparr>
   }"

definition peer_decrypt :: "bool \<Rightarrow> peer_cipher_t option \<Rightarrow> peer_packets_t \<Rightarrow> peer_cipher_result_t option" where
  "peer_decrypt nd cipher packets = do {
     c_assert nd (cipher \<noteq> None);
     if cipher = None then Some \<lparr>cipher_status = PEER_ERROR_INVALID_CIPHER, cipher_packets = []\<rparr>
     else Some \<lparr>cipher_status = PEER_ERROR_NOT_IMPLEMENTED, cipher_packets = []\<rparr>
   }"

text \<open>The key is kept, whatever the cipher held before, when the caller passes at least
  \<open>PEER_MT64_KEY_SIZE\<close> bytes; a shorter key is read past its end.\<close>

lemma peer_cipher_init_key:
  "peer_cipher_init nd (Some c) (Some k) =
    (if length k \<ge> 128
     then Some (PEER_ERROR_NOT_IMPLEMENTED, Some \<lparr>cipher_key = take 128 k, cipher_index = 0\<rparr>)
     else None)"
  by (auto simp: peer_cipher_init_def zero_cipher_def c_memcpy_def)

end
