(* ===== verification/Peer_Queue.thy ===== *)
theory Peer_Queue
  imports Peer_Packet
begin

text \<open>
  Message queues: \<open>peer_message_t\<close> and \<open>peer_queue_t\<close> of \<open>source/peer/peer.h\<close> with
  \<open>queue_append\<close> and \<open>queue_insert\<close> of \<open>source/peer/peer.c\<close>. A queue is a list of messages; a
  message that has not arrived yet is a zeroed entry that is not ready.

  The locale \<open>message_log\<close> is the contract a receiver of indexed messages relies on: the first
  message stored under an index stays, other indices are untouched. Its lemmas (the result does not
  depend on the order or the repetition of the messages, and it agrees with the source of the
  messages) are proved once and interpreted on the queue.
\<close>

subsection \<open>Data\<close>

record peer_message_t =
  is_ready :: bool
  message_time :: peer_time_t
  message_actor :: ptrdiff_t
  message_data :: peer_chunk_t

type_synonym peer_queue_t = "peer_message_t list"

definition zero_message :: peer_message_t where
  "zero_message = \<lparr>is_ready = False, message_time = 0, message_actor = 0, message_data = []\<rparr>"

subsection \<open>Operations\<close>

text \<open>\<open>DA_INIT\<close> of a message's data and the copy of \<open>data\<close> into it; the right side of the sum is
  the copy, the left side what a refused allocation leaves.\<close>

definition message_copy ::
  "peer_chunk_ref_t \<Rightarrow> kit_allocator_t \<Rightarrow> ((byte list + byte list) \<times> kit_allocator_t) option" where
  "message_copy data al = do {
     (v, al') \<leftarrow> da_init_bytes (ref_size data) al;
     if int (length v) \<noteq> ref_size data then Some (Inl v, al')
     else if ref_size data > 0 then do {
       src \<leftarrow> ref_values data;
       v' \<leftarrow> c_memcpy v 0 src 0 (ref_size data);
       Some (Inr v', al')
     } else Some (Inr v, al')
   }"

definition queue_append ::
  "peer_queue_t \<Rightarrow> peer_time_t \<Rightarrow> ptrdiff_t \<Rightarrow> peer_chunk_ref_t \<Rightarrow> kit_allocator_t \<Rightarrow>
   (kit_status_t \<times> peer_queue_t \<times> kit_allocator_t) option" where
  "queue_append q time actor data al =
     (let index = length q; (q1, al1) = da_resize (\<lambda>_ _. zero_message) (index + 1) q al in
      if length q1 \<noteq> index + 1 then Some (PEER_ERROR_BAD_ALLOC, q1, al1)
      else do {
        (r, al2) \<leftarrow> message_copy data al1;
        case r of
          Inl _ \<Rightarrow>
            (let (q2, al3) = da_resize (\<lambda>_ _. zero_message) index q1 al2 in
             Some (PEER_ERROR_BAD_ALLOC, q2, al3))
        | Inr v \<Rightarrow> do {
            q2 \<leftarrow> c_store q1 (int index)
                   \<lparr>is_ready = True, message_time = time, message_actor = actor, message_data = v\<rparr>;
            Some (KIT_OK, q2, al2)
          }
      })"

text \<open>Make room for an index past the end (peer.c:169-177); the flag is false when the allocator
  refused.\<close>

definition queue_grow ::
  "peer_queue_t \<Rightarrow> ptrdiff_t \<Rightarrow> kit_allocator_t \<Rightarrow> (bool \<times> peer_queue_t \<times> kit_allocator_t) option" where
  "queue_grow q index al =
     (if index \<ge> int (length q) then do {
        size' \<leftarrow> c_add index 1;
        let (q1, al1) = da_resize (\<lambda>_ _. zero_message) (nat size') q al;
        Some (int (length q1) = size', q1, al1)
      } else Some (True, q, al))"

definition queue_insert ::
  "bool \<Rightarrow> peer_queue_t \<Rightarrow> ptrdiff_t \<Rightarrow> peer_time_t \<Rightarrow> ptrdiff_t \<Rightarrow> peer_chunk_ref_t \<Rightarrow> kit_allocator_t \<Rightarrow>
   (kit_status_t \<times> peer_queue_t \<times> kit_allocator_t) option" where
  "queue_insert nd q index time actor data al =
     (if index = PEER_UNDEFINED then Some (KIT_OK, q, al)
      else do {
        c_assert nd (index \<ge> 0);
        if index < 0 then Some (PEER_ERROR_INVALID_MESSAGE_INDEX, q, al)
        else do {
          ready \<leftarrow> (if index < int (length q) then do { m \<leftarrow> c_load q index; Some (is_ready m) }
                   else Some False);
          if ready then Some (KIT_OK, q, al)
          else do {
            (grown, q1, al1) \<leftarrow> queue_grow q index al;
            if \<not> grown then Some (PEER_ERROR_BAD_ALLOC, q1, al1)
            else do {
              m \<leftarrow> c_load q1 index;
              (r, al2) \<leftarrow> message_copy data al1;
              case r of
                Inl v \<Rightarrow> do {
                  q2 \<leftarrow> c_store q1 index (m\<lparr>message_data := v\<rparr>);
                  Some (PEER_ERROR_BAD_ALLOC, q2, al2)
                }
              | Inr v \<Rightarrow> do {
                  q2 \<leftarrow> c_store q1 index
                         \<lparr>is_ready = True, message_time = time, message_actor = actor, message_data = v\<rparr>;
                  Some (KIT_OK, q2, al2)
                }
            }
          }
        }
      })"

lemma message_copy_alloc:
  assumes "message_copy d al = Some (r, al')" and "alloc_ok al"
  shows "alloc_ok al'"
  using assms
  by (auto simp: message_copy_def split: if_splits dest!: bind_eq_SomeD dest: da_init_bytes_alloc)

lemma queue_insert_alloc:
  assumes "queue_insert nd q index time actor d al = Some (s, q', al')" and "alloc_ok al"
  shows "alloc_ok al'"
proof (cases "al' = al")
  case False
  then obtain grown q1 al1 where grow: "queue_grow q index al = Some (grown, q1, al1)"
    and rest: "al' = al1 \<or> (\<exists>r. message_copy d al1 = Some (r, al'))"
    using assms(1) by (auto simp: queue_insert_def c_assert_bind split: if_splits sum.splits dest!: bind_eq_SomeD)
  have "alloc_ok al1"
    using grow assms(2)
    by (auto simp: queue_grow_def Let_def split: if_splits prod.splits dest!: bind_eq_SomeD dest: da_resize_alloc)
  then show ?thesis using rest message_copy_alloc by blast
qed (use assms(2) in simp)

subsection \<open>The queue as a log\<close>

text \<open>The contract of a log of indexed messages.\<close>

locale message_log =
  fixes put :: "'q \<Rightarrow> nat \<Rightarrow> 'm \<Rightarrow> 'q"
    and get :: "'q \<Rightarrow> nat \<Rightarrow> 'm option"
  assumes put_first: "get q i = None \<Longrightarrow> get (put q i m) i = Some m"
    and put_present: "get q i = Some m' \<Longrightarrow> put q i m = q"
    and put_other: "i \<noteq> j \<Longrightarrow> get (put q i m) j = get q j"
begin

text \<open>Storing a list of messages, first to last.\<close>

definition puts :: "'q \<Rightarrow> (nat \<times> 'm) list \<Rightarrow> 'q" where
  "puts q ms = fold (\<lambda>(i, m) q. put q i m) ms q"

lemma puts_simps [simp]: "puts q [] = q" "puts q ((i, m) # ms) = puts (put q i m) ms"
  by (simp_all add: puts_def)

lemma get_put: "get (put q i m) j = (if get q j = None \<and> i = j then Some m else get q j)"
  using put_first [of q i m] put_present [of q i _ m] put_other [of i j q m]
  by (cases "get q j"; cases "i = j") auto

text \<open>What is stored is what was there, and otherwise the first message with that index.\<close>

lemma get_puts: "get (puts q ms) i = (case get q i of Some m \<Rightarrow> Some m | None \<Rightarrow> map_of ms i)"
proof (induction ms arbitrary: q)
  case Nil
  then show ?case by (simp split: option.split)
next
  case (Cons im ms)
  obtain j m where "im = (j, m)" by (cases im)
  with Cons.IH [of "put q j m"] show ?case by (auto simp: get_put split: option.splits)
qed

text \<open>A log agrees with a source when all it holds is what the source has under that index.\<close>

definition agrees :: "'q \<Rightarrow> (nat \<rightharpoonup> 'm) \<Rightarrow> bool" where
  "agrees q src \<longleftrightarrow> (\<forall>i m. get q i = Some m \<longrightarrow> src i = Some m)"

lemma agrees_put: "agrees q src \<Longrightarrow> src i = Some m \<Longrightarrow> agrees (put q i m) src"
  by (auto simp: agrees_def get_put split: if_splits)

lemma agrees_puts:
  assumes "agrees q src" and "\<forall>(i, m) \<in> set ms. src i = Some m"
  shows "agrees (puts q ms) src"
  using assms
proof (induction ms arbitrary: q)
  case (Cons im ms)
  obtain j m where im: "im = (j, m)" by (cases im)
  from Cons.prems have "agrees (put q j m) src" by (auto simp: im intro: agrees_put)
  then show ?case using Cons.IH [of "put q j m"] Cons.prems by (simp add: im)
qed simp

text \<open>Order and repetition do not matter when the messages come from one source.\<close>

lemma puts_order_independent:
  assumes "\<forall>(i, m) \<in> set ms \<union> set ms'. src i = Some m" and "fst ` set ms = fst ` set ms'"
  shows "get (puts q ms) = get (puts q ms')"
proof -
  have of_source: "map_of xs i = (if i \<in> fst ` set xs then src i else None)"
    if "\<forall>(i, m) \<in> set xs. src i = Some m" for xs :: "(nat \<times> 'm) list" and i
    using that by (induction xs) (auto split: if_splits)
  show ?thesis
    using assms by (auto simp: fun_eq_iff get_puts of_source split: option.split)
qed

text \<open>Once every index below \<open>n\<close> has come, the log holds the source's first \<open>n\<close> messages.\<close>

lemma puts_complete:
  assumes "agrees q src" and "\<forall>(i, m) \<in> set ms. src i = Some m" and "{..<n} \<subseteq> fst ` set ms"
    and "i < n"
  shows "get (puts q ms) i = src i"
proof -
  have "i \<in> fst ` set ms" using assms(3,4) by auto
  then have "map_of ms i \<noteq> None" by (simp add: map_of_eq_None_iff)
  then have "get (puts q ms) i \<noteq> None" by (auto simp: get_puts split: option.split)
  then show ?thesis
    using agrees_puts [OF assms(1,2)] by (auto simp: agrees_def)
qed

end

text \<open>What a message carries besides its index: time, actor and data.\<close>

type_synonym entry = "peer_time_t \<times> ptrdiff_t \<times> peer_chunk_t"

fun ready_message :: "entry \<Rightarrow> peer_message_t" where
  "ready_message (t, a, d) =
     \<lparr>is_ready = True, message_time = t, message_actor = a, message_data = d\<rparr>"

definition message_entry :: "peer_message_t \<Rightarrow> entry" where
  "message_entry m = (message_time m, message_actor m, message_data m)"

text \<open>Values a message can carry over the wire.\<close>

definition entry_ok :: "entry \<Rightarrow> bool" where
  "entry_ok = (\<lambda>(t, a, d). is_int64 t \<and> - 1 \<le> a \<and> a \<le> 0xffffffff \<and> length d \<le> 355)"

text \<open>Insertion without allocation, and look-up.\<close>

definition queue_put :: "peer_queue_t \<Rightarrow> nat \<Rightarrow> entry \<Rightarrow> peer_queue_t" where
  "queue_put q i e =
     (if i < length q \<and> is_ready (q ! i) then q
      else (q @ replicate (Suc i - length q) zero_message)[i := ready_message e])"

definition queue_get :: "peer_queue_t \<Rightarrow> nat \<Rightarrow> entry option" where
  "queue_get q i = (if i < length q \<and> is_ready (q ! i) then Some (message_entry (q ! i)) else None)"

lemma ready_message_simps [simp]:
  "is_ready (ready_message e)" "message_entry (ready_message e) = e" "\<not> is_ready zero_message"
  by (cases e; simp add: message_entry_def zero_message_def)+

lemma ready_message_entry: "is_ready m \<Longrightarrow> ready_message (message_entry m) = m"
  by (cases m) (simp add: message_entry_def)

lemma queue_put_length: "length (queue_put q i e) = max (length q) (Suc i)"
  by (auto simp: queue_put_def)

lemma queue_put_nth:
  assumes "j < length (queue_put q i e)"
  shows "queue_put q i e ! j =
    (if j = i \<and> \<not> (i < length q \<and> is_ready (q ! i)) then ready_message e
     else if j < length q then q ! j else zero_message)"
  using assms by (auto simp: queue_put_def nth_list_update nth_append)

interpretation queue_log: message_log queue_put queue_get
proof
  show "queue_get q i = None \<Longrightarrow> queue_get (queue_put q i e) i = Some e" for q i e
    by (auto simp: queue_get_def queue_put_length queue_put_nth split: if_splits)
  show "queue_get q i = Some e' \<Longrightarrow> queue_put q i e = q" for q i e e'
    by (auto simp: queue_get_def queue_put_def split: if_splits)
  show "i \<noteq> j \<Longrightarrow> queue_get (queue_put q i e) j = queue_get q j" for q i j e
    by (auto simp: queue_get_def queue_put_length queue_put_nth)
qed

text \<open>On queues the insertions commute as lists, padding included.\<close>

definition queue_at :: "peer_queue_t \<Rightarrow> nat \<Rightarrow> peer_message_t" where
  "queue_at q k = (if k < length q then q ! k else zero_message)"

lemma queue_at_put:
  "queue_at (queue_put q i e) k =
     (if k = i \<and> \<not> is_ready (queue_at q i) then ready_message e else queue_at q k)"
  by (auto simp: queue_at_def queue_put_length queue_put_nth)

lemma queue_eqI:
  assumes "length q = length q'" and "\<And>k. queue_at q k = queue_at q' k"
  shows "q = q'"
  using assms by (metis nth_equalityI queue_at_def)

lemma queue_put_commute:
  assumes "i \<noteq> j"
  shows "queue_put (queue_put q i e) j e' = queue_put (queue_put q j e') i e"
  using assms by (intro queue_eqI) (simp_all add: queue_put_length queue_at_put max.assoc max.left_commute)

lemma queue_put_idem: "queue_put (queue_put q i e) i e' = queue_put q i e"
proof -
  have "queue_get (queue_put q i e) i \<noteq> None" by (cases e) (auto simp: queue_log.get_put)
  then obtain x where "queue_get (queue_put q i e) i = Some x" by blast
  then show ?thesis by (rule queue_log.put_present)
qed

subsection \<open>The operations against the log\<close>

lemma message_copy_ok:
  assumes "alloc_ok al"
  shows "\<exists>al'. alloc_ok al' \<and> message_copy (chunk_ref d) al = Some (Inr d, al')"
proof -
  obtain v al' where v: "da_init_bytes (int (length d)) al = Some (v, al')" "length v = length d" "alloc_ok al'"
    using da_init_bytes_ok [OF assms, of "int (length d)"] by auto
  then show ?thesis
    using c_memcpy_fresh [of v "length d" 0 d] by (auto simp: message_copy_def chunk_ref_def)
qed

lemma message_copy_total:
  obtains r al' where "message_copy (chunk_ref d) al = Some (r, al')" and "r = Inr d \<or> r = Inl []"
proof -
  obtain v al1 where v: "da_init_bytes (int (length d)) al = Some (v, al1)"
    using da_init_bytes_total [of "int (length d)" al] by auto
  show ?thesis
  proof (cases "length v = length d")
    case True
    then have "message_copy (chunk_ref d) al = Some (Inr d, al1)"
      using v c_memcpy_fresh [of v "length d" 0 d] by (auto simp: message_copy_def chunk_ref_def)
    then show ?thesis using that by blast
  next
    case False
    then have "v = []" using da_init_bytes_cases [OF v] by simp
    with False have "message_copy (chunk_ref d) al = Some (Inl [], al1)"
      using v by (auto simp: message_copy_def chunk_ref_def)
    then show ?thesis using that by blast
  qed
qed

lemma queue_append_ok:
  assumes "alloc_ok al"
  shows "\<exists>al'. alloc_ok al' \<and> queue_append q t a (chunk_ref d) al =
    Some (KIT_OK, q @ [ready_message (t, a, d)], al')"
proof -
  obtain f al1 where r: "da_resize (\<lambda>_ _. zero_message) (Suc (length q)) q al = (q @ [zero_message], al1)"
    "alloc_ok al1"
    using da_resize_ok [OF assms, of q "Suc (length q)" "\<lambda>_ _. zero_message"] by auto
  obtain al2 where "alloc_ok al2" "message_copy (chunk_ref d) al1 = Some (Inr d, al2)"
    using message_copy_ok [OF r(2)] by blast
  then show ?thesis using r(1) by (auto simp: queue_append_def)
qed

lemma queue_grow_ok:
  assumes "alloc_ok al" and "int i < INT64_MAX"
  shows "\<exists>al'. alloc_ok al' \<and> queue_grow q (int i) al =
    Some (True, q @ replicate (Suc i - length q) zero_message, al')"
proof (cases "length q \<le> i")
  case True
  obtain f al' where "da_resize (\<lambda>_ _. zero_message) (Suc i) q al =
      (q @ map (\<lambda>_. zero_message) [length q..<Suc i], al')" "alloc_ok al'"
    using da_resize_ok [OF assms(1), of q "Suc i" "\<lambda>_ _. zero_message"] True by auto
  moreover have "c_add (int i) 1 = Some (int (Suc i))"
    using assms(2) by (auto simp: c_add_def is_int64_def)
  moreover have "map (\<lambda>_. zero_message) [length q..<Suc i] = replicate (Suc i - length q) zero_message"
    by (simp only: map_replicate_const length_upt)
  ultimately show ?thesis using True by (auto simp: queue_grow_def nat_add_distrib)
next
  case False
  then show ?thesis using assms(1) by (simp add: queue_grow_def)
qed

lemma queue_grow_cases:
  assumes "queue_grow q (int i) al = Some (grown, q1, al')"
  shows "if grown then q1 = q @ replicate (Suc i - length q) zero_message else q1 = q"
proof (cases "length q \<le> i")
  case True
  have const: "map (\<lambda>_. zero_message) [length q..<Suc i] = replicate (Suc i - length q) zero_message"
    by (simp only: map_replicate_const length_upt)
  from True assms obtain al1 where "da_resize (\<lambda>_ _. zero_message) (Suc i) q al = (q1, al1)"
    and "grown \<longleftrightarrow> length q1 = Suc i"
    by (auto simp: queue_grow_def c_add_def nat_add_distrib split: if_splits prod.splits)
  then show ?thesis using da_resize_cases [of "\<lambda>_ _. zero_message" "Suc i" q al q1 al1] True const by auto
next
  case False
  then show ?thesis using assms by (simp add: queue_grow_def)
qed

lemma queue_insert_missing:
  assumes "\<not> (i < length q \<and> is_ready (q ! i))"
  shows "queue_insert nd q (int i) t a data al = do {
     (grown, q1, al1) \<leftarrow> queue_grow q (int i) al;
     if \<not> grown then Some (PEER_ERROR_BAD_ALLOC, q1, al1)
     else do {
       m \<leftarrow> c_load q1 (int i);
       (r, al2) \<leftarrow> message_copy data al1;
       case r of
         Inl v \<Rightarrow> do {
           q2 \<leftarrow> c_store q1 (int i) (m\<lparr>message_data := v\<rparr>);
           Some (PEER_ERROR_BAD_ALLOC, q2, al2)
         }
       | Inr v \<Rightarrow> do {
           q2 \<leftarrow> c_store q1 (int i)
                  \<lparr>is_ready = True, message_time = t, message_actor = a, message_data = v\<rparr>;
           Some (KIT_OK, q2, al2)
         }
     }
   }"
proof -
  have "(if int i < int (length q) then do { m \<leftarrow> c_load q (int i); Some (is_ready m) }
      else Some False) = Some False"
    using assms by (simp add: c_load_def)
  then show ?thesis by (simp add: queue_insert_def)
qed

lemma queue_insert_ok:
  assumes "alloc_ok al" and "0 \<le> index" and "index < INT64_MAX"
  shows "\<exists>al'. alloc_ok al' \<and> queue_insert nd q index t a (chunk_ref d) al =
    Some (KIT_OK, queue_put q (nat index) (t, a, d), al')"
proof -
  define i where "i = nat index"
  with assms(2) have index: "index = int i" by simp
  show ?thesis
  proof (cases "i < length q \<and> is_ready (q ! i)")
    case True
    then show ?thesis using assms(1) by (auto simp: queue_insert_def index queue_put_def)
  next
    case False
    let ?q1 = "q @ replicate (Suc i - length q) zero_message"
    obtain al1 where al1: "alloc_ok al1" and "queue_grow q (int i) al = Some (True, ?q1, al1)"
      using queue_grow_ok [OF assms(1), of i q] assms(3) index by auto
    moreover obtain al2 where "alloc_ok al2" "message_copy (chunk_ref d) al1 = Some (Inr d, al2)"
      using message_copy_ok [OF al1] by blast
    ultimately show ?thesis
      using False by (auto simp: queue_insert_missing queue_put_def index c_load_def c_store_def)
  qed
qed

lemma queue_append_cases:
  "\<exists>st q' al'. queue_append q t a (chunk_ref d) al = Some (st, q', al') \<and>
    (st = KIT_OK \<and> q' = q @ [ready_message (t, a, d)] \<or> st = PEER_ERROR_BAD_ALLOC \<and> q' = q)"
proof -
  obtain q1 al1 where r: "da_resize (\<lambda>_ _. zero_message) (Suc (length q)) q al = (q1, al1)"
    by fastforce
  obtain r' al3 where c: "message_copy (chunk_ref d) al1 = Some (r', al3)" "r' = Inr d \<or> r' = Inl []"
    by (rule message_copy_total)
  have "q1 = q \<or> q1 = q @ [zero_message]" using da_resize_cases [OF r] by auto
  then show ?thesis using r c by (auto simp: queue_append_def da_resize_def)
qed

lemma queue_insert_undefined [simp]: "queue_insert nd q (- 1) t a d al = Some (KIT_OK, q, al)"
  by (simp add: queue_insert_def)

text \<open>Any outcome of an insertion, whatever the allocator answers.\<close>

lemma queue_insert_cases:
  assumes "queue_insert nd q index t a (chunk_ref d) al = Some (st, q', al')"
  shows "queue_get q' = queue_get q \<or>
    (0 \<le> index \<and> st = KIT_OK \<and> q' = queue_put q (nat index) (t, a, d))"
proof (cases "index < 0 \<or> nat index < length q \<and> is_ready (q ! nat index)")
  case True
  then show ?thesis using assms
    by (auto simp: queue_insert_def c_load_def c_assert_def split: if_splits)
next
  case False
  define i where "i = nat index"
  with False have index: "index = int i" and i: "\<not> (i < length q \<and> is_ready (q ! i))" by auto
  obtain grown q1 al1 where grow: "queue_grow q (int i) al = Some (grown, q1, al1)"
    using assms by (cases "queue_grow q (int i) al") (auto simp: queue_insert_missing [OF i] index)
  obtain r al2 where c: "message_copy (chunk_ref d) al1 = Some (r, al2)" "r = Inr d \<or> r = Inl []"
    by (rule message_copy_total)
  show ?thesis
  proof (cases grown)
    case False
    then show ?thesis
      using assms grow queue_grow_cases [OF grow] by (auto simp: queue_insert_missing [OF i] index)
  next
    case True
    then have q1: "q1 = q @ replicate (Suc i - length q) zero_message"
      using queue_grow_cases [OF grow] by simp
    then have len: "i < length q1" by simp
    have kept: "queue_get (q1[i := (q1 ! i)\<lparr>message_data := []\<rparr>]) = queue_get q"
      using i by (auto simp: fun_eq_iff queue_get_def q1 nth_list_update nth_append)
    have put: "queue_put q i (t, a, d) =
        q1[i := \<lparr>is_ready = True, message_time = t, message_actor = a, message_data = d\<rparr>]"
      using i by (auto simp: queue_put_def q1)
    from c(2) show ?thesis
      using assms grow True c(1) len kept put by (auto simp: queue_insert_missing [OF i] index)
  qed
qed

text \<open>The messages of a queue after an insertion, whatever its outcome: those it had, padding, the new
  message, or one whose data was lost to a refused allocation.\<close>

lemma queue_insert_set:
  assumes "queue_insert nd q index t a (chunk_ref d) al = Some (st, q', al')"
  shows "length q \<le> length q'" and "set q' \<subseteq> set q \<union> {zero_message, ready_message (t, a, d)} \<union>
    {m\<lparr>message_data := []\<rparr> |m. m \<in> set q \<and> \<not> is_ready m}"
proof -
  have "length q \<le> length q' \<and> set q' \<subseteq> set q \<union> {zero_message, ready_message (t, a, d)} \<union>
    {m\<lparr>message_data := []\<rparr> |m. m \<in> set q \<and> \<not> is_ready m}"
  proof (cases "index < 0 \<or> nat index < length q \<and> is_ready (q ! nat index)")
    case True
    then show ?thesis using assms
      by (auto simp: queue_insert_def c_load_def c_assert_def split: if_splits)
  next
    case False
    define i where "i = nat index"
    with False have index: "index = int i" and i: "\<not> (i < length q \<and> is_ready (q ! i))" by auto
    obtain grown q1 al1 where grow: "queue_grow q (int i) al = Some (grown, q1, al1)"
      using assms by (cases "queue_grow q (int i) al") (auto simp: queue_insert_missing [OF i] index)
    obtain r al2 where c: "message_copy (chunk_ref d) al1 = Some (r, al2)" "r = Inr d \<or> r = Inl []"
      by (rule message_copy_total)
    have q1: "q1 = (if grown then q @ replicate (Suc i - length q) zero_message else q)"
      using queue_grow_cases [OF grow] by (simp split: if_splits)
    have "q1 ! i = (if i < length q then q ! i else zero_message)" if grown
      using that q1 by (simp add: nth_append)
    moreover have "zero_message\<lparr>message_data := []\<rparr> = zero_message" by (simp add: zero_message_def)
    ultimately show ?thesis
      using assms grow c i
      by (auto simp: queue_insert_missing [OF i] index q1 dest!: subsetD [OF set_update_subset_insert]
          split: if_splits)
  qed
  then show "length q \<le> length q'" and "set q' \<subseteq> set q \<union> {zero_message, ready_message (t, a, d)} \<union>
    {m\<lparr>message_data := []\<rparr> |m. m \<in> set q \<and> \<not> is_ready m}" by simp_all
qed

text \<open>A list of messages inserted one after the other.\<close>

fun queue_insert_all ::
  "bool \<Rightarrow> peer_queue_t \<Rightarrow> (nat \<times> entry) list \<Rightarrow> kit_allocator_t \<Rightarrow> (peer_queue_t \<times> kit_allocator_t) option" where
  "queue_insert_all nd q [] al = Some (q, al)"
| "queue_insert_all nd q ((i, t, a, d) # ms) al = do {
     (st, q', al') \<leftarrow> queue_insert nd q (int i) t a (chunk_ref d) al;
     queue_insert_all nd q' ms al'
   }"

lemma queue_insert_all_ok:
  assumes "alloc_ok al" and "\<forall>i \<in> fst ` set ms. int i < INT64_MAX"
  shows "\<exists>al'. alloc_ok al' \<and> queue_insert_all nd q ms al = Some (queue_log.puts q ms, al')"
  using assms
proof (induction nd q ms al rule: queue_insert_all.induct)
  case (2 nd q i t a d ms al)
  obtain al' where "alloc_ok al'" "queue_insert nd q (int i) t a (chunk_ref d) al =
      Some (KIT_OK, queue_put q i (t, a, d), al')"
    using queue_insert_ok [OF "2.prems"(1), of "int i" nd q t a d] "2.prems"(2) by auto
  then show ?case using "2.IH" "2.prems" by fastforce
qed simp

lemma queue_at_puts:
  "queue_at (queue_log.puts q ms) k =
     (if is_ready (queue_at q k) then queue_at q k
      else case map_of ms k of Some e \<Rightarrow> ready_message e | None \<Rightarrow> queue_at q k)"
proof (induction ms arbitrary: q)
  case (Cons im ms)
  obtain i e where "im = (i, e)" by (cases im)
  then show ?case using Cons.IH [of "queue_put q i e"] by (auto simp: queue_at_put split: option.split)
qed simp

lemma queue_puts_length:
  "length (queue_log.puts q ms) = Max (insert (length q) (Suc ` fst ` set ms))"
proof (induction ms arbitrary: q)
  case (Cons im ms)
  obtain i e where im: "im = (i, e)" by (cases im)
  have "Max (insert (max (length q) (Suc i)) (Suc ` fst ` set ms)) =
      Max (insert (length q) (insert (Suc i) (Suc ` fst ` set ms)))"
    by (cases "Suc ` fst ` set ms = {}") (auto simp: max.assoc)
  then show ?case using Cons.IH [of "queue_put q i e"] by (simp add: im queue_put_length)
qed simp

lemma queue_puts_same:
  assumes "\<forall>(i, e) \<in> set ms \<union> set ms'. src i = Some e" and "fst ` set ms = fst ` set ms'"
  shows "queue_log.puts q ms = queue_log.puts q ms'"
proof (rule queue_eqI)
  show "length (queue_log.puts q ms) = length (queue_log.puts q ms')"
    by (simp add: queue_puts_length assms(2))
  have of_source: "map_of xs i = (if i \<in> fst ` set xs then src i else None)"
    if "\<forall>(i, e) \<in> set xs. src i = Some e" for xs :: "(nat \<times> entry) list" and i
    using that by (induction xs) (auto split: if_splits)
  show "queue_at (queue_log.puts q ms) k = queue_at (queue_log.puts q ms') k" for k
    using assms by (simp add: queue_at_puts of_source)
qed

lemmas queue_run = queue_insert_def queue_grow_def c_add_def is_int64_def da_resize_def
  message_copy_def da_init_bytes_def chunk_ref_def c_load_def c_store_def zero_message_def

subsection \<open>Properties\<close>

text \<open>The queue a receiver ends up with does not depend on the order in which messages arrive, nor on
  how often each one arrives: inserting two lists of messages of one sender (the sender has one message
  per index) that mention the same indices gives the same queue.\<close>

theorem queue_insert_order_independent:
  assumes "\<forall>(i, e) \<in> set ms \<union> set ms'. src i = Some e" and "fst ` set ms = fst ` set ms'"
    and "\<forall>i \<in> fst ` set ms. int i < INT64_MAX" and "alloc_ok al" and "alloc_ok al2"
  shows "\<exists>q' al' al''. queue_insert_all nd q ms al = Some (q', al') \<and>
    queue_insert_all nd q ms' al2 = Some (q', al'')"
  using queue_insert_all_ok [OF assms(4), of ms nd q] queue_insert_all_ok [OF assms(5), of ms' nd q]
    queue_puts_same [OF assms(1,2), of q] assms(2,3) by auto

theorem queue_insert_order_independent_witness:
  "\<exists>q' al' al''. queue_insert_all False [] [(2, 5, 0, [9]), (0, 3, 1, [7, 7]), (2, 5, 0, [9])] [] = Some (q', al') \<and>
    queue_insert_all False [] [(0, 3, 1, [7, 7]), (2, 5, 0, [9])] [] = Some (q', al'')"
  by (rule queue_insert_order_independent [where src = "[0 \<mapsto> (3, 1, [7, 7]), 2 \<mapsto> (5, 0, [9])]"]) auto

text \<open>C26. \<open>queue_insert\<close> against the abstract log, when no allocation fails: it stores the message under its
  index exactly when that index holds none yet, and touches no other index; an undefined index (-1) and
  one that is taken leave the queue as it is.\<close>

theorem queue_insert_refines_log:
  assumes "alloc_ok al" and "- 1 \<le> index" and "index < INT64_MAX"
  shows "\<exists>q' al'. queue_insert nd q index t a (chunk_ref d) al = Some (KIT_OK, q', al') \<and>
    (\<forall>k. queue_get q' k =
      (if int k = index \<and> queue_get q k = None then Some (t, a, d) else queue_get q k)) \<and>
    length q' = (if index = - 1 then length q else max (length q) (nat index + 1))"
proof (cases "index = - 1")
  case True
  then show ?thesis by simp
next
  case False
  obtain al' where "queue_insert nd q index t a (chunk_ref d) al =
      Some (KIT_OK, queue_put q (nat index) (t, a, d), al')"
    using queue_insert_ok [OF assms(1), of index nd q t a d] assms(2,3) False by auto
  then show ?thesis
    using assms(2) False by (auto simp: queue_log.get_put queue_put_length)
qed

theorem queue_insert_refines_log_witness:
  "\<exists>q' al'. queue_insert False [zero_message] 2 4 1 (chunk_ref [1, 2]) [] = Some (KIT_OK, q', al') \<and>
    (\<forall>k. queue_get q' k =
      (if int k = 2 \<and> queue_get [zero_message] k = None then Some (4, 1, [1, 2])
       else queue_get [zero_message] k)) \<and>
    length q' = (if (2 :: int) = - 1 then length [zero_message] else max (length [zero_message]) (nat 2 + 1))"
  by (rule queue_insert_refines_log) auto

text \<open>A message once in the queue stays there unchanged, whatever is inserted after it and whatever
  the allocator answers, including when the insertion fails half-way.\<close>

theorem queue_insert_preserves:
  assumes "queue_insert nd q index t a (chunk_ref d) al = Some (st, q', al')"
    and "queue_get q k = Some e"
  shows "queue_get q' k = Some e"
  using queue_insert_cases [OF assms(1)] assms(2) by (auto simp: queue_log.get_put)

theorem queue_insert_preserves_witness:
  "queue_get (ready_message (1, 2, [3]) # replicate 5 zero_message) 0 = Some (1, 2, [3])"
proof -
  have "queue_insert False [ready_message (1, 2, [3])] 5 4 1 (chunk_ref [1, 2]) [Some (\<lambda>_. 0), None] =
      Some (PEER_ERROR_BAD_ALLOC, ready_message (1, 2, [3]) # replicate 5 zero_message, [])"
    by (simp add: queue_run upt_rec numeral_eq_Suc)
  then show ?thesis
    by (rule queue_insert_preserves) (simp add: queue_get_def message_entry_def)
qed

text \<open>\<open>queue_append\<close> always returns; it either appends the ready message and reports
  \<open>KIT_OK\<close>, or reports \<open>PEER_ERROR_BAD_ALLOC\<close> and leaves the queue as it was.\<close>

theorem queue_append_all_or_nothing:
  "\<exists>st q' al'. queue_append q t a (chunk_ref d) al = Some (st, q', al') \<and>
    (st = KIT_OK \<and> q' = q @ [ready_message (t, a, d)] \<or> st = PEER_ERROR_BAD_ALLOC \<and> q' = q)"
  by (rule queue_append_cases)

end
