(* ===== verification/Peer_State.thy ===== *)
theory Peer_State
  imports Peer_Queue
begin

text \<open>
  The state of a peer (\<open>source/peer/peer.h\<close>) and the operations of \<open>source/peer/peer.c\<close> that set
  it up: \<open>peer_init\<close>, \<open>peer_open\<close>, \<open>peer_destroy\<close>, \<open>peer_queue\<close> and \<open>peer_connect\<close>. The C
  structs are records; the field \<open>alloc\<close> of \<open>peer_t\<close> holds the allocator (its coming answers),
  so every operation that allocates consumes them. The Mersenne twister of the kit library is a
  parameter: its state is the type variable, its functions the record \<open>mt64_ops\<close>.

  An operation takes a pointer to the peer, \<^const>\<open>None\<close> for \<open>NULL\<close>; \<open>with_peer\<close> is the check
  every operation begins with, and the body of the operation on a valid pointer is a definition of
  its own.
\<close>

subsection \<open>Data\<close>

record peer_endpoint_t =
  endpoint_id :: ptrdiff_t
  is_id_resolved :: bool
  is_address_resolved :: bool
  address_size :: ptrdiff_t
  address_data :: "byte list"

text \<open>A C enum can hold a value that is none of its constants; the last constructor of each enum
  stands for those.\<close>

datatype peer_slot_state_t =
  PEER_SLOT_EMPTY | PEER_SLOT_SESSION_REQUEST | PEER_SLOT_READY | PEER_SLOT_INVALID

record peer_slot_t =
  slot_state :: peer_slot_state_t
  slot_local :: peer_endpoint_t
  slot_remote :: peer_endpoint_t
  slot_queue :: peer_queue_t
  slot_actor :: ptrdiff_t
  in_index :: ptrdiff_t
  out_index :: ptrdiff_t
  clock_heartbeat :: peer_time_t

type_synonym peer_slots_t = "peer_slot_t list"

record peer_ids_ref_t =
  ids_size :: ptrdiff_t
  ids_values :: "ptrdiff_t list option"

datatype peer_mode_t = PEER_HOST | PEER_CLIENT | PEER_MODE_INVALID

record 'r peer_t =
  peer_alloc :: kit_allocator_t
  peer_mode :: peer_mode_t
  peer_time :: peer_time_t
  peer_time_local :: peer_time_t
  peer_actor :: ptrdiff_t
  peer_slots :: peer_slots_t
  mutual_queue :: peer_queue_t
  queue_index :: ptrdiff_t
  peer_mt64 :: 'r

text \<open>The generator of the kit library, a parameter of the operations that use it.\<close>

record 'r mt64_ops =
  mt64_init :: "64 word \<Rightarrow> 'r"
  mt64_rotate :: "'r \<Rightarrow> 'r"
  mt64_generate :: "'r \<Rightarrow> 64 word \<times> 'r"

definition zero_endpoint :: peer_endpoint_t where
  "zero_endpoint = \<lparr>endpoint_id = 0, is_id_resolved = False, is_address_resolved = False,
     address_size = 0, address_data = replicate (nat PEER_ADDRESS_SIZE) 0\<rparr>"

definition zero_slot :: peer_slot_t where
  "zero_slot = \<lparr>slot_state = PEER_SLOT_EMPTY, slot_local = zero_endpoint, slot_remote = zero_endpoint,
     slot_queue = [], slot_actor = 0, in_index = 0, out_index = 0, clock_heartbeat = 0\<rparr>"

subsection \<open>Operations\<close>

definition with_peer ::
  "bool \<Rightarrow> 'p option \<Rightarrow> ('p \<Rightarrow> (kit_status_t \<times> 'p) option) \<Rightarrow> (kit_status_t \<times> 'p option) option" where
  "with_peer nd peer body =
     (case peer of
        None \<Rightarrow> do { c_assert nd False; Some (PEER_ERROR_INVALID_PEER, None) }
      | Some p \<Rightarrow> do { (status, p') \<leftarrow> body p; Some (status, Some p') })"

definition peer_init_body ::
  "'r mt64_ops \<Rightarrow> bool \<Rightarrow> peer_mode_t \<Rightarrow> kit_allocator_t \<Rightarrow> 'r peer_t \<Rightarrow> (kit_status_t \<times> 'r peer_t) option" where
  "peer_init_body M nd mode alloc peer = do {
     c_assert nd (mode = PEER_HOST \<or> mode = PEER_CLIENT);
     if mode \<noteq> PEER_HOST \<and> mode \<noteq> PEER_CLIENT then Some (PEER_ERROR_INVALID_MODE, peer)
     else Some (KIT_OK,
       \<lparr>peer_alloc = alloc, peer_mode = mode, peer_time = 0, peer_time_local = 0,
        peer_actor = (if mode = PEER_HOST then 0 else PEER_UNDEFINED),
        peer_slots = [], mutual_queue = [], queue_index = 0,
        peer_mt64 = mt64_rotate M (mt64_init M 12345)\<rparr>)
   }"

definition peer_init ::
  "'r mt64_ops \<Rightarrow> bool \<Rightarrow> 'r peer_t option \<Rightarrow> peer_mode_t \<Rightarrow> kit_allocator_t \<Rightarrow>
   (kit_status_t \<times> 'r peer_t option) option" where
  "peer_init M nd peer mode alloc = with_peer nd peer (peer_init_body M nd mode alloc)"

text \<open>The loop of \<open>peer_open\<close>: slots for the ids from position \<open>i\<close> on.\<close>

definition open_slot :: "peer_mode_t \<Rightarrow> ptrdiff_t \<Rightarrow> ptrdiff_t \<Rightarrow> peer_slot_t" where
  "open_slot mode i lid = zero_slot
     \<lparr>slot_local := zero_endpoint\<lparr>endpoint_id := lid, is_id_resolved := True\<rparr>,
      slot_remote := zero_endpoint\<lparr>endpoint_id := PEER_UNDEFINED\<rparr>,
      slot_actor := (if mode = PEER_HOST then i else PEER_UNDEFINED)\<rparr>"

fun open_slots :: "peer_mode_t \<Rightarrow> ptrdiff_t list \<Rightarrow> nat \<Rightarrow> nat \<Rightarrow> peer_slots_t option" where
  "open_slots mode values i 0 = Some []"
| "open_slots mode values i (Suc n) = do {
     lid \<leftarrow> c_load values (int i);
     slots \<leftarrow> open_slots mode values (Suc i) n;
     Some (open_slot mode (int i) lid # slots)
   }"

text \<open>A negative number of ids ends in a \<open>memset\<close> of a negative size, which is a fault.\<close>

definition peer_open_body ::
  "bool \<Rightarrow> peer_ids_ref_t \<Rightarrow> 'r peer_t \<Rightarrow> (kit_status_t \<times> 'r peer_t) option" where
  "peer_open_body nd ids peer = do {
     c_assert nd (ids_size ids = 0 \<or> ids_values ids \<noteq> None);
     if ids_size ids = 0 then Some (KIT_OK, peer)
     else case ids_values ids of
       None \<Rightarrow> Some (PEER_ERROR_INVALID_ID, peer)
     | Some values \<Rightarrow>
         (if ids_size ids < 0 then None
          else (let n = length (peer_slots peer);
              (slots1, al1) = da_resize (\<lambda>_ _. zero_slot) (n + nat (ids_size ids)) (peer_slots peer)
                (peer_alloc peer)
            in do {
              c_assert nd (int (length slots1) = int n + ids_size ids);
              if int (length slots1) \<noteq> int n + ids_size ids
              then (let (slots2, al2) = da_resize (\<lambda>_ _. zero_slot) n slots1 al1 in
                Some (PEER_ERROR_BAD_ALLOC, peer\<lparr>peer_slots := slots2, peer_alloc := al2\<rparr>))
              else do {
                new \<leftarrow> open_slots (peer_mode peer) values 0 (nat (ids_size ids));
                Some (KIT_OK, peer\<lparr>peer_slots := take n slots1 @ new, peer_alloc := al1\<rparr>)
              }
            }))
   }"

definition peer_open ::
  "bool \<Rightarrow> 'r peer_t option \<Rightarrow> peer_ids_ref_t \<Rightarrow> (kit_status_t \<times> 'r peer_t option) option" where
  "peer_open nd peer ids = with_peer nd peer (peer_open_body nd ids)"

text \<open>What \<open>peer_destroy\<close> hands to \<open>DA_DESTROY\<close>, in order.\<close>

datatype kit_array = DA_chunk peer_chunk_t | DA_queue peer_queue_t | DA_slots peer_slots_t

definition queue_destroy :: "peer_queue_t \<Rightarrow> kit_array list" where
  "queue_destroy q = map (\<lambda>m. DA_chunk (message_data m)) q @ [DA_queue q]"

definition peer_destroy :: "bool \<Rightarrow> 'r peer_t option \<Rightarrow> (kit_status_t \<times> kit_array list) option" where
  "peer_destroy nd peer =
     (case peer of
        None \<Rightarrow> do { c_assert nd False; Some (PEER_ERROR_INVALID_PEER, []) }
      | Some p \<Rightarrow> Some (KIT_OK,
          concat (map (\<lambda>slot. queue_destroy (slot_queue slot)) (peer_slots p)) @
          [DA_slots (peer_slots p)] @ queue_destroy (mutual_queue p)))"

definition peer_queue_body ::
  "bool \<Rightarrow> peer_chunk_ref_t \<Rightarrow> 'r peer_t \<Rightarrow> (kit_status_t \<times> 'r peer_t) option" where
  "peer_queue_body nd data peer = do {
     c_assert nd (ref_size data = 0 \<or> ref_values data \<noteq> None);
     if ref_size data = 0 \<and> ref_values data = None then Some (PEER_ERROR_INVALID_MESSAGE, peer)
     else case (peer_mode peer, peer_slots peer) of
       (PEER_HOST, _) \<Rightarrow> do {
         (status, q, al) \<leftarrow>
           queue_append (mutual_queue peer) 0 (peer_actor peer) data (peer_alloc peer);
         Some (status, peer\<lparr>mutual_queue := q, peer_alloc := al\<rparr>)
       }
     | (PEER_CLIENT, slot # slots) \<Rightarrow> do {
         (status, q, al) \<leftarrow> queue_append (slot_queue slot) 0 (peer_actor peer) data (peer_alloc peer);
         Some (status, peer\<lparr>peer_slots := slot\<lparr>slot_queue := q\<rparr> # slots, peer_alloc := al\<rparr>)
       }
     | _ \<Rightarrow> Some (PEER_ERROR_INVALID_MODE, peer)
   }"

definition peer_queue ::
  "bool \<Rightarrow> 'r peer_t option \<Rightarrow> peer_chunk_ref_t \<Rightarrow> (kit_status_t \<times> 'r peer_t option) option" where
  "peer_queue nd peer data = with_peer nd peer (peer_queue_body nd data)"

fun connect_slots :: "ptrdiff_t \<Rightarrow> peer_slots_t \<Rightarrow> peer_slots_t option" where
  "connect_slots server_id [] = None"
| "connect_slots server_id (slot # slots) =
     (if endpoint_id (slot_remote slot) = PEER_UNDEFINED
      then Some (slot\<lparr>slot_remote := (slot_remote slot)
             \<lparr>endpoint_id := server_id, is_id_resolved := True, address_size := 0\<rparr>\<rparr> # slots)
      else map_option (\<lambda>slots'. slot # slots') (connect_slots server_id slots))"

definition peer_connect_body :: "ptrdiff_t \<Rightarrow> 'r peer_t \<Rightarrow> (kit_status_t \<times> 'r peer_t) option" where
  "peer_connect_body server_id client =
     (case connect_slots server_id (peer_slots client) of
        Some slots \<Rightarrow> Some (KIT_OK, client\<lparr>peer_slots := slots\<rparr>)
      | None \<Rightarrow> Some (PEER_ERROR_NO_FREE_SLOTS, client))"

definition peer_connect ::
  "bool \<Rightarrow> 'r peer_t option \<Rightarrow> ptrdiff_t \<Rightarrow> (kit_status_t \<times> 'r peer_t option) option" where
  "peer_connect nd client server_id = with_peer nd client (peer_connect_body server_id)"

subsection \<open>Well-formed peers\<close>

text \<open>
  What holds of every peer the operations build. A message can be written to the wire. Address sizes stay
  within the address, indices within the queue they point into. On a host, the mutual queue has no gaps,
  every slot has an actor, a slot no client has taken has an empty queue, and the messages of a slot's queue
  carry the slot's actor. On a client, the queues of its own messages have no gaps.
\<close>

definition message_wf :: "peer_message_t \<Rightarrow> bool" where
  "message_wf m \<longleftrightarrow> entry_ok (message_entry m)"

definition endpoint_wf :: "peer_endpoint_t \<Rightarrow> bool" where
  "endpoint_wf e \<longleftrightarrow> length (address_data e) = 64 \<and> 0 \<le> address_size e \<and> address_size e \<le> 64"

definition slot_wf :: "peer_slot_t \<Rightarrow> bool" where
  "slot_wf slot \<longleftrightarrow> endpoint_wf (slot_local slot) \<and> endpoint_wf (slot_remote slot) \<and>
     list_all message_wf (slot_queue slot) \<and> slot_state slot \<noteq> PEER_SLOT_INVALID \<and>
     0 \<le> in_index slot \<and> in_index slot \<le> int (length (slot_queue slot)) \<and>
     0 \<le> out_index slot"

definition host_slot_wf :: "peer_queue_t \<Rightarrow> peer_slot_t \<Rightarrow> bool" where
  "host_slot_wf q slot \<longleftrightarrow> out_index slot \<le> int (length q) \<and>
     0 \<le> slot_actor slot \<and> slot_actor slot \<le> 0xffffffff \<and>
     (endpoint_id (slot_remote slot) = PEER_UNDEFINED \<longrightarrow> slot_queue slot = []) \<and>
     list_all (\<lambda>m. is_ready m \<longrightarrow> message_actor m = slot_actor slot) (slot_queue slot)"

definition client_slot_wf :: "peer_slot_t \<Rightarrow> bool" where
  "client_slot_wf slot \<longleftrightarrow> out_index slot \<le> int (length (slot_queue slot)) \<and>
     list_all is_ready (slot_queue slot)"

definition mode_slot_wf :: "peer_mode_t \<Rightarrow> peer_queue_t \<Rightarrow> peer_slot_t \<Rightarrow> bool" where
  "mode_slot_wf mode q slot \<longleftrightarrow> slot_wf slot \<and>
     (if mode = PEER_HOST then host_slot_wf q slot else client_slot_wf slot)"

definition queue_wf :: "peer_mode_t \<Rightarrow> peer_queue_t \<Rightarrow> bool" where
  "queue_wf mode q \<longleftrightarrow> list_all message_wf q \<and>
     (mode = PEER_HOST \<longrightarrow> list_all (\<lambda>m. is_ready m \<and> 0 \<le> message_actor m) q)"

definition peer_wf :: "'r peer_t \<Rightarrow> bool" where
  "peer_wf peer \<longleftrightarrow> peer_mode peer \<noteq> PEER_MODE_INVALID \<and>
     list_all (mode_slot_wf (peer_mode peer) (mutual_queue peer)) (peer_slots peer) \<and>
     int (length (peer_slots peer)) \<le> 0xffffffff \<and>
     queue_wf (peer_mode peer) (mutual_queue peer) \<and>
     0 \<le> queue_index peer \<and> queue_index peer \<le> int (length (mutual_queue peer)) \<and>
     is_int64 (peer_time peer) \<and> 0 \<le> peer_time_local peer \<and> peer_time_local peer \<le> INT64_MAX \<and>
     - 1 \<le> peer_actor peer \<and> peer_actor peer \<le> 0xffffffff \<and>
     (peer_mode peer = PEER_HOST \<longrightarrow> peer_actor peer = 0)"

lemmas wf_defs = slot_wf_def host_slot_wf_def client_slot_wf_def endpoint_wf_def message_wf_def
  entry_ok_def message_entry_def

lemma zero_message_wf [simp]: "message_wf zero_message"
  by (simp add: wf_defs zero_message_def is_int64_def)

lemma ready_message_wf [simp]:
  "message_wf (ready_message e) \<longleftrightarrow> entry_ok e"
  "message_wf \<lparr>is_ready = b, message_time = t, message_actor = a, message_data = d\<rparr> \<longleftrightarrow> entry_ok (t, a, d)"
  by (cases e; simp add: message_wf_def message_entry_def)+

lemma message_wf_data: "message_wf m \<Longrightarrow> message_wf (m\<lparr>message_data := []\<rparr>)"
  by (simp add: wf_defs)

lemma open_slot_wf:
  "0 \<le> i \<Longrightarrow> i \<le> 0xffffffff \<Longrightarrow> mode_slot_wf mode q (open_slot mode i lid)"
  by (simp add: mode_slot_wf_def wf_defs open_slot_def zero_slot_def zero_endpoint_def)

lemma mode_slot_wf_mono:
  "mode_slot_wf mode q slot \<Longrightarrow> length q \<le> length q' \<Longrightarrow> mode_slot_wf mode q' slot"
  by (auto simp: mode_slot_wf_def host_slot_wf_def split: if_splits)

lemma mode_slots_wf_mono:
  "list_all (mode_slot_wf mode q) slots \<Longrightarrow> length q \<le> length q' \<Longrightarrow> list_all (mode_slot_wf mode q') slots"
  by (auto simp: list_all_iff intro: mode_slot_wf_mono)

text \<open>What an operation has to show to keep a peer well-formed when it changes the slots, or one of
  them, or the mutual queue.\<close>

lemma peer_wf_slots:
  assumes "peer_wf peer" and "list_all (mode_slot_wf (peer_mode peer) (mutual_queue peer)) slots"
    and "int (length slots) \<le> 0xffffffff"
  shows "peer_wf (peer\<lparr>peer_slots := slots\<rparr>)"
  using assms by (simp add: peer_wf_def)

lemma peer_wf_slot:
  assumes "peer_wf peer" and "j < length (peer_slots peer)"
    and "mode_slot_wf (peer_mode peer) (mutual_queue peer) (peer_slots peer ! j) \<Longrightarrow>
      mode_slot_wf (peer_mode peer) (mutual_queue peer) slot"
  shows "peer_wf (peer\<lparr>peer_slots := (peer_slots peer)[j := slot]\<rparr>)"
proof -
  have "list_all (mode_slot_wf (peer_mode peer) (mutual_queue peer)) (peer_slots peer)"
    using assms(1) by (simp add: peer_wf_def)
  then have "list_all (mode_slot_wf (peer_mode peer) (mutual_queue peer)) ((peer_slots peer)[j := slot])"
    using assms(2,3) by (simp add: list_all_length nth_list_update)
  then show ?thesis using assms(1) by (simp add: peer_wf_def)
qed

lemma peer_wf_queue:
  assumes "peer_wf peer" and "queue_wf (peer_mode peer) q" and "length (mutual_queue peer) \<le> length q"
  shows "peer_wf (peer\<lparr>mutual_queue := q\<rparr>)"
  using assms mode_slots_wf_mono [of "peer_mode peer" "mutual_queue peer" "peer_slots peer" q]
  by (simp add: peer_wf_def)

lemma peer_wf_alloc [simp]: "peer_wf (peer\<lparr>peer_alloc := al\<rparr>) = peer_wf peer"
  by (simp add: peer_wf_def)

subsection \<open>The operations in closed form\<close>

lemma peer_init_body_wf:
  assumes "peer_init_body M nd mode al p = Some (KIT_OK, peer)"
  shows "peer_wf peer"
  using assms by (cases mode) (auto simp: peer_init_body_def c_assert_def peer_wf_def queue_wf_def
      is_int64_def split: if_splits)

lemma open_slots_eq:
  assumes "i + n \<le> length values"
  shows "open_slots mode values i n =
    Some (map (\<lambda>k. open_slot mode (int k) (values ! k)) [i..<i + n])"
  using assms by (induction mode "values" i n rule: open_slots.induct) (auto simp: upt_rec)

text \<open>The slots for a list of ids.\<close>

definition new_slots :: "peer_mode_t \<Rightarrow> ptrdiff_t list \<Rightarrow> peer_slots_t" where
  "new_slots mode ids = map (\<lambda>k. open_slot mode (int k) (ids ! k)) [0..<length ids]"

definition ids_ref :: "ptrdiff_t list \<Rightarrow> peer_ids_ref_t" where
  "ids_ref ids = \<lparr>ids_size = int (length ids), ids_values = Some ids\<rparr>"

lemma peer_open_body_eq:
  "peer_open_body nd (ids_ref ids) peer =
    (if ids = [] then Some (KIT_OK, peer)
     else case kit_request (peer_alloc peer) of
       (Some f, al) \<Rightarrow> Some (KIT_OK, peer
          \<lparr>peer_slots := peer_slots peer @ new_slots (peer_mode peer) ids, peer_alloc := al\<rparr>)
     | (None, al) \<Rightarrow> if nd then Some (PEER_ERROR_BAD_ALLOC, peer\<lparr>peer_alloc := al\<rparr>) else None)"
  by (auto simp: peer_open_body_def ids_ref_def da_resize_def open_slots_eq new_slots_def c_assert_def
      split: prod.split option.split)

lemma new_slots_wf:
  assumes "int (length ids) \<le> 0xffffffff"
  shows "list_all (mode_slot_wf mode q) (new_slots mode ids)"
  using assms by (simp add: list_all_length new_slots_def open_slot_wf)

lemma peer_open_body_wf:
  assumes "peer_wf peer" and "peer_open_body nd (ids_ref ids) peer = Some (st, peer')"
    and "int (length (peer_slots peer) + length ids) \<le> 0xffffffff"
  shows "peer_wf peer'"
proof -
  let ?slots = "peer_slots peer @ new_slots (peer_mode peer) ids"
  have "list_all (mode_slot_wf (peer_mode peer) (mutual_queue peer)) (peer_slots peer)"
    using assms(1) by (simp add: peer_wf_def)
  then have "peer_wf (peer\<lparr>peer_slots := ?slots\<rparr>)"
    using assms(3) by (intro peer_wf_slots [OF assms(1)]) (simp_all add: new_slots_wf, simp add: new_slots_def)
  then have "peer_wf (peer\<lparr>peer_slots := ?slots, peer_alloc := al\<rparr>)" for al
    by (simp add: peer_wf_def)
  moreover have "peer' = peer \<or> (\<exists>al. peer' = peer\<lparr>peer_slots := ?slots, peer_alloc := al\<rparr>) \<or>
      (\<exists>al. peer' = peer\<lparr>peer_alloc := al\<rparr>)"
    using assms(2) by (auto simp: peer_open_body_eq split: if_splits option.splits prod.splits)
  ultimately show ?thesis using assms(1) by auto
qed

lemma connect_slots_None:
  "connect_slots server_id slots = None \<longleftrightarrow> (\<forall>slot \<in> set slots. endpoint_id (slot_remote slot) \<noteq> - 1)"
  by (induction slots) auto

lemma connect_slots_Some:
  "connect_slots server_id slots = Some slots' \<longleftrightarrow>
    (\<exists>j < length slots. (\<forall>k < j. endpoint_id (slot_remote (slots ! k)) \<noteq> - 1) \<and>
       endpoint_id (slot_remote (slots ! j)) = - 1 \<and>
       slots' = slots[j := (slots ! j)\<lparr>slot_remote := (slot_remote (slots ! j))
         \<lparr>endpoint_id := server_id, is_id_resolved := True, address_size := 0\<rparr>\<rparr>])"
proof (induction slots arbitrary: slots')
  case (Cons slot slots)
  show ?case
  proof (cases "endpoint_id (slot_remote slot) = - 1")
    case True
    then show ?thesis by (auto simp: Ex_less_Suc2 All_less_Suc2)
  next
    case False
    then show ?thesis by (simp add: Cons.IH Ex_less_Suc2 All_less_Suc2) blast
  qed
qed simp

lemma peer_connect_body_wf:
  assumes "peer_wf peer" and "peer_connect_body server_id peer = Some (st, peer')"
  shows "peer_wf peer'"
proof (cases "connect_slots server_id (peer_slots peer)")
  case None
  then show ?thesis using assms by (simp add: peer_connect_body_def)
next
  case (Some slots)
  then obtain j where j: "j < length (peer_slots peer)" "endpoint_id (slot_remote (peer_slots peer ! j)) = - 1"
    and slots: "slots = (peer_slots peer)[j := (peer_slots peer ! j)\<lparr>slot_remote :=
      (slot_remote (peer_slots peer ! j))
        \<lparr>endpoint_id := server_id, is_id_resolved := True, address_size := 0\<rparr>\<rparr>]"
    by (auto simp: connect_slots_Some)
  have "peer_wf (peer\<lparr>peer_slots := slots\<rparr>)"
    unfolding slots using j(2) by (intro peer_wf_slot [OF assms(1) j(1)]) (simp add: mode_slot_wf_def wf_defs split: if_splits)
  then show ?thesis using assms(2) Some by (simp add: peer_connect_body_def)
qed

lemma queue_append_Some:
  "queue_append q t a (chunk_ref d) al = Some (st, q', al') \<Longrightarrow> q' = q \<or> q' = q @ [ready_message (t, a, d)]"
  using queue_append_cases [of q t a d al] by auto

lemma client_slot_append:
  assumes "mode_slot_wf PEER_CLIENT q slot" and "entry_ok e"
  shows "mode_slot_wf PEER_CLIENT q (slot\<lparr>slot_queue := slot_queue slot @ [ready_message e]\<rparr>)"
  using assms by (simp add: mode_slot_wf_def slot_wf_def client_slot_wf_def)

lemma peer_queue_host_wf:
  assumes "peer_wf peer" and "peer_mode peer = PEER_HOST" and "length d \<le> 355"
    and "queue_append (mutual_queue peer) 0 (peer_actor peer) (chunk_ref d) al = Some (st, q, al')"
  shows "peer_wf (peer\<lparr>mutual_queue := q, peer_alloc := al'\<rparr>)"
proof -
  have "queue_wf PEER_HOST (mutual_queue peer)" and "peer_actor peer = 0"
    using assms(1,2) by (simp_all add: peer_wf_def)
  moreover have "entry_ok (0, 0, d)" using assms(3) by (simp add: entry_ok_def is_int64_def)
  ultimately have "queue_wf (peer_mode peer) q" and "length (mutual_queue peer) \<le> length q"
    using queue_append_Some [OF assms(4)] assms(2) by (auto simp: queue_wf_def)
  then have "peer_wf (peer\<lparr>mutual_queue := q\<rparr>)" by (rule peer_wf_queue [OF assms(1)])
  then show ?thesis by (simp add: peer_wf_def)
qed

lemma peer_queue_client_wf:
  assumes "peer_wf peer" and "peer_mode peer = PEER_CLIENT" and "peer_slots peer = slot # slots"
    and "length d \<le> 355"
    and "queue_append (slot_queue slot) 0 (peer_actor peer) (chunk_ref d) al = Some (st, q, al')"
  shows "peer_wf (peer\<lparr>peer_slots := slot\<lparr>slot_queue := q\<rparr> # slots, peer_alloc := al'\<rparr>)"
proof -
  have "entry_ok (0, peer_actor peer, d)"
    using assms(1,4) by (simp add: entry_ok_def is_int64_def peer_wf_def)
  then have "mode_slot_wf PEER_CLIENT (mutual_queue peer) (slot\<lparr>slot_queue := q\<rparr>)"
    if "mode_slot_wf PEER_CLIENT (mutual_queue peer) slot"
    using that queue_append_Some [OF assms(5)] client_slot_append by fastforce
  then have "peer_wf (peer\<lparr>peer_slots := (peer_slots peer)[0 := slot\<lparr>slot_queue := q\<rparr>]\<rparr>)"
    using assms(2,3) by (intro peer_wf_slot [OF assms(1)]) simp_all
  then show ?thesis using assms(3) by (simp add: peer_wf_def)
qed

text \<open>\<open>peer_queue\<close> on the data of a list.\<close>

lemma chunk_ref_sel: "ref_size (chunk_ref d) = int (length d)" "ref_values (chunk_ref d) = Some d"
  by (simp_all add: chunk_ref_def)

lemma peer_queue_body_eq:
  "peer_mode peer = PEER_HOST \<Longrightarrow> peer_queue_body nd (chunk_ref d) peer = do {
     (status, q, al) \<leftarrow> queue_append (mutual_queue peer) 0 (peer_actor peer) (chunk_ref d) (peer_alloc peer);
     Some (status, peer\<lparr>mutual_queue := q, peer_alloc := al\<rparr>) }"
  "peer_mode peer = PEER_CLIENT \<Longrightarrow> peer_slots peer = [] \<Longrightarrow>
    peer_queue_body nd (chunk_ref d) peer = Some (PEER_ERROR_INVALID_MODE, peer)"
  "peer_mode peer = PEER_CLIENT \<Longrightarrow> peer_slots peer = slot # slots \<Longrightarrow>
    peer_queue_body nd (chunk_ref d) peer = do {
     (status, q, al) \<leftarrow> queue_append (slot_queue slot) 0 (peer_actor peer) (chunk_ref d) (peer_alloc peer);
     Some (status, peer\<lparr>peer_slots := slot\<lparr>slot_queue := q\<rparr> # slots, peer_alloc := al\<rparr>) }"
  by (simp_all add: peer_queue_body_def chunk_ref_sel)

lemma peer_queue_body_wf:
  assumes "peer_wf peer" and "peer_queue_body nd (chunk_ref d) peer = Some (st, peer')"
    and "length d \<le> 355"
  shows "peer_wf peer'"
proof (cases "peer_mode peer")
  case PEER_HOST
  then show ?thesis
    using assms(2) peer_queue_host_wf [OF assms(1) PEER_HOST assms(3)]
    by (auto simp: peer_queue_body_eq dest!: bind_eq_SomeD)
next
  case PEER_CLIENT
  show ?thesis
  proof (cases "peer_slots peer")
    case Nil
    then show ?thesis using PEER_CLIENT assms(1,2) by (simp add: peer_queue_body_eq)
  next
    case (Cons slot slots)
    show ?thesis
      using assms(2) peer_queue_client_wf [OF assms(1) PEER_CLIENT Cons assms(3)]
      unfolding peer_queue_body_eq(3) [OF PEER_CLIENT Cons] by (auto dest!: bind_eq_SomeD)
  qed
next
  case PEER_MODE_INVALID
  then show ?thesis using assms(1) by (simp add: peer_wf_def)
qed

subsection \<open>A small host and a small client\<close>

text \<open>Concrete peers for the examples: a host with its own slot (id 10) and two slots with addresses for
  clients (ids 11 and 12), and a client (id 20) connected to id 10.\<close>

definition addressed_slot :: "ptrdiff_t \<Rightarrow> ptrdiff_t \<Rightarrow> peer_slot_t" where
  "addressed_slot i lid = (let slot = open_slot PEER_HOST i lid in
     slot\<lparr>slot_local := (slot_local slot)\<lparr>address_size := 6\<rparr>\<rparr>)"

definition example_host :: "unit peer_t" where
  "example_host = \<lparr>peer_alloc = [], peer_mode = PEER_HOST, peer_time = 0, peer_time_local = 0,
     peer_actor = 0, peer_slots = [open_slot PEER_HOST 0 10, addressed_slot 1 11, addressed_slot 2 12],
     mutual_queue = [ready_message (0, 0, [1, 2]), ready_message (0, 0, [3])],
     queue_index = 0, peer_mt64 = ()\<rparr>"

definition example_client :: "unit peer_t" where
  "example_client = \<lparr>peer_alloc = [], peer_mode = PEER_CLIENT, peer_time = 0, peer_time_local = 0,
     peer_actor = - 1, peer_slots = [(open_slot PEER_CLIENT 0 20)
       \<lparr>slot_remote := zero_endpoint\<lparr>endpoint_id := 10, is_id_resolved := True\<rparr>,
        slot_queue := [ready_message (0, - 1, [9])]\<rparr>],
     mutual_queue = [], queue_index = 0, peer_mt64 = ()\<rparr>"

lemmas example_defs = example_host_def example_client_def addressed_slot_def Let_def open_slot_def
  zero_slot_def zero_endpoint_def

lemma example_host_wf: "peer_wf example_host"
  by (simp add: example_defs peer_wf_def mode_slot_wf_def queue_wf_def wf_defs is_int64_def)

lemma example_client_wf: "peer_wf example_client"
  by (simp add: example_defs peer_wf_def mode_slot_wf_def queue_wf_def wf_defs is_int64_def)

subsection \<open>Properties\<close>

text \<open>\<open>peer_open\<close> adds one slot per id, in order, after the slots the peer has: the slot has the id,
  no remote, an empty queue, and on a host the actor is the position in the list of ids. When the
  allocation is refused the slots are as before and the status is \<open>PEER_ERROR_BAD_ALLOC\<close> (a debug build
  stops).\<close>

theorem peer_open_adds_slots:
  assumes "ids \<noteq> []"
  shows "peer_open nd (Some (peer\<lparr>peer_alloc := Some f # al\<rparr>)) (ids_ref ids) =
      Some (KIT_OK, Some (peer\<lparr>peer_alloc := al, peer_slots := peer_slots peer @
        map (\<lambda>k. open_slot (peer_mode peer) (int k) (ids ! k)) [0..<length ids]\<rparr>)) \<and>
    peer_open nd (Some (peer\<lparr>peer_alloc := None # al\<rparr>)) (ids_ref ids) =
      (if nd then Some (PEER_ERROR_BAD_ALLOC, Some (peer\<lparr>peer_alloc := al\<rparr>)) else None)"
  using assms by (simp add: peer_open_def with_peer_def peer_open_body_eq new_slots_def)

theorem peer_open_adds_slots_witness:
  "peer_open False (Some (example_client\<lparr>peer_alloc := Some (\<lambda>_. 7) # []\<rparr>)) (ids_ref [30, 31]) =
      Some (KIT_OK, Some (example_client\<lparr>peer_alloc := [], peer_slots := peer_slots example_client @
        map (\<lambda>k. open_slot (peer_mode example_client) (int k) ([30, 31] ! k)) [0..<length [30, 31 :: int]]\<rparr>)) \<and>
    peer_open False (Some (example_client\<lparr>peer_alloc := None # []\<rparr>)) (ids_ref [30, 31]) =
      (if False then Some (PEER_ERROR_BAD_ALLOC, Some (example_client\<lparr>peer_alloc := []\<rparr>)) else None)"
  by (rule peer_open_adds_slots) simp

text \<open>\<open>peer_connect\<close> takes the first slot without a remote and leaves every other slot alone; it
  reports \<open>PEER_ERROR_NO_FREE_SLOTS\<close>, and changes nothing, exactly when there is none.\<close>

theorem peer_connect_first_free:
  "(\<exists>j < length (peer_slots p). endpoint_id (slot_remote (peer_slots p ! j)) = PEER_UNDEFINED \<and>
     (\<forall>k < j. endpoint_id (slot_remote (peer_slots p ! k)) \<noteq> PEER_UNDEFINED) \<and>
     peer_connect nd (Some p) server_id = Some (KIT_OK, Some (p\<lparr>peer_slots := (peer_slots p)
       [j := (peer_slots p ! j)\<lparr>slot_remote := (slot_remote (peer_slots p ! j))
         \<lparr>endpoint_id := server_id, is_id_resolved := True, address_size := 0\<rparr>\<rparr>]\<rparr>))) \<or>
   (\<forall>slot \<in> set (peer_slots p). endpoint_id (slot_remote slot) \<noteq> PEER_UNDEFINED) \<and>
     peer_connect nd (Some p) server_id = Some (PEER_ERROR_NO_FREE_SLOTS, Some p)"
proof (cases "connect_slots server_id (peer_slots p)")
  case None
  then have "peer_connect nd (Some p) server_id = Some (PEER_ERROR_NO_FREE_SLOTS, Some p)"
    by (simp add: peer_connect_def with_peer_def peer_connect_body_def)
  then show ?thesis using None [unfolded connect_slots_None] by blast
next
  case (Some slots)
  then have "peer_connect nd (Some p) server_id = Some (KIT_OK, Some (p\<lparr>peer_slots := slots\<rparr>))"
    by (simp add: peer_connect_def with_peer_def peer_connect_body_def)
  then show ?thesis using Some [unfolded connect_slots_Some] by blast
qed

theorem peer_connect_first_free_witness:
  "(\<exists>j < length (peer_slots example_host).
     endpoint_id (slot_remote (peer_slots example_host ! j)) = PEER_UNDEFINED \<and>
     (\<forall>k < j. endpoint_id (slot_remote (peer_slots example_host ! k)) \<noteq> PEER_UNDEFINED) \<and>
     peer_connect False (Some example_host) 5 = Some (KIT_OK, Some (example_host\<lparr>peer_slots :=
       (peer_slots example_host)[j := (peer_slots example_host ! j)
         \<lparr>slot_remote := (slot_remote (peer_slots example_host ! j))
           \<lparr>endpoint_id := 5, is_id_resolved := True, address_size := 0\<rparr>\<rparr>]\<rparr>))) \<or>
   (\<forall>slot \<in> set (peer_slots example_host). endpoint_id (slot_remote slot) \<noteq> PEER_UNDEFINED) \<and>
     peer_connect False (Some example_host) 5 = Some (PEER_ERROR_NO_FREE_SLOTS, Some example_host)"
  by (rule peer_connect_first_free)

end
