(* ===== verification/Peer_Input.thy ===== *)
theory Peer_Input
  imports Peer_State
begin

text \<open>
  \<open>peer_input\<close> of \<open>source/peer/peer.c\<close>: what a peer does with the packets it receives. Each packet
  goes to the slot whose two ids it carries; its messages are service messages (heartbeat, and on a
  client the session response) or application messages, which are inserted into the slot's queue (host)
  or the mutual queue (client). On a host, a packet that matches no slot asks for a session and is given
  the first free slot.
\<close>

subsection \<open>Messages\<close>

record message_header =
  header_data_size :: ptrdiff_t
  header_mode :: byte
  header_index :: ptrdiff_t
  header_time :: peer_time_t
  header_actor :: ptrdiff_t

text \<open>What \<open>peer_input\<close> reads of a chunk (peer.c:292-300). The actor is assigned to a
  \<open>uint32_t\<close>, so the undefined actor becomes 4294967295.\<close>

definition read_header :: "bool \<Rightarrow> peer_chunk_t \<Rightarrow> message_header option" where
  "read_header nd chunk = do {
     data_size \<leftarrow> peer_read_message_data_size nd chunk 0;
     mode \<leftarrow> peer_read_message_mode chunk 0;
     index \<leftarrow> peer_read_message_index chunk 0;
     time \<leftarrow> peer_read_message_time chunk 0;
     actor \<leftarrow> peer_read_message_actor chunk 0;
     Some \<lparr>header_data_size = data_size, header_mode = mode, header_index = index,
       header_time = time, header_actor = uint (word_of_int actor :: 32 word)\<rparr>
   }"

definition data_ref :: "peer_chunk_t \<Rightarrow> message_header \<Rightarrow> peer_chunk_ref_t" where
  "data_ref chunk h =
     \<lparr>ref_size = header_data_size h, ref_values = Some (drop (nat PEER_N_MESSAGE_DATA) chunk)\<rparr>"

text \<open>The service id of a service message that has one.\<close>

definition read_service :: "peer_chunk_t \<Rightarrow> message_header \<Rightarrow> byte option option" where
  "read_service chunk h =
     (if header_mode h = PEER_MESSAGE_MODE_SERVICE \<and> header_data_size h \<ge> 1
      then map_option Some (peer_read_u8 chunk PEER_N_MESSAGE_DATA)
      else Some None)"

type_synonym 'r input_state = "kit_status_t \<times> 'r peer_t"

text \<open>A message in host mode (peer.c:302-363), \<open>j\<close> the slot it came in on.\<close>

definition input_host ::
  "bool \<Rightarrow> nat \<Rightarrow> peer_chunk_t \<Rightarrow> message_header \<Rightarrow> 'r input_state \<Rightarrow> 'r input_state option" where
  "input_host nd j chunk h = (\<lambda>(status, peer). do {
     slot \<leftarrow> c_load (peer_slots peer) (int j);
     c_assert nd (header_time h = 0);
     if header_time h \<noteq> 0 then Some (status OR PEER_ERROR_INVALID_MESSAGE_TIME, peer)
     else do {
       c_assert nd (header_actor h = slot_actor slot);
       if header_actor h \<noteq> slot_actor slot then Some (status OR PEER_ERROR_INVALID_MESSAGE_ACTOR, peer)
       else do {
         service \<leftarrow> read_service chunk h;
         let processed = (service = Some PEER_M_HEARTBEAT);
         c_assert nd (header_mode h \<noteq> PEER_MESSAGE_MODE_SERVICE \<or> processed);
         if header_mode h = PEER_MESSAGE_MODE_SERVICE
         then Some (if processed then status else status OR PEER_ERROR_UNKNOWN_SERVICE_ID, peer)
         else do {
           (s, q, al) \<leftarrow> queue_insert nd (slot_queue slot) (header_index h) (header_time h)
             (header_actor h) (data_ref chunk h) (peer_alloc peer);
           slots \<leftarrow> c_store (peer_slots peer) (int j) (slot\<lparr>slot_queue := q\<rparr>);
           Some (status OR s, peer\<lparr>peer_slots := slots, peer_alloc := al\<rparr>)
         }
       }
     }
   })"

text \<open>The session response (peer.c:383-402): the client's actor id and the host's new address.\<close>

definition session_response ::
  "bool \<Rightarrow> nat \<Rightarrow> peer_chunk_t \<Rightarrow> message_header \<Rightarrow> 'r peer_t \<Rightarrow> 'r peer_t option" where
  "session_response nd j chunk h peer = do {
     c_assert nd (header_data_size h - 1 \<le> PEER_ADDRESS_SIZE);
     slot \<leftarrow> c_load (peer_slots peer) (int j);
     address \<leftarrow> c_memcpy (address_data (slot_remote slot)) 0 chunk (PEER_N_MESSAGE_DATA + 1)
                 (header_data_size h - 1);
     slots \<leftarrow> c_store (peer_slots peer) (int j)
       (slot\<lparr>slot_remote := (slot_remote slot)
              \<lparr>is_id_resolved := False, address_size := header_data_size h - 1, address_data := address\<rparr>,
             slot_queue := map (\<lambda>m. m\<lparr>message_actor := header_actor h\<rparr>) (slot_queue slot)\<rparr>);
     Some (peer\<lparr>peer_actor := header_actor h, peer_slots := slots\<rparr>)
   }"

text \<open>The service-level messages of a client (peer.c:369-407); the flag is \<open>processed\<close>.\<close>

definition client_service ::
  "bool \<Rightarrow> nat \<Rightarrow> peer_chunk_t \<Rightarrow> message_header \<Rightarrow> 'r peer_t \<Rightarrow> (bool \<times> 'r peer_t) option" where
  "client_service nd j chunk h peer = do {
     service \<leftarrow> read_service chunk h;
     if service = Some PEER_M_HEARTBEAT then Some (True, peer)
     else if service = Some PEER_M_SESSION_RESPONSE
     then map_option (Pair True) (session_response nd j chunk h peer)
     else Some (False, peer)
   }"

text \<open>Add the message to the mutual queue (peer.c:415-426).\<close>

definition client_store ::
  "bool \<Rightarrow> peer_chunk_t \<Rightarrow> message_header \<Rightarrow> 'r input_state \<Rightarrow> 'r input_state option" where
  "client_store nd chunk h = (\<lambda>(status, peer). do {
     (s, q, al) \<leftarrow> queue_insert nd (mutual_queue peer) (header_index h) (header_time h)
       (header_actor h) (data_ref chunk h) (peer_alloc peer);
     Some (status OR s, peer\<lparr>mutual_queue := q, peer_alloc := al\<rparr>)
   })"

text \<open>Synchronize mutual time (peer.c:431-432).\<close>

definition sync_time :: "message_header \<Rightarrow> 'r peer_t \<Rightarrow> 'r peer_t" where
  "sync_time h peer =
     (if peer_time peer < header_time h then peer\<lparr>peer_time := header_time h\<rparr> else peer)"

text \<open>A message in client mode (peer.c:365-433).\<close>

definition input_client ::
  "bool \<Rightarrow> nat \<Rightarrow> peer_chunk_t \<Rightarrow> message_header \<Rightarrow> 'r input_state \<Rightarrow> 'r input_state option" where
  "input_client nd j chunk h = (\<lambda>(status, peer). do {
     (processed, peer) \<leftarrow> client_service nd j chunk h peer;
     c_assert nd (header_mode h \<noteq> PEER_MESSAGE_MODE_SERVICE \<or> processed);
     (status, peer) \<leftarrow>
       (if header_mode h = PEER_MESSAGE_MODE_SERVICE
        then Some (if processed then status else status OR PEER_ERROR_UNKNOWN_SERVICE_ID, peer)
        else client_store nd chunk h (status, peer));
     Some (status, sync_time h peer)
   })"

lemmas input_client_defs = input_client_def client_service_def client_store_def sync_time_def

definition input_chunk ::
  "bool \<Rightarrow> nat \<Rightarrow> peer_chunk_t \<Rightarrow> 'r input_state \<Rightarrow> 'r input_state option" where
  "input_chunk nd j chunk st = do {
     h \<leftarrow> read_header nd chunk;
     case peer_mode (snd st) of
       PEER_HOST \<Rightarrow> input_host nd j chunk h st
     | PEER_CLIENT \<Rightarrow> input_client nd j chunk h st
     | PEER_MODE_INVALID \<Rightarrow> Some st
   }"

fun input_chunks ::
  "bool \<Rightarrow> nat \<Rightarrow> peer_chunks_t \<Rightarrow> 'r input_state \<Rightarrow> 'r input_state option" where
  "input_chunks nd j [] st = Some st"
| "input_chunks nd j (chunk # chunks) st = do {
     st' \<leftarrow> input_chunk nd j chunk st;
     input_chunks nd j chunks st'
   }"

subsection \<open>Packets\<close>

text \<open>The index of the first slot from \<open>i\<close> on that satisfies a condition.\<close>

fun find_slot :: "(peer_slot_t \<Rightarrow> bool) \<Rightarrow> nat \<Rightarrow> peer_slots_t \<Rightarrow> nat option" where
  "find_slot P i [] = None"
| "find_slot P i (slot # slots) = (if P slot then Some i else find_slot P (Suc i) slots)"

definition slot_matches :: "peer_packet_t \<Rightarrow> peer_slot_t \<Rightarrow> bool" where
  "slot_matches packet slot \<longleftrightarrow>
     endpoint_id (slot_local slot) = destination_id packet \<and>
     endpoint_id (slot_remote slot) = source_id packet"

definition slot_free :: "peer_slot_t \<Rightarrow> bool" where
  "slot_free slot \<longleftrightarrow> endpoint_id (slot_remote slot) = PEER_UNDEFINED \<and> address_size (slot_local slot) > 0"

text \<open>Assign a slot for the client (peer.c:444-473).\<close>

definition assign_slot :: "peer_packet_t \<Rightarrow> 'r input_state \<Rightarrow> 'r input_state" where
  "assign_slot packet = (\<lambda>(status, peer).
     case peer_slots peer of
       [] \<Rightarrow> (status, peer)
     | slot0 # slots \<Rightarrow>
         (if peer_mode peer \<noteq> PEER_HOST \<or> endpoint_id (slot_remote slot0) \<noteq> PEER_UNDEFINED
          then (status, peer)
          else case find_slot slot_free 1 slots of
            None \<Rightarrow> (status OR PEER_ERROR_NO_FREE_SLOTS, peer)
          | Some j \<Rightarrow>
              (let slot = peer_slots peer ! j in
               (status, peer\<lparr>peer_slots := (peer_slots peer)[j := slot
                 \<lparr>slot_state := PEER_SLOT_SESSION_REQUEST,
                  slot_remote := (slot_remote slot)
                    \<lparr>endpoint_id := source_id packet, is_id_resolved := True\<rparr>,
                  slot_actor := int j\<rparr>]\<rparr>))))"

definition input_packet :: "bool \<Rightarrow> peer_packet_t \<Rightarrow> 'r input_state \<Rightarrow> 'r input_state option" where
  "input_packet nd packet = (\<lambda>(status, peer).
     if find_slot (\<lambda>slot. endpoint_id (slot_local slot) = destination_id packet) 0 (peer_slots peer) = None
     then Some (status, peer)
     else case find_slot (slot_matches packet) 0 (peer_slots peer) of
       Some j \<Rightarrow> do {
         (s, chunks, al) \<leftarrow> peer_unpack nd [packet] [] (peer_alloc peer);
         input_chunks nd j chunks (status OR s, peer\<lparr>peer_alloc := al\<rparr>)
       }
     | None \<Rightarrow> Some (assign_slot packet (status, peer)))"

fun input_packets :: "bool \<Rightarrow> peer_packets_t \<Rightarrow> 'r input_state \<Rightarrow> 'r input_state option" where
  "input_packets nd [] st = Some st"
| "input_packets nd (packet # packets) st = do {
     st' \<leftarrow> input_packet nd packet st;
     input_packets nd packets st'
   }"

definition peer_input_body ::
  "bool \<Rightarrow> peer_packets_t \<Rightarrow> 'r peer_t \<Rightarrow> (kit_status_t \<times> 'r peer_t) option" where
  "peer_input_body nd packets peer = input_packets nd packets (KIT_OK, peer)"

definition peer_input ::
  "bool \<Rightarrow> 'r peer_t option \<Rightarrow> peer_packets_t \<Rightarrow> (kit_status_t \<times> 'r peer_t option) option" where
  "peer_input nd peer packets = with_peer nd peer (peer_input_body nd packets)"

subsection \<open>Arbitrary packets\<close>

text \<open>A header that could be read: the chunk is long enough, and the fields are in range.\<close>

lemma uint_word_bound: "0 \<le> uint (w :: 32 word) \<and> uint w \<le> 0xffffffff"
  using unsigned_less [where ?'a = int, of w] by simp

lemma sint_is_int64: "is_int64 (sint (w :: 64 word))"
  using sint_greater_eq [of w] sint_less [of w] by (simp add: is_int64_def)

lemma read_header_Some:
  assumes "read_header nd c = Some h"
  shows "30 \<le> length c" and "is_int64 (header_time h)"
    and "0 \<le> header_actor h" and "header_actor h \<le> 0xffffffff"
    and "\<exists>s. peer_read_message_size c 0 = Some s \<and> header_data_size h = uint s - 30"
  using assms uint_word_bound
  by (auto simp: read_header_def peer_read_message_data_size_def peer_read_message_time_def
      peer_read_message_actor_def peer_read_u32_def c_load_def sint_is_int64
      split: if_splits dest!: bind_eq_SomeD)

lemma chunk_of_size:
  assumes "chunk_of packet c" and "length (packet_data packet) = 400" and "10 \<le> length c"
  shows "\<exists>s. peer_read_message_size c 0 = Some s \<and> uint s = int (length c)" and "length c \<le> 385"
proof -
  obtain k where k: "k \<le> 400 - length c" "15 \<le> k" "c = take (length c) (drop k (packet_data packet))"
    "peer_read_message_size (packet_data packet) (int k) = Some (word_of_int (int (length c)))"
    using assms(1) unfolding chunk_of_def by blast
  have c: "length c \<le> 400 - k" using arg_cong [OF k(3), of length] assms(2) by simp
  then show le: "length c \<le> 385" using k(2) by simp
  have "packet_data packet = take k (packet_data packet) @ c @ drop (k + length c) (packet_data packet)"
    using k(3) by (metis append_take_drop_id drop_drop add.commute)
  then have "peer_read_message_size c 0 = Some (word_of_int (int (length c)))"
    using peer_read_message_size_inside [OF assms(3), of "take k (packet_data packet)"] k(1,4) c assms(2,3)
    by (metis length_take min.absorb2 diff_le_self le_trans)
  moreover have "uint (word_of_int (int (length c)) :: 16 word) = int (length c)"
    using le by (simp add: unsigned_of_nat take_bit_nat_eq_self)
  ultimately show "\<exists>s. peer_read_message_size c 0 = Some s \<and> uint s = int (length c)" by blast
qed

text \<open>What \<open>peer_input\<close> knows of a chunk it got from \<open>peer_unpack\<close> and whose header it could
  read: the data is the rest of the chunk, and small enough to be sent again.\<close>

definition chunk_read :: "peer_chunk_t \<Rightarrow> message_header \<Rightarrow> bool" where
  "chunk_read c h \<longleftrightarrow> length c \<le> 385 \<and> header_data_size h = int (length c) - 30 \<and>
     data_ref c h = chunk_ref (drop 30 c) \<and> is_int64 (header_time h) \<and>
     0 \<le> header_actor h \<and> header_actor h \<le> 0xffffffff"

lemma chunk_readI:
  assumes "chunk_of packet c \<or> c = []" and "length (packet_data packet) = 400"
    and "read_header nd c = Some h"
  shows "chunk_read c h"
proof -
  have "30 \<le> length c" by (rule read_header_Some(1) [OF assms(3)])
  then have "chunk_of packet c" using assms(1) by auto
  with \<open>30 \<le> length c\<close> show ?thesis
    using chunk_of_size [of packet c] assms(2) read_header_Some [OF assms(3)]
    by (auto simp: chunk_read_def data_ref_def chunk_ref_def)
qed

text \<open>What the messages of a packet leave of a peer: it stays well-formed and keeps its mode and the ids of
  its slots.\<close>

definition slot_ids :: "'r peer_t \<Rightarrow> (ptrdiff_t \<times> ptrdiff_t) list" where
  "slot_ids peer = map (\<lambda>s. (endpoint_id (slot_local s), endpoint_id (slot_remote s))) (peer_slots peer)"

definition input_keeps :: "'r peer_t \<Rightarrow> 'r peer_t \<Rightarrow> bool" where
  "input_keeps peer peer' \<longleftrightarrow> (peer_wf peer \<longrightarrow> peer_wf peer') \<and>
     peer_mode peer' = peer_mode peer \<and> slot_ids peer' = slot_ids peer"

lemma input_keeps_refl [simp]: "input_keeps peer peer"
  by (simp add: input_keeps_def)

lemma input_keeps_trans: "input_keeps p1 p2 \<Longrightarrow> input_keeps p2 p3 \<Longrightarrow> input_keeps p1 p3"
  by (simp add: input_keeps_def)

lemma slot_ids_length: "slot_ids peer' = slot_ids peer \<Longrightarrow> length (peer_slots peer') = length (peer_slots peer)"
  by (metis slot_ids_def length_map)

lemma slot_ids_alloc [simp]: "slot_ids (peer\<lparr>peer_alloc := al\<rparr>) = slot_ids peer"
  by (simp add: slot_ids_def)

lemma input_keeps_alloc [simp]: "input_keeps peer (peer\<lparr>peer_alloc := al\<rparr>)"
  by (simp add: input_keeps_def)

lemma input_keeps_slot:
  assumes "j < length (peer_slots peer)"
    and "mode_slot_wf (peer_mode peer) (mutual_queue peer) (peer_slots peer ! j) \<Longrightarrow>
      mode_slot_wf (peer_mode peer) (mutual_queue peer) slot"
    and "endpoint_id (slot_local slot) = endpoint_id (slot_local (peer_slots peer ! j))"
    and "endpoint_id (slot_remote slot) = endpoint_id (slot_remote (peer_slots peer ! j))"
  shows "input_keeps peer (peer\<lparr>peer_slots := (peer_slots peer)[j := slot]\<rparr>)"
  using assms peer_wf_slot [of peer j slot]
  by (simp add: input_keeps_def slot_ids_def list_update_keeps(1))

lemma host_slot_insert:
  assumes "queue_insert nd (slot_queue slot) index t a (chunk_ref d) al = Some (s, q', al')"
    and "mode_slot_wf PEER_HOST q slot" and "a = slot_actor slot" and "entry_ok (t, a, d)"
    and "endpoint_id (slot_remote slot) \<noteq> - 1"
  shows "mode_slot_wf PEER_HOST q (slot\<lparr>slot_queue := q'\<rparr>)"
proof -
  have msgs: "message_wf m \<and> (is_ready m \<longrightarrow> message_actor m = slot_actor slot)"
    if "m \<in> set (slot_queue slot)" for m
    using that assms(2) by (auto simp: mode_slot_wf_def slot_wf_def host_slot_wf_def list_all_iff)
  have new: "message_wf m \<and> (is_ready m \<longrightarrow> message_actor m = slot_actor slot)" if "m \<in> set q'" for m
    using subsetD [OF queue_insert_set(2) [OF assms(1)] that] msgs assms(3,4) message_wf_data by auto
  show ?thesis
    using assms(2,5) new queue_insert_set(1) [OF assms(1)]
    by (auto simp: mode_slot_wf_def slot_wf_def host_slot_wf_def list_all_iff)
qed

lemma input_host_keeps:
  assumes "input_host nd j c h (status, peer) = Some (status', peer')" and "chunk_read c h"
    and "peer_mode peer = PEER_HOST" and "endpoint_id (slot_remote (peer_slots peer ! j)) \<noteq> - 1"
  shows "input_keeps peer peer'"
proof (cases "peer' = peer")
  case False
  then obtain s q al where j: "j < length (peer_slots peer)"
    and ins: "queue_insert nd (slot_queue (peer_slots peer ! j)) (header_index h) 0
      (slot_actor (peer_slots peer ! j)) (chunk_ref (drop 30 c)) (peer_alloc peer) = Some (s, q, al)"
    and peer': "peer' = peer\<lparr>peer_slots := (peer_slots peer)[j := (peer_slots peer ! j)\<lparr>slot_queue := q\<rparr>],
      peer_alloc := al\<rparr>" and actor: "header_actor h = slot_actor (peer_slots peer ! j)"
    using assms(1,2) by (auto simp: input_host_def chunk_read_def c_load_eq_Some Let_def
        split: if_splits dest!: bind_eq_SomeD)
  have "entry_ok (0, slot_actor (peer_slots peer ! j), drop 30 c)"
    using assms(2) actor by (auto simp: entry_ok_def chunk_read_def is_int64_def)
  then have "input_keeps peer (peer\<lparr>peer_slots :=
      (peer_slots peer)[j := (peer_slots peer ! j)\<lparr>slot_queue := q\<rparr>]\<rparr>)"
    using j assms(3,4) host_slot_insert [OF ins] by (intro input_keeps_slot) auto
  then show ?thesis unfolding peer' by (rule input_keeps_trans) simp
qed simp

lemma session_response_keeps:
  assumes "session_response nd j c h peer = Some peer'" and "chunk_read c h"
    and "peer_mode peer = PEER_CLIENT"
  shows "input_keeps peer peer'"
proof -
  let ?s = "peer_slots peer ! j"
  obtain address where j: "j < length (peer_slots peer)"
    and cp: "c_memcpy (address_data (slot_remote ?s)) 0 c 31 (header_data_size h - 1) = Some address"
    and peer': "peer' = peer\<lparr>peer_actor := header_actor h, peer_slots := (peer_slots peer)[j := ?s
      \<lparr>slot_remote := (slot_remote ?s)\<lparr>is_id_resolved := False,
          address_size := header_data_size h - 1, address_data := address\<rparr>,
       slot_queue := map (\<lambda>m. m\<lparr>message_actor := header_actor h\<rparr>) (slot_queue ?s)\<rparr>]\<rparr>"
    using assms(1) by (auto simp: session_response_def c_load_eq_Some dest!: bind_eq_SomeD)
  let ?s' = "?s\<lparr>slot_remote := (slot_remote ?s)\<lparr>is_id_resolved := False,
      address_size := header_data_size h - 1, address_data := address\<rparr>,
    slot_queue := map (\<lambda>m. m\<lparr>message_actor := header_actor h\<rparr>) (slot_queue ?s)\<rparr>"
  have "mode_slot_wf PEER_CLIENT (mutual_queue peer) ?s'"
    if "mode_slot_wf PEER_CLIENT (mutual_queue peer) ?s"
    using that cp c_memcpy_length [OF cp] assms(2)
    by (auto simp: mode_slot_wf_def wf_defs chunk_read_def list_all_iff c_memcpy_def split: if_splits)
  then have keep: "input_keeps peer (peer\<lparr>peer_slots := (peer_slots peer)[j := ?s']\<rparr>)"
    using j assms(3) by (intro input_keeps_slot) auto
  have actor: "input_keeps p (p\<lparr>peer_actor := header_actor h\<rparr>)" if "peer_mode p = PEER_CLIENT"
    for p :: "'a peer_t"
    using that assms(2) by (simp add: input_keeps_def slot_ids_def peer_wf_def chunk_read_def)
  have "input_keeps peer (peer\<lparr>peer_slots := (peer_slots peer)[j := ?s'], peer_actor := header_actor h\<rparr>)"
    by (rule input_keeps_trans [OF keep actor]) (simp add: assms(3))
  moreover have "p\<lparr>peer_slots := ss, peer_actor := a\<rparr> = p\<lparr>peer_actor := a, peer_slots := ss\<rparr>"
    for p :: "'a peer_t" and ss a by simp
  ultimately show ?thesis by (simp only: peer')
qed

lemma client_store_keeps:
  assumes "client_store nd c h (status, peer) = Some (status', peer')" and "chunk_read c h"
    and "peer_mode peer = PEER_CLIENT"
  shows "input_keeps peer peer'"
proof -
  have ok: "entry_ok (header_time h, header_actor h, drop 30 c)"
    using assms(2) by (auto simp: entry_ok_def chunk_read_def)
  obtain s q al where ins: "queue_insert nd (mutual_queue peer) (header_index h) (header_time h)
      (header_actor h) (chunk_ref (drop 30 c)) (peer_alloc peer) = Some (s, q, al)"
    and peer': "peer' = peer\<lparr>mutual_queue := q, peer_alloc := al\<rparr>"
    using assms(1,2) by (auto simp: client_store_def chunk_read_def dest!: bind_eq_SomeD)
  have "message_wf m" if "m \<in> set q" "list_all message_wf (mutual_queue peer)" for m
    using subsetD [OF queue_insert_set(2) [OF ins] that(1)] that(2) ok message_wf_data
    by (auto simp: list_all_iff)
  then have "peer_wf peer \<longrightarrow> peer_wf (peer\<lparr>mutual_queue := q\<rparr>)"
    using queue_insert_set(1) [OF ins] assms(3)
    by (intro impI peer_wf_queue) (auto simp: queue_wf_def peer_wf_def list_all_iff)
  then have "input_keeps peer (peer\<lparr>mutual_queue := q\<rparr>)" by (simp add: input_keeps_def slot_ids_def)
  then show ?thesis unfolding peer' by (rule input_keeps_trans) simp
qed

lemma input_client_keeps:
  assumes "input_client nd j c h (status, peer) = Some (status', peer')" and "chunk_read c h"
    and "peer_mode peer = PEER_CLIENT"
  shows "input_keeps peer peer'"
proof -
  have time: "input_keeps p (sync_time h p)" for p :: "'a peer_t"
    using assms(2) by (simp add: input_keeps_def slot_ids_def peer_wf_def chunk_read_def sync_time_def)
  obtain processed p1 where p1: "client_service nd j c h peer = Some (processed, p1)"
    using assms(1) by (cases "client_service nd j c h peer") (auto simp: input_client_def)
  obtain p2 where p2: "p2 = p1 \<or> (\<exists>st2. client_store nd c h (status, p1) = Some (st2, p2))"
    and p3: "peer' = sync_time h p2"
    using assms(1) p1 by (auto simp: input_client_def split: if_splits dest!: bind_eq_SomeD)
  have k1: "input_keeps peer p1"
    using p1 session_response_keeps [OF _ assms(2,3)]
    by (auto simp: client_service_def split: if_splits dest!: bind_eq_SomeD)
  then have "peer_mode p1 = PEER_CLIENT" using assms(3) by (simp add: input_keeps_def)
  then have "input_keeps p1 p2" using p2 client_store_keeps [OF _ assms(2)] by auto
  then show ?thesis
    unfolding p3 using k1 time input_keeps_trans by blast
qed

lemma input_chunks_keeps:
  assumes "input_chunks nd j cs (status, peer) = Some (status', peer')"
    and "\<forall>c \<in> set cs. chunk_of packet c \<or> c = []" and "length (packet_data packet) = 400"
    and "j < length (peer_slots peer)" and "endpoint_id (slot_remote (peer_slots peer ! j)) \<noteq> - 1"
  shows "input_keeps peer peer'"
  using assms
proof (induction cs arbitrary: status peer)
  case (Cons c cs)
  obtain s1 p1 where c: "input_chunk nd j c (status, peer) = Some (s1, p1)"
    and cs: "input_chunks nd j cs (s1, p1) = Some (status', peer')"
    using Cons.prems(1) by (auto dest!: bind_eq_SomeD)
  obtain h where h: "read_header nd c = Some h"
    using c by (auto simp: input_chunk_def dest!: bind_eq_SomeD)
  have "chunk_read c h" using chunk_readI [OF _ Cons.prems(3) h] Cons.prems(2) by simp
  then have keep: "input_keeps peer p1"
    using c h Cons.prems(5) input_host_keeps input_client_keeps
    by (cases "peer_mode peer") (auto simp: input_chunk_def)
  then have ids: "slot_ids p1 = slot_ids peer" by (simp add: input_keeps_def)
  then have "length (peer_slots p1) = length (peer_slots peer)" by (rule slot_ids_length)
  moreover have "endpoint_id (slot_remote (peer_slots p1 ! j)) = endpoint_id (slot_remote (peer_slots peer ! j))"
    using arg_cong [OF ids, of "\<lambda>l. snd (l ! j)"] calculation Cons.prems(4) by (simp add: slot_ids_def)
  ultimately have "input_keeps p1 peer'"
    using Cons.IH [OF cs _ Cons.prems(3)] Cons.prems by auto
  with keep show ?case by (rule input_keeps_trans)
qed simp

lemma find_slot_Some:
  "find_slot P i slots = Some j \<Longrightarrow> i \<le> j \<and> j < i + length slots \<and> P (slots ! (j - i)) \<and>
    (\<forall>k < j - i. \<not> P (slots ! k))"
proof (induction slots arbitrary: i)
  case (Cons slot slots)
  show ?case
  proof (cases "P slot")
    case True
    then show ?thesis using Cons.prems by auto
  next
    case False
    then show ?thesis
      using Cons.prems Cons.IH [of "Suc i"] by (auto simp: nth_Cons' Suc_diff_le less_Suc_eq_0_disj)
  qed
qed simp

lemma find_slot_None: "find_slot P i slots = None \<longleftrightarrow> (\<forall>slot \<in> set slots. \<not> P slot)"
  by (induction slots arbitrary: i) auto

lemma find_slot_cong:
  assumes "map f slots = map f slots'" and "\<And>s s'. f s = f s' \<Longrightarrow> P s = P s'"
  shows "find_slot P i slots = find_slot P i slots'"
  using assms(1)
proof (induction slots arbitrary: slots' i)
  case (Cons s slots)
  then obtain s' ss where "slots' = s' # ss" "f s = f s'" "map f slots = map f ss" by auto
  then show ?case using Cons.IH [of ss "Suc i"] assms(2) [of s s'] by simp
qed simp

lemma assign_slot_wf:
  assumes "peer_wf peer" and "assign_slot packet (status, peer) = (status', peer')"
  shows "peer_wf peer' \<and> peer_mode peer' = peer_mode peer"
proof (cases "peer' = peer")
  case False
  then obtain slot0 slots j where slots: "peer_slots peer = slot0 # slots"
    and find: "find_slot slot_free 1 slots = Some j" and host: "peer_mode peer = PEER_HOST"
    and peer': "peer' = peer\<lparr>peer_slots := (peer_slots peer)[j := (peer_slots peer ! j)
      \<lparr>slot_state := PEER_SLOT_SESSION_REQUEST, slot_remote := (slot_remote (peer_slots peer ! j))
        \<lparr>endpoint_id := source_id packet, is_id_resolved := True\<rparr>, slot_actor := int j\<rparr>]\<rparr>"
    using assms(2) by (auto simp: assign_slot_def Let_def split: list.splits if_splits option.splits)
  have j: "j < length (peer_slots peer)" "slot_free (peer_slots peer ! j)"
    using find_slot_Some [OF find] slots by (auto simp: nth_Cons')
  have "int (length (peer_slots peer)) \<le> 0xffffffff" using assms(1) by (simp add: peer_wf_def)
  then have "peer_wf peer'"
    unfolding peer' using j host
    by (intro peer_wf_slot [OF assms(1)]) (auto simp: mode_slot_wf_def wf_defs slot_free_def)
  then show ?thesis by (simp add: peer')
qed (use assms in simp)

text \<open>The chunks of a packet, when \<open>peer_unpack\<close> returns.\<close>

lemma peer_unpack_chunks:
  assumes "peer_unpack nd [packet] [] al = Some (s, cs, al')" and "length (packet_data packet) = 400"
  shows "\<forall>c \<in> set cs. chunk_of packet c \<or> c = []"
proof -
  have "nd \<or> packet_size packet = 0 \<or> 15 \<le> packet_size packet \<and> packet_size packet \<le> 400"
    using assms(1) by (cases nd) (auto simp: peer_unpack_def unpack_packet_def c_assert_def split: if_splits
        dest!: bind_eq_SomeD)
  then show ?thesis
    using unpack_packets_total [of "[packet]" nd 0 "[]" al] assms by (auto simp: peer_unpack_def)
qed

lemma input_packet_wf:
  assumes "peer_wf peer" and "input_packet nd packet (status, peer) = Some (status', peer')"
    and "length (packet_data packet) = 400" and "source_id packet \<noteq> - 1"
  shows "peer_wf peer'"
proof (cases "find_slot (slot_matches packet) 0 (peer_slots peer)")
  case None
  then show ?thesis
    using assms assign_slot_wf [of peer packet status] by (auto simp: input_packet_def split: if_splits)
next
  case (Some j)
  then have j: "j < length (peer_slots peer)" "slot_matches packet (peer_slots peer ! j)"
    using find_slot_Some [OF Some] by auto
  show ?thesis
  proof (cases "find_slot (\<lambda>slot. endpoint_id (slot_local slot) = destination_id packet) 0 (peer_slots peer)")
    case None
    then show ?thesis using assms by (simp add: input_packet_def)
  next
    case found: (Some j')
    obtain s cs al where un: "peer_unpack nd [packet] [] (peer_alloc peer) = Some (s, cs, al)"
      and cs: "input_chunks nd j cs (status OR s, peer\<lparr>peer_alloc := al\<rparr>) = Some (status', peer')"
      using assms(2) Some found by (auto simp: input_packet_def dest!: bind_eq_SomeD)
    have "\<forall>c \<in> set cs. chunk_of packet c \<or> c = []" by (rule peer_unpack_chunks [OF un assms(3)])
    then have "input_keeps (peer\<lparr>peer_alloc := al\<rparr>) peer'"
      using input_chunks_keeps [OF cs _ assms(3)] j assms(4) by (auto simp: slot_matches_def)
    then show ?thesis using assms(1) by (simp add: input_keeps_def)
  qed
qed

lemma input_packets_wf:
  assumes "peer_wf peer" and "input_packets nd packets (status, peer) = Some (status', peer')"
    and "\<forall>p \<in> set packets. length (packet_data p) = 400 \<and> source_id p \<noteq> - 1"
  shows "peer_wf peer'"
  using assms
proof (induction packets arbitrary: status peer)
  case (Cons p ps)
  obtain s1 p1 where "input_packet nd p (status, peer) = Some (s1, p1)"
    and "input_packets nd ps (s1, p1) = Some (status', peer')"
    using Cons.prems(2) by (auto dest!: bind_eq_SomeD)
  then show ?case using Cons.IH [of p1 s1] input_packet_wf [of peer nd p status s1 p1] Cons.prems by auto
qed simp

text \<open>An allocator that grants the requests of \<open>peer_input\<close> goes on doing so.\<close>

lemma input_host_alloc:
  assumes "input_host nd j c h (status, peer) = Some (status', peer')" and "alloc_ok (peer_alloc peer)"
  shows "alloc_ok (peer_alloc peer')"
  using assms queue_insert_alloc [OF _ assms(2)]
  by (fastforce simp: input_host_def c_assert_bind Let_def split: if_splits dest!: bind_eq_SomeD)

lemma client_service_alloc:
  assumes "client_service nd j c h peer = Some (processed, peer')"
  shows "peer_alloc peer' = peer_alloc peer"
  using assms by (auto simp: client_service_def session_response_def split: if_splits dest!: bind_eq_SomeD)

lemma input_client_alloc:
  assumes "input_client nd j c h (status, peer) = Some (status', peer')" and "alloc_ok (peer_alloc peer)"
  shows "alloc_ok (peer_alloc peer')"
proof -
  obtain processed p1 where p1: "client_service nd j c h peer = Some (processed, p1)"
    using assms(1) by (cases "client_service nd j c h peer") (auto simp: input_client_def)
  obtain p2 where p2: "p2 = p1 \<or> (\<exists>st2. client_store nd c h (status, p1) = Some (st2, p2))" and "peer' = sync_time h p2"
    using assms(1) p1 by (auto simp: input_client_def split: if_splits dest!: bind_eq_SomeD)
  moreover have "alloc_ok (peer_alloc p1)" using client_service_alloc [OF p1] assms(2) by simp
  then have "alloc_ok (peer_alloc p2)"
    using p2 by (auto simp: client_store_def dest!: bind_eq_SomeD queue_insert_alloc)
  ultimately show ?thesis by (simp add: sync_time_def)
qed

lemma input_chunk_alloc:
  assumes "input_chunk nd j c (status, peer) = Some (status', peer')" and "alloc_ok (peer_alloc peer)"
  shows "alloc_ok (peer_alloc peer')"
  using assms input_host_alloc input_client_alloc
  by (cases "peer_mode peer") (auto simp: input_chunk_def dest!: bind_eq_SomeD)

lemma input_chunks_alloc:
  assumes "input_chunks nd j cs (status, peer) = Some (status', peer')" and "alloc_ok (peer_alloc peer)"
  shows "alloc_ok (peer_alloc peer')"
  using assms
proof (induction cs arbitrary: status peer)
  case (Cons c cs)
  then obtain s1 p1 where "input_chunk nd j c (status, peer) = Some (s1, p1)"
    and "input_chunks nd j cs (s1, p1) = Some (status', peer')"
    by (auto dest!: bind_eq_SomeD)
  then show ?case using Cons.IH input_chunk_alloc Cons.prems(2) by blast
qed simp

lemma input_packet_alloc:
  assumes "input_packet True packet (status, peer) = Some (status', peer')" and "length (packet_data packet) = 400"
    and "alloc_ok (peer_alloc peer)"
  shows "alloc_ok (peer_alloc peer')"
proof (cases "find_slot (slot_matches packet) 0 (peer_slots peer)")
  case None
  then show ?thesis
    using assms(1,3)
    by (auto simp: input_packet_def assign_slot_def Let_def split: if_splits list.splits option.splits)
next
  case (Some j)
  show ?thesis
  proof (cases "peer' = peer")
    case False
    then obtain s cs al where un: "peer_unpack True [packet] [] (peer_alloc peer) = Some (s, cs, al)"
      and cs: "input_chunks True j cs (status OR s, peer\<lparr>peer_alloc := al\<rparr>) = Some (status', peer')"
      using assms(1) Some by (auto simp: input_packet_def split: if_splits dest!: bind_eq_SomeD)
    have "alloc_ok al"
      using un unpack_packets_total [of "[packet]" True 0 "[]" "peer_alloc peer"] assms(2,3)
      by (auto simp: peer_unpack_def)
    then show ?thesis using input_chunks_alloc [OF cs] by simp
  qed (use assms(3) in simp)
qed

lemma peer_input_alloc:
  assumes "peer_input True (Some peer) packets = Some (st, Some peer')"
    and "\<forall>p \<in> set packets. length (packet_data p) = 400" and "alloc_ok (peer_alloc peer)"
  shows "alloc_ok (peer_alloc peer')"
proof -
  have "alloc_ok (peer_alloc p')" if "input_packets True ps (s, p) = Some (s', p')"
    "\<forall>q \<in> set ps. length (packet_data q) = 400" "alloc_ok (peer_alloc p)" for s s' ps and p p' :: "'a peer_t"
    using that
  proof (induction ps arbitrary: s p)
    case (Cons q ps)
    then obtain s1 p1 where "input_packet True q (s, p) = Some (s1, p1)" "input_packets True ps (s1, p1) = Some (s', p')"
      by (auto dest!: bind_eq_SomeD)
    then show ?case using Cons.IH input_packet_alloc Cons.prems(2,3) by (metis list.set_intros)
  qed simp
  then show ?thesis
    using assms by (auto simp: peer_input_def with_peer_def peer_input_body_def dest!: bind_eq_SomeD)
qed

subsection \<open>Session requests\<close>

lemma find_slot_first:
  assumes "j < length slots" and "P (slots ! j)" and "\<forall>k < j. \<not> P (slots ! k)"
  shows "find_slot P i slots = Some (i + j)"
  using assms
proof (induction slots arbitrary: i j)
  case (Cons s slots)
  show ?case
  proof (cases j)
    case 0
    then show ?thesis using Cons.prems by simp
  next
    case (Suc j')
    then show ?thesis using Cons.IH [of j' "Suc i"] Cons.prems by fastforce
  qed
qed simp

text \<open>A packet for a host that accepts clients, from a sender that has no slot.\<close>

definition session_request :: "'r peer_t \<Rightarrow> peer_packet_t \<Rightarrow> bool" where
  "session_request host packet \<longleftrightarrow> peer_mode host = PEER_HOST \<and> peer_slots host \<noteq> [] \<and>
     endpoint_id (slot_remote (hd (peer_slots host))) = PEER_UNDEFINED \<and>
     list_ex (\<lambda>slot. endpoint_id (slot_local slot) = destination_id packet) (peer_slots host) \<and>
     \<not> list_ex (slot_matches packet) (peer_slots host)"

text \<open>Slot \<open>j\<close> is the first free one, the host's own slot aside.\<close>

definition first_free :: "'r peer_t \<Rightarrow> nat \<Rightarrow> bool" where
  "first_free host j \<longleftrightarrow> 1 \<le> j \<and> j < length (peer_slots host) \<and> slot_free (peer_slots host ! j) \<and>
     list_all (\<lambda>slot. \<not> slot_free slot) (drop 1 (take j (peer_slots host)))"

definition assigned_slot :: "peer_packet_t \<Rightarrow> nat \<Rightarrow> peer_slot_t \<Rightarrow> peer_slot_t" where
  "assigned_slot packet j slot = slot\<lparr>slot_state := PEER_SLOT_SESSION_REQUEST,
     slot_remote := (slot_remote slot)\<lparr>endpoint_id := source_id packet, is_id_resolved := True\<rparr>,
     slot_actor := int j\<rparr>"

lemma input_packet_request:
  assumes "session_request host packet"
  shows "input_packet nd packet (status, host) = Some (assign_slot packet (status, host))"
proof -
  have "find_slot (\<lambda>slot. endpoint_id (slot_local slot) = destination_id packet) 0 (peer_slots host) \<noteq> None"
    and "find_slot (slot_matches packet) 0 (peer_slots host) = None"
    using assms by (auto simp: session_request_def find_slot_None list_ex_iff)
  then show ?thesis by (auto simp: input_packet_def)
qed

lemma assign_first_free:
  assumes "session_request host packet" and "first_free host j"
  shows "assign_slot packet (status, host) = (status, host\<lparr>peer_slots :=
    (peer_slots host)[j := assigned_slot packet j (peer_slots host ! j)]\<rparr>)"
proof -
  obtain slot0 slots where slots: "peer_slots host = slot0 # slots"
    using assms(1) by (cases "peer_slots host") (auto simp: session_request_def)
  obtain j' where j: "j = Suc j'" using assms(2) by (cases j) (auto simp: first_free_def)
  have "slot_free (slots ! j')" "j' < length slots" and "\<forall>k < j'. \<not> slot_free (slots ! k)"
    using assms(2) by (auto simp: first_free_def slots j list_all_length)
  then have "find_slot slot_free (Suc 0) slots = Some (Suc j')"
    using find_slot_first [of j' slots slot_free 1] by simp
  then show ?thesis
    using assms(1) by (simp add: assign_slot_def session_request_def slots assigned_slot_def j Let_def)
qed

lemma assign_none_free:
  assumes "session_request host packet" and "list_all (\<lambda>slot. \<not> slot_free slot) (drop 1 (peer_slots host))"
  shows "assign_slot packet (status, host) = (status OR PEER_ERROR_NO_FREE_SLOTS, host)"
proof -
  obtain slot0 slots where slots: "peer_slots host = slot0 # slots"
    using assms(1) by (cases "peer_slots host") (auto simp: session_request_def)
  then have "find_slot slot_free 1 slots = None"
    using assms(2) by (simp add: find_slot_None list_all_iff)
  then show ?thesis using assms(1) by (simp add: assign_slot_def session_request_def slots)
qed

lemma peer_input_single:
  "peer_input nd (Some peer) [packet] =
    map_option (\<lambda>(s, p). (s, Some p)) (input_packet nd packet (KIT_OK, peer))"
  by (cases "input_packet nd packet (KIT_OK, peer)")
    (auto simp: peer_input_def with_peer_def peer_input_body_def)

subsection \<open>Properties\<close>

text \<open>C25. \<open>peer_input\<close> keeps a peer well-formed, whatever the bytes of the packets are and whatever the
  allocator answers: queue indices stay within their queues, addresses within their arrays, every message
  in a queue can be sent again, the host's mutual queue has no gaps and the messages of a slot carry its
  actor. The packets are 400-byte packets from a sender with an id.\<close>

theorem peer_input_preserves_wf:
  assumes "peer_wf peer" and "\<forall>p \<in> set packets. length (packet_data p) = 400 \<and> source_id p \<noteq> - 1"
    and "peer_input nd (Some peer) packets = Some (status, Some peer')"
  shows "peer_wf peer'"
  using input_packets_wf [of peer nd packets KIT_OK status peer'] assms
  by (auto simp: peer_input_def with_peer_def peer_input_body_def dest!: bind_eq_SomeD)

theorem peer_input_preserves_wf_witness:
  "peer_wf (example_host\<lparr>peer_slots := (peer_slots example_host)
    [1 := assigned_slot (zero_packet\<lparr>source_id := 7, destination_id := 10\<rparr>) 1 (peer_slots example_host ! 1)]\<rparr>)"
proof (rule peer_input_preserves_wf [where packets = "[zero_packet\<lparr>source_id := 7, destination_id := 10\<rparr>]"
      and nd = False and peer = example_host and status = KIT_OK])
  let ?p = "zero_packet\<lparr>source_id := 7, destination_id := 10\<rparr>"
  show "peer_wf example_host" by (rule example_host_wf)
  show "\<forall>p \<in> set [?p]. length (packet_data p) = 400 \<and> source_id p \<noteq> - 1" by (simp add: zero_packet_def)
  have "session_request example_host ?p" and "first_free example_host 1"
    by (simp_all add: session_request_def first_free_def slot_matches_def slot_free_def example_defs)
  then show "peer_input False (Some example_host) [?p] = Some (KIT_OK, Some (example_host\<lparr>peer_slots :=
      (peer_slots example_host)[1 := assigned_slot ?p 1 (peer_slots example_host ! 1)]\<rparr>))"
    by (simp add: peer_input_single input_packet_request assign_first_free)
qed

text \<open>A packet whose destination is none of the peer's ids changes nothing and is not an error, whatever
  it contains.\<close>

theorem input_unknown_destination:
  assumes "\<forall>slot \<in> set (peer_slots peer). \<forall>p \<in> set packets.
    endpoint_id (slot_local slot) \<noteq> destination_id p"
  shows "peer_input nd (Some peer) packets = Some (KIT_OK, Some peer)"
proof -
  have "find_slot (\<lambda>slot. endpoint_id (slot_local slot) = destination_id p) 0 (peer_slots peer) = None"
    if "p \<in> set packets" for p
    using assms that by (auto simp: find_slot_None)
  then have "input_packets nd packets (KIT_OK, peer) = Some (KIT_OK, peer)"
    by (induction packets) (simp_all add: input_packet_def)
  then show ?thesis by (simp add: peer_input_def with_peer_def peer_input_body_def)
qed

theorem input_unknown_destination_witness:
  "peer_input False (Some example_host) [zero_packet\<lparr>destination_id := 99, packet_size := 3\<rparr>] =
    Some (KIT_OK, Some example_host)"
  by (rule input_unknown_destination) (simp add: example_defs)

text \<open>C35. A packet from a sender without a slot is a session request: the host gives it the first slot that
  has an address and no client, records the sender's id and the actor of the slot, and changes nothing
  else; when no slot is free it reports \<open>PEER_ERROR_NO_FREE_SLOTS\<close> and changes nothing.\<close>

theorem input_session_request:
  assumes "session_request host packet"
  shows "(first_free host j \<longrightarrow> peer_input nd (Some host) [packet] = Some (KIT_OK, Some (host\<lparr>peer_slots :=
      (peer_slots host)[j := assigned_slot packet j (peer_slots host ! j)]\<rparr>))) \<and>
    (list_all (\<lambda>slot. \<not> slot_free slot) (drop 1 (peer_slots host)) \<longrightarrow>
      peer_input nd (Some host) [packet] = Some (PEER_ERROR_NO_FREE_SLOTS, Some host))"
  using assms assign_first_free [OF assms] assign_none_free [OF assms]
  by (simp add: peer_input_single input_packet_request)

theorem input_session_request_witness:
  "peer_input False (Some example_host) [zero_packet\<lparr>source_id := 7, destination_id := 10\<rparr>] =
    Some (KIT_OK, Some (example_host\<lparr>peer_slots := (peer_slots example_host)
      [1 := assigned_slot (zero_packet\<lparr>source_id := 7, destination_id := 10\<rparr>) 1
        (peer_slots example_host ! 1)]\<rparr>))"
proof -
  let ?p = "zero_packet\<lparr>source_id := 7, destination_id := 10\<rparr>"
  have "session_request example_host ?p" and "first_free example_host 1"
    by (simp_all add: session_request_def first_free_def slot_matches_def slot_free_def example_defs)
  then show ?thesis using input_session_request [of example_host ?p 1 False] by blast
qed

text \<open>C36. The host does not remember that a sender asked already: as long as the sender keeps writing to
  the host's public id (that of slot 0), every packet takes one more slot. Two such packets take two
  slots.\<close>

theorem input_repeated_request:
  assumes "session_request host packet" and "first_free host j"
    and "endpoint_id (slot_local (peer_slots host ! j)) \<noteq> destination_id packet"
    and "source_id packet \<noteq> - 1"
    and "first_free (host\<lparr>peer_slots :=
      (peer_slots host)[j := assigned_slot packet j (peer_slots host ! j)]\<rparr>) k"
  shows "j \<noteq> k \<and> (\<exists>host'. peer_input nd (Some host) [packet, packet] = Some (KIT_OK, Some host') \<and>
    endpoint_id (slot_remote (peer_slots host' ! j)) = source_id packet \<and>
    endpoint_id (slot_remote (peer_slots host' ! k)) = source_id packet)"
proof -
  let ?h = "host\<lparr>peer_slots := (peer_slots host)[j := assigned_slot packet j (peer_slots host ! j)]\<rparr>"
  have j: "j < length (peer_slots host)" "1 \<le> j" using assms(2) by (auto simp: first_free_def)
  have jk: "j \<noteq> k" using assms(4,5) j by (auto simp: first_free_def slot_free_def assigned_slot_def)
  have "map (endpoint_id \<circ> slot_local) (peer_slots ?h) = map (endpoint_id \<circ> slot_local) (peer_slots host)"
    by (simp add: list_update_keeps(1) assigned_slot_def)
  from arg_cong [OF this, of set] have locals:
    "(endpoint_id \<circ> slot_local) ` set (peer_slots ?h) = (endpoint_id \<circ> slot_local) ` set (peer_slots host)"
    by (simp only: set_map)
  have "destination_id packet \<in> (endpoint_id \<circ> slot_local) ` set (peer_slots host)"
    using assms(1) by (auto simp: session_request_def list_ex_iff intro: rev_image_eqI)
  then have "list_ex (\<lambda>slot. endpoint_id (slot_local slot) = destination_id packet) (peer_slots ?h)"
    unfolding locals [symmetric] list_ex_iff by force
  moreover have "\<not> slot_matches packet slot" if "slot \<in> set (peer_slots ?h)" for slot
  proof -
    have "slot = assigned_slot packet j (peer_slots host ! j) \<or> slot \<in> set (peer_slots host)"
      using that set_update_subset_insert [of "peer_slots host" j] by auto
    then show ?thesis
      using assms(1,3) by (auto simp: session_request_def list_ex_iff slot_matches_def assigned_slot_def)
  qed
  moreover have "hd (peer_slots ?h) = hd (peer_slots host)" and "peer_slots ?h \<noteq> []"
    using j by (auto simp: hd_conv_nth simp flip: length_greater_0_conv)
  ultimately have "session_request ?h packet"
    using assms(1) by (simp add: session_request_def list_ex_iff)
  let ?h2 = "?h\<lparr>peer_slots := (peer_slots ?h)[k := assigned_slot packet k (peer_slots ?h ! k)]\<rparr>"
  have "input_packet nd packet (KIT_OK, ?h) = Some (KIT_OK, ?h2)"
    by (simp only: input_packet_request [OF \<open>session_request ?h packet\<close>]
        assign_first_free [OF \<open>session_request ?h packet\<close> assms(5)])
  then have "peer_input nd (Some host) [packet, packet] = Some (KIT_OK, Some ?h2)"
    by (simp add: peer_input_def with_peer_def peer_input_body_def input_packet_request [OF assms(1)]
        assign_first_free [OF assms(1,2)])
  moreover have "k < length (peer_slots host)" using assms(5) by (simp add: first_free_def)
  ultimately show ?thesis using j jk by (simp add: assigned_slot_def)
qed

theorem input_repeated_request_witness:
  "(1 :: nat) \<noteq> 2 \<and> (\<exists>host'. peer_input False (Some example_host)
      [zero_packet\<lparr>source_id := 7, destination_id := 10\<rparr>, zero_packet\<lparr>source_id := 7, destination_id := 10\<rparr>] =
      Some (KIT_OK, Some host') \<and>
    endpoint_id (slot_remote (peer_slots host' ! 1)) = source_id (zero_packet\<lparr>source_id := 7, destination_id := 10\<rparr>) \<and>
    endpoint_id (slot_remote (peer_slots host' ! 2)) = source_id (zero_packet\<lparr>source_id := 7, destination_id := 10\<rparr>))"
  by (rule input_repeated_request)
    (simp_all add: session_request_def first_free_def slot_matches_def slot_free_def assigned_slot_def example_defs)

end
