(* ===== verification/Peer_Protocol.thy ===== *)
theory Peer_Protocol
  imports Peer_Input
begin

text \<open>
  The messages of a session, above the bytes: a datatype of the messages a host and a client exchange,
  their encoding, and what a receiver does with them as a function on peers (\<open>client_receive\<close>,
  \<open>host_receive\<close>). The lemmas show that \<open>peer_input\<close> on packets of encoded messages is exactly that
  function, message by message, and \<open>queue_log\<close> carries the consequences for the queues.
\<close>

subsection \<open>The protocol's messages\<close>

text \<open>The messages the two sides of a session exchange, their bytes on the wire, and what a receiver
  does with them, on the level of the messages.\<close>

datatype wire_message =
  M_application nat entry
| M_heartbeat peer_time_t ptrdiff_t
| M_session_response peer_time_t ptrdiff_t "byte list"

fun wire_bytes :: "wire_message \<Rightarrow> peer_chunk_t" where
  "wire_bytes (M_application i (t, a, d)) = message_bytes PEER_MESSAGE_MODE_APPLICATION (int i) t a d"
| "wire_bytes (M_heartbeat t a) =
     message_bytes PEER_MESSAGE_MODE_SERVICE PEER_UNDEFINED t a [PEER_M_HEARTBEAT]"
| "wire_bytes (M_session_response t a addr) =
     message_bytes PEER_MESSAGE_MODE_SERVICE PEER_UNDEFINED t a (PEER_M_SESSION_RESPONSE # addr)"

fun wire_time :: "wire_message \<Rightarrow> peer_time_t" where
  "wire_time (M_application i (t, a, d)) = t"
| "wire_time (M_heartbeat t a) = t"
| "wire_time (M_session_response t a addr) = t"

text \<open>The actor as the receiver sees it, in a \<open>uint32_t\<close>.\<close>

definition u32_actor :: "ptrdiff_t \<Rightarrow> ptrdiff_t" where
  "u32_actor a = uint (word_of_int a :: 32 word)"

fun wire_actor :: "wire_message \<Rightarrow> ptrdiff_t" where
  "wire_actor (M_application i (t, a, d)) = u32_actor a"
| "wire_actor (M_heartbeat t a) = u32_actor a"
| "wire_actor (M_session_response t a addr) = u32_actor a"

text \<open>Values a sender can put on the wire and the receiver reads back.\<close>

fun wire_ok :: "wire_message \<Rightarrow> bool" where
  "wire_ok (M_application i e) \<longleftrightarrow> int i < INT64_MAX \<and> entry_ok e"
| "wire_ok (M_heartbeat t a) \<longleftrightarrow> is_int64 t \<and> - 1 \<le> a \<and> a \<le> 0xffffffff"
| "wire_ok (M_session_response t a addr) \<longleftrightarrow>
     is_int64 t \<and> - 1 \<le> a \<and> a \<le> 0xffffffff \<and> length addr \<le> 64"

text \<open>What a client does with a message that came in on slot \<open>j\<close>.\<close>

definition resolve_slot :: "ptrdiff_t \<Rightarrow> byte list \<Rightarrow> peer_slot_t \<Rightarrow> peer_slot_t" where
  "resolve_slot actor addr slot = slot
     \<lparr>slot_remote := (slot_remote slot)\<lparr>is_id_resolved := False, address_size := int (length addr),
        address_data := addr @ drop (length addr) (address_data (slot_remote slot))\<rparr>,
      slot_queue := map (\<lambda>m. m\<lparr>message_actor := actor\<rparr>) (slot_queue slot)\<rparr>"

fun client_take :: "nat \<Rightarrow> wire_message \<Rightarrow> 'r peer_t \<Rightarrow> 'r peer_t" where
  "client_take j (M_application i (t, a, d)) peer =
     peer\<lparr>mutual_queue := queue_put (mutual_queue peer) i (t, u32_actor a, d)\<rparr>"
| "client_take j (M_heartbeat t a) peer = peer"
| "client_take j (M_session_response t a addr) peer =
     peer\<lparr>peer_actor := u32_actor a,
       peer_slots := (peer_slots peer)[j := resolve_slot (u32_actor a) addr (peer_slots peer ! j)]\<rparr>"

definition client_receive :: "nat \<Rightarrow> wire_message \<Rightarrow> 'r peer_t \<Rightarrow> 'r peer_t" where
  "client_receive j m peer =
     (client_take j m peer)\<lparr>peer_time := max (peer_time peer) (wire_time m)\<rparr>"

text \<open>What a host does with it, assertions off: when its time is unset and its actor is the slot's, it takes an application
  message for the slot's queue, accepts a heartbeat without a change, and reports a session response.\<close>

fun host_take :: "nat \<Rightarrow> wire_message \<Rightarrow> 'r input_state \<Rightarrow> 'r input_state" where
  "host_take j (M_application i (t, a, d)) (status, peer) = (status,
     peer\<lparr>peer_slots := (peer_slots peer)[j := (peer_slots peer ! j)
       \<lparr>slot_queue := queue_put (slot_queue (peer_slots peer ! j)) i (t, u32_actor a, d)\<rparr>]\<rparr>)"
| "host_take j (M_heartbeat t a) (status, peer) = (status, peer)"
| "host_take j (M_session_response t a addr) (status, peer) =
     (status OR PEER_ERROR_UNKNOWN_SERVICE_ID, peer)"

definition host_receive :: "nat \<Rightarrow> wire_message \<Rightarrow> 'r input_state \<Rightarrow> 'r input_state" where
  "host_receive j m st =
     (if wire_time m \<noteq> 0 then (fst st OR PEER_ERROR_INVALID_MESSAGE_TIME, snd st)
      else if wire_actor m \<noteq> slot_actor (peer_slots (snd st) ! j)
      then (fst st OR PEER_ERROR_INVALID_MESSAGE_ACTOR, snd st)
      else host_take j m st)"

subsection \<open>Reading a message\<close>

lemma u32_actor_id [simp]: "0 \<le> a \<Longrightarrow> a \<le> 0xffffffff \<Longrightarrow> u32_actor a = a"
  by (simp add: u32_actor_def uint_word_of_int take_bit_int_eq_self)

lemma is_int64_undefined [simp]: "is_int64 (- 1)"
  by (simp add: is_int64_def)

text \<open>The largest actor is written like the undefined one; both are read as 4294967295.\<close>

lemma read_header_bytes:
  assumes "length d \<le> 355" and "is_int64 index" and "is_int64 t" and "- 1 \<le> a" and "a \<le> 0xffffffff"
    and "mode = take_bit 6 mode"
  shows "read_header nd (message_bytes mode index t a d) =
    Some \<lparr>header_data_size = int (length d), header_mode = mode, header_index = index,
      header_time = t, header_actor = u32_actor a\<rparr>"
proof -
  define b where "b = (if a = 0xffffffff then - 1 else a)"
  have word: "(word_of_int a :: 32 word) = word_of_int b"
    by (simp add: b_def word_uint_eq_iff uint_word_of_int take_bit_int_eq_self
        unsigned_minus_1_eq_mask mask_eq_exp_minus_1)
  then have "message_bytes mode index t a d = message_bytes mode index t b d"
    by (simp only: message_bytes_def)
  moreover have "u32_actor a = u32_actor b" by (simp only: u32_actor_def word)
  moreover have "- 1 \<le> b" "b < 0xffffffff" using assms(4,5) by (auto simp: b_def)
  ultimately show ?thesis
    using assms(1-3,6) read_bytes_0(2-) [where rest = "[]", unfolded append_Nil2]
    by (simp add: read_header_def u32_actor_def)
qed

lemma message_bytes_service:
  "peer_read_u8 (message_bytes mode index t a (b # d)) PEER_N_MESSAGE_DATA = Some b"
proof -
  have "message_bytes mode index t a (b # d) ! 30 = b"
    using message_bytes_data [of mode index t a "b # d"] nth_via_drop [of 30 _ b d] by simp
  then show ?thesis by (simp add: peer_read_u8_def c_load_def)
qed

lemma data_ref_bytes:
  "header_data_size h = int (length d) \<Longrightarrow> data_ref (message_bytes mode index t a d) h = chunk_ref d"
  by (simp add: data_ref_def chunk_ref_def message_bytes_data)

lemma take_bit_6_modes [simp]: "take_bit 6 (0 :: byte) = 0" "take_bit 6 (1 :: byte) = 1"
  by (simp_all add: take_bit_eq_mask mask_eq_exp_minus_1)

lemma session_response_bytes:
  assumes "length addr \<le> 64" and "j < length (peer_slots peer)"
    and "length (address_data (slot_remote (peer_slots peer ! j))) = 64"
    and "header_data_size h = 1 + int (length addr)"
  shows "session_response nd j (message_bytes mode index t a (5 # addr)) h peer =
    Some (peer\<lparr>peer_actor := header_actor h, peer_slots := (peer_slots peer)
      [j := resolve_slot (header_actor h) addr (peer_slots peer ! j)]\<rparr>)"
proof -
  let ?c = "message_bytes mode index t a (5 # addr)" and ?s = "peer_slots peer ! j"
  have "drop 31 ?c = addr"
    using message_bytes_data [of mode index t a "5 # addr"] by (metis drop_drop drop0 drop_Suc_Cons
        numeral_One one_plus_numeral numeral_plus_one semiring_norm(5) Suc_eq_plus1_left One_nat_def)
  then have "c_memcpy (address_data (slot_remote ?s)) 0 ?c 31 (int (length addr)) =
      Some (addr @ drop (length addr) (address_data (slot_remote ?s)))"
    using assms(1,3) by (simp add: c_memcpy_def)
  then show ?thesis
    using assms by (simp add: session_response_def resolve_slot_def)
qed

lemma input_chunk_client:
  assumes "wire_ok m" and "peer_mode peer = PEER_CLIENT" and "alloc_ok (peer_alloc peer)"
    and "j < length (peer_slots peer)"
    and "length (address_data (slot_remote (peer_slots peer ! j))) = 64"
  shows "\<exists>al'. alloc_ok al' \<and> input_chunk nd j (wire_bytes m) (status, peer) =
    Some (status, client_receive j m (peer\<lparr>peer_alloc := al'\<rparr>))"
proof (cases m)
  case (M_application i e)
  obtain t a d where e: "e = (t, a, d)" by (cases e)
  obtain al' where "alloc_ok al'" "queue_insert nd (mutual_queue peer) (int i) t (u32_actor a) (chunk_ref d)
      (peer_alloc peer) = Some (KIT_OK, queue_put (mutual_queue peer) i (t, u32_actor a, d), al')"
    using queue_insert_ok [OF assms(3), of "int i"] assms(1) M_application by fastforce
  then show ?thesis
    using assms(1,2) M_application e
    by (intro exI [of _ al']) (auto simp: input_chunk_def read_header_bytes input_client_defs read_service_def
        data_ref_bytes client_receive_def entry_ok_def is_int64_def)
next
  case (M_heartbeat t a)
  then show ?thesis
    using assms
    by (intro exI [of _ "peer_alloc peer"]) (auto simp: input_chunk_def read_header_bytes input_client_defs
        read_service_def message_bytes_service client_receive_def)
next
  case (M_session_response t a addr)
  then show ?thesis
    using assms
    by (intro exI [of _ "peer_alloc peer"]) (auto simp: input_chunk_def read_header_bytes input_client_defs
        read_service_def message_bytes_service client_receive_def session_response_bytes)
qed

lemma input_chunk_host:
  assumes "wire_ok m" and "peer_mode peer = PEER_HOST" and "alloc_ok (peer_alloc peer)"
    and "j < length (peer_slots peer)"
    and "nd \<or> wire_time m = 0 \<and> wire_actor m = slot_actor (peer_slots peer ! j) \<and>
      (\<forall>t a addr. m \<noteq> M_session_response t a addr)"
  shows "\<exists>al'. alloc_ok al' \<and> input_chunk nd j (wire_bytes m) (status, peer) =
    Some (host_receive j m (status, peer\<lparr>peer_alloc := al'\<rparr>))"
proof (cases m)
  case (M_application i e)
  obtain t a d where e: "e = (t, a, d)" by (cases e)
  let ?s = "peer_slots peer ! j"
  obtain al' where al': "alloc_ok al'" "queue_insert nd (slot_queue ?s) (int i) t (u32_actor a) (chunk_ref d)
      (peer_alloc peer) = Some (KIT_OK, queue_put (slot_queue ?s) i (t, u32_actor a, d), al')"
    using queue_insert_ok [OF assms(3), of "int i"] assms(1) M_application by fastforce
  have "read_header nd (wire_bytes m) = Some \<lparr>header_data_size = int (length d), header_mode = 1,
      header_index = int i, header_time = t, header_actor = u32_actor a\<rparr>"
    using assms(1) M_application e by (simp add: read_header_bytes entry_ok_def is_int64_def)
  then show ?thesis
    using assms(2,4,5) M_application e al' assms(3)
    by (cases "t = 0 \<and> u32_actor a = slot_actor ?s")
      (auto intro!: exI [of _ "if t = 0 \<and> u32_actor a = slot_actor ?s then al' else peer_alloc peer"]
        simp: input_chunk_def input_host_def read_service_def data_ref_bytes host_receive_def)
next
  case (M_heartbeat t a)
  then show ?thesis
    using assms
    by (intro exI [of _ "peer_alloc peer"]) (auto simp: input_chunk_def read_header_bytes input_host_def
        read_service_def message_bytes_service host_receive_def)
next
  case (M_session_response t a addr)
  then show ?thesis
    using assms
    by (intro exI [of _ "peer_alloc peer"]) (auto simp: input_chunk_def read_header_bytes input_host_def
        read_service_def message_bytes_service host_receive_def)
qed

subsection \<open>Receiving packets\<close>

text \<open>The receivers on a list of messages.\<close>

definition client_receives :: "nat \<Rightarrow> wire_message list \<Rightarrow> 'r peer_t \<Rightarrow> 'r peer_t" where
  "client_receives j ms peer = fold (client_receive j) ms peer"

definition host_receives :: "nat \<Rightarrow> wire_message list \<Rightarrow> 'r input_state \<Rightarrow> 'r input_state" where
  "host_receives j ms st = fold (host_receive j) ms st"

lemma receives_simps [simp]:
  "client_receives j [] peer = peer"
  "client_receives j (m # ms) peer = client_receives j ms (client_receive j m peer)"
  "host_receives j [] st = st"
  "host_receives j (m # ms) st = host_receives j ms (host_receive j m st)"
  by (simp_all add: client_receives_def host_receives_def)

text \<open>What receiving does not touch.\<close>

lemma client_receive_frame [simp]:
  "peer_mode (client_receive j m peer) = peer_mode peer"
  "peer_alloc (client_receive j m peer) = peer_alloc peer"
  "queue_index (client_receive j m peer) = queue_index peer"
  "peer_time_local (client_receive j m peer) = peer_time_local peer"
  "peer_mt64 (client_receive j m peer) = peer_mt64 peer"
  "length (peer_slots (client_receive j m peer)) = length (peer_slots peer)"
  by (induction j m peer rule: client_take.induct) (simp_all add: client_receive_def)

lemma client_receive_alloc:
  "client_receive j m (peer\<lparr>peer_alloc := al\<rparr>) = (client_receive j m peer)\<lparr>peer_alloc := al\<rparr>"
  by (induction j m peer rule: client_take.induct) (simp_all add: client_receive_def)

lemma client_receives_alloc:
  "client_receives j ms (peer\<lparr>peer_alloc := al\<rparr>) = (client_receives j ms peer)\<lparr>peer_alloc := al\<rparr>"
  by (induction ms arbitrary: peer) (simp_all add: client_receive_alloc)

lemma client_receive_address:
  assumes "wire_ok m" and "j < length (peer_slots peer)"
    and "length (address_data (slot_remote (peer_slots peer ! j))) = 64"
  shows "length (address_data (slot_remote (peer_slots (client_receive j m peer) ! j))) = 64"
  using assms
  by (induction j m peer rule: client_take.induct) (auto simp: client_receive_def resolve_slot_def)

lemma client_receive_ids:
  "map (\<lambda>s. (endpoint_id (slot_local s), endpoint_id (slot_remote s)))
     (peer_slots (client_receive j m peer)) =
   map (\<lambda>s. (endpoint_id (slot_local s), endpoint_id (slot_remote s))) (peer_slots peer)"
  by (induction j m peer rule: client_take.induct)
    (simp_all add: client_receive_def resolve_slot_def list_update_keeps(1))

lemma input_chunks_client:
  assumes "\<forall>m \<in> set ms. wire_ok m" and "peer_mode peer = PEER_CLIENT" and "alloc_ok (peer_alloc peer)"
    and "j < length (peer_slots peer)"
    and "length (address_data (slot_remote (peer_slots peer ! j))) = 64"
  shows "\<exists>al'. alloc_ok al' \<and> input_chunks nd j (map wire_bytes ms) (status, peer) =
    Some (status, client_receives j ms (peer\<lparr>peer_alloc := al'\<rparr>))"
  using assms
proof (induction ms arbitrary: peer)
  case Nil
  then show ?case by (auto intro: exI [of _ "peer_alloc peer"])
next
  case (Cons m ms)
  obtain al1 where al1: "alloc_ok al1" "input_chunk nd j (wire_bytes m) (status, peer) =
      Some (status, client_receive j m (peer\<lparr>peer_alloc := al1\<rparr>))"
    using input_chunk_client [of m peer j nd status] Cons.prems by auto
  let ?p = "client_receive j m (peer\<lparr>peer_alloc := al1\<rparr>)"
  obtain al2 where "alloc_ok al2" "input_chunks nd j (map wire_bytes ms) (status, ?p) =
      Some (status, client_receives j ms (?p\<lparr>peer_alloc := al2\<rparr>))"
    using Cons.IH [of ?p] Cons.prems al1(1) client_receive_address [of m j "peer\<lparr>peer_alloc := al1\<rparr>"] by auto
  then show ?case using al1(2) by (auto simp: client_receive_alloc)
qed

lemma host_receive_frame:
  "peer_mode (snd (host_receive j m st)) = peer_mode (snd st)"
  "peer_alloc (snd (host_receive j m st)) = peer_alloc (snd st)"
  "mutual_queue (snd (host_receive j m st)) = mutual_queue (snd st)"
  "length (peer_slots (snd (host_receive j m st))) = length (peer_slots (snd st))"
  "slot_actor (peer_slots (snd (host_receive j m st)) ! j) = slot_actor (peer_slots (snd st) ! j)"
  by (induction j m st rule: host_take.induct)
    (auto simp: host_receive_def list_update_keeps(2))

lemma host_receive_alloc:
  "host_receive j m (status, peer\<lparr>peer_alloc := al\<rparr>) =
    (case host_receive j m (status, peer) of (s, p) \<Rightarrow> (s, p\<lparr>peer_alloc := al\<rparr>))"
  by (induction j m "(status, peer)" rule: host_take.induct) (simp_all add: host_receive_def)

lemma host_receives_alloc:
  "host_receives j ms (status, peer\<lparr>peer_alloc := al\<rparr>) =
    (case host_receives j ms (status, peer) of (s, p) \<Rightarrow> (s, p\<lparr>peer_alloc := al\<rparr>))"
proof (induction ms arbitrary: status peer)
  case (Cons m ms)
  obtain s p where "host_receive j m (status, peer) = (s, p)" by fastforce
  then show ?case using Cons.IH [of s p] by (simp add: host_receive_alloc)
qed simp

text \<open>The messages a debug build's assertions let through on slot \<open>j\<close>.\<close>

definition host_accepts :: "bool \<Rightarrow> ptrdiff_t \<Rightarrow> wire_message \<Rightarrow> bool" where
  "host_accepts nd actor m \<longleftrightarrow> nd \<or> wire_time m = 0 \<and> wire_actor m = actor \<and>
     (case m of M_session_response _ _ _ \<Rightarrow> False | _ \<Rightarrow> True)"

lemma input_chunks_host:
  assumes "\<forall>m \<in> set ms. wire_ok m" and "peer_mode peer = PEER_HOST" and "alloc_ok (peer_alloc peer)"
    and "j < length (peer_slots peer)"
    and "\<forall>m \<in> set ms. host_accepts nd (slot_actor (peer_slots peer ! j)) m"
  shows "\<exists>al'. alloc_ok al' \<and> input_chunks nd j (map wire_bytes ms) (status, peer) =
    Some (host_receives j ms (status, peer\<lparr>peer_alloc := al'\<rparr>))"
  using assms
proof (induction ms arbitrary: status peer)
  case Nil
  then show ?case by (auto intro: exI [of _ "peer_alloc peer"])
next
  case (Cons m ms)
  obtain al1 where al1: "alloc_ok al1" "input_chunk nd j (wire_bytes m) (status, peer) =
      Some (host_receive j m (status, peer\<lparr>peer_alloc := al1\<rparr>))"
    using input_chunk_host [of m peer j nd status] Cons.prems
    by (auto simp: host_accepts_def split: wire_message.splits)
  obtain s p where sp: "host_receive j m (status, peer\<lparr>peer_alloc := al1\<rparr>) = (s, p)" by fastforce
  obtain al2 where "alloc_ok al2" "input_chunks nd j (map wire_bytes ms) (s, p) =
      Some (host_receives j ms (s, p\<lparr>peer_alloc := al2\<rparr>))"
    using Cons.IH [of p s] Cons.prems al1(1)
      host_receive_frame [of j m "(status, peer\<lparr>peer_alloc := al1\<rparr>)", unfolded sp] by auto
  moreover have "host_receive j m (status, peer\<lparr>peer_alloc := al2\<rparr>) = (s, p\<lparr>peer_alloc := al2\<rparr>)"
    using sp host_receive_alloc [of j m status al2 "peer\<lparr>peer_alloc := al1\<rparr>"] by simp
  ultimately show ?case using al1(2) sp by auto
qed

subsection \<open>Packets of protocol messages\<close>

definition wire_packet :: "ptrdiff_t \<Rightarrow> ptrdiff_t \<Rightarrow> wire_message list \<Rightarrow> peer_packet_t" where
  "wire_packet src dst ms = closed_packet src dst (concat (map wire_bytes ms))"

definition packet_ok :: "wire_message list \<Rightarrow> bool" where
  "packet_ok ms \<longleftrightarrow> list_all wire_ok ms \<and> length (concat (map wire_bytes ms)) \<le> 385"

text \<open>The slot of a peer that receives the packets from \<open>src\<close> to \<open>dst\<close>.\<close>

definition route :: "ptrdiff_t \<Rightarrow> ptrdiff_t \<Rightarrow> 'r peer_t \<Rightarrow> nat option" where
  "route src dst peer = find_slot (\<lambda>slot. endpoint_id (slot_local slot) = dst \<and>
     endpoint_id (slot_remote slot) = src) 0 (peer_slots peer)"

lemma wire_packet_ids [simp]:
  "source_id (wire_packet src dst ms) = src" "destination_id (wire_packet src dst ms) = dst"
  by (simp_all add: wire_packet_def closed_packet_def)

lemma chunk_wf_wire: "wire_ok m \<Longrightarrow> chunk_wf (wire_bytes m)"
  by (cases m) (auto simp: entry_ok_def intro!: chunk_wf_message)

lemma route_Some:
  assumes "route src dst peer = Some j"
  shows "j < length (peer_slots peer)" and "endpoint_id (slot_local (peer_slots peer ! j)) = dst"
    and "endpoint_id (slot_remote (peer_slots peer ! j)) = src"
  using find_slot_Some [OF assms [unfolded route_def]] by simp_all

lemma route_slot_ids: "slot_ids peer' = slot_ids peer \<Longrightarrow> route src dst peer' = route src dst peer"
  unfolding route_def slot_ids_def
  by (rule find_slot_cong [where f = "\<lambda>s. (endpoint_id (slot_local s), endpoint_id (slot_remote s))"]) auto

lemma unpack_wire_packet:
  assumes "packet_ok ms" and "alloc_ok al"
  shows "\<exists>al'. alloc_ok al' \<and>
    peer_unpack nd [wire_packet src dst ms] [] al = Some (KIT_OK, map wire_bytes ms, al')"
  using unpack_closed_packets [of "[map wire_bytes ms]" al nd src dst KIT_OK "[]"] assms
  by (simp add: peer_unpack_def wire_packet_def packet_ok_def list_all_iff chunk_wf_wire)

lemma input_packet_route:
  assumes "route src dst peer = Some j" and "packet_ok ms" and "alloc_ok (peer_alloc peer)"
  shows "\<exists>al. alloc_ok al \<and> input_packet nd (wire_packet src dst ms) (status, peer) =
    input_chunks nd j (map wire_bytes ms) (status, peer\<lparr>peer_alloc := al\<rparr>)"
proof -
  have "find_slot (\<lambda>slot. endpoint_id (slot_local slot) = dst) 0 (peer_slots peer) \<noteq> None"
    using route_Some [OF assms(1)] by (auto simp: find_slot_None)
  moreover have "find_slot (slot_matches (wire_packet src dst ms)) 0 (peer_slots peer) = Some j"
    using assms(1) by (simp add: route_def slot_matches_def [abs_def])
  moreover obtain al where "alloc_ok al" "peer_unpack nd [wire_packet src dst ms] [] (peer_alloc peer) =
      Some (KIT_OK, map wire_bytes ms, al)"
    using unpack_wire_packet [OF assms(2,3)] by blast
  ultimately show ?thesis by (auto simp: input_packet_def)
qed

lemma peer_wf_address:
  "peer_wf peer \<Longrightarrow> j < length (peer_slots peer) \<Longrightarrow>
    length (address_data (slot_remote (peer_slots peer ! j))) = 64"
  by (simp add: peer_wf_def list_all_length mode_slot_wf_def slot_wf_def endpoint_wf_def)

lemma client_receives_frame [simp]:
  "peer_mode (client_receives j ms peer) = peer_mode peer"
  "peer_alloc (client_receives j ms peer) = peer_alloc peer"
  "slot_ids (client_receives j ms peer) = slot_ids peer"
  by (induction ms arbitrary: peer) (simp_all add: slot_ids_def client_receive_ids)

lemma client_receives_append:
  "client_receives j (ms @ ms') peer = client_receives j ms' (client_receives j ms peer)"
  by (simp add: client_receives_def)

lemma client_receives_address:
  assumes "list_all wire_ok ms" and "j < length (peer_slots peer)"
    and "length (address_data (slot_remote (peer_slots peer ! j))) = 64"
  shows "length (address_data (slot_remote (peer_slots (client_receives j ms peer) ! j))) = 64"
  using assms by (induction ms arbitrary: peer) (simp_all add: client_receive_address)

lemma input_packets_client:
  assumes "\<forall>ms \<in> set mss. packet_ok ms" and "peer_mode peer = PEER_CLIENT" and "alloc_ok (peer_alloc peer)"
    and "route src dst peer = Some j"
    and "length (address_data (slot_remote (peer_slots peer ! j))) = 64"
  shows "\<exists>al'. alloc_ok al' \<and> input_packets nd (map (wire_packet src dst) mss) (status, peer) =
    Some (status, client_receives j (concat mss) (peer\<lparr>peer_alloc := al'\<rparr>))"
  using assms
proof (induction mss arbitrary: peer)
  case Nil
  then show ?case by (auto intro: exI [of _ "peer_alloc peer"])
next
  case (Cons ms mss)
  have j: "j < length (peer_slots peer)" by (rule route_Some [OF Cons.prems(4)])
  have ms: "packet_ok ms" "\<forall>m \<in> set ms. wire_ok m" "list_all wire_ok ms"
    using Cons.prems(1) by (auto simp: packet_ok_def list_all_iff)
  obtain al0 where al0: "alloc_ok al0" "input_packet nd (wire_packet src dst ms) (status, peer) =
      input_chunks nd j (map wire_bytes ms) (status, peer\<lparr>peer_alloc := al0\<rparr>)"
    using input_packet_route [OF Cons.prems(4) ms(1) Cons.prems(3)] by blast
  obtain al1 where al1: "alloc_ok al1" "input_packet nd (wire_packet src dst ms) (status, peer) =
      Some (status, client_receives j ms (peer\<lparr>peer_alloc := al1\<rparr>))"
    using input_chunks_client [OF ms(2), of "peer\<lparr>peer_alloc := al0\<rparr>" j nd status] Cons.prems al0 j by auto
  let ?p = "client_receives j ms (peer\<lparr>peer_alloc := al1\<rparr>)"
  have "route src dst ?p = Some j"
    using route_slot_ids [of ?p peer] Cons.prems(4) by simp
  moreover have "length (address_data (slot_remote (peer_slots ?p ! j))) = 64"
    using client_receives_address [OF ms(3), of j "peer\<lparr>peer_alloc := al1\<rparr>"] j Cons.prems(5) by simp
  ultimately obtain al2 where "alloc_ok al2" "input_packets nd (map (wire_packet src dst) mss) (status, ?p) =
      Some (status, client_receives j (concat mss) (?p\<lparr>peer_alloc := al2\<rparr>))"
    using Cons.IH [of ?p] Cons.prems(1,2) al1(1) by auto
  then show ?case using al1(2) by (auto simp: client_receives_append client_receives_alloc)
qed

lemma host_receive_ids: "slot_ids (snd (host_receive j m st)) = slot_ids (snd st)"
  by (induction j m st rule: host_take.induct)
    (simp_all add: host_receive_def slot_ids_def list_update_keeps(1))

lemma host_receives_frame:
  "peer_mode (snd (host_receives j ms st)) = peer_mode (snd st)"
  "peer_alloc (snd (host_receives j ms st)) = peer_alloc (snd st)"
  "slot_ids (snd (host_receives j ms st)) = slot_ids (snd st)"
  "slot_actor (peer_slots (snd (host_receives j ms st)) ! j) = slot_actor (peer_slots (snd st) ! j)"
  by (induction ms arbitrary: st) (simp_all add: host_receive_frame host_receive_ids)

lemma host_receives_append:
  "host_receives j (ms @ ms') st = host_receives j ms' (host_receives j ms st)"
  by (simp add: host_receives_def)

lemma input_packets_host:
  assumes "\<forall>ms \<in> set mss. packet_ok ms" and "peer_mode peer = PEER_HOST" and "alloc_ok (peer_alloc peer)"
    and "route src dst peer = Some j"
    and "\<forall>m \<in> set (concat mss). host_accepts nd (slot_actor (peer_slots peer ! j)) m"
  shows "\<exists>al'. alloc_ok al' \<and> input_packets nd (map (wire_packet src dst) mss) (status, peer) =
    Some (host_receives j (concat mss) (status, peer\<lparr>peer_alloc := al'\<rparr>))"
  using assms
proof (induction mss arbitrary: status peer)
  case Nil
  then show ?case by (auto intro: exI [of _ "peer_alloc peer"])
next
  case (Cons ms mss)
  have j: "j < length (peer_slots peer)" by (rule route_Some [OF Cons.prems(4)])
  have ms: "packet_ok ms" "\<forall>m \<in> set ms. wire_ok m"
    using Cons.prems(1) by (auto simp: packet_ok_def list_all_iff)
  obtain al0 where al0: "alloc_ok al0" "input_packet nd (wire_packet src dst ms) (status, peer) =
      input_chunks nd j (map wire_bytes ms) (status, peer\<lparr>peer_alloc := al0\<rparr>)"
    using input_packet_route [OF Cons.prems(4) ms(1) Cons.prems(3)] by blast
  obtain al1 where al1: "alloc_ok al1" "input_packet nd (wire_packet src dst ms) (status, peer) =
      Some (host_receives j ms (status, peer\<lparr>peer_alloc := al1\<rparr>))"
    using input_chunks_host [OF ms(2), of "peer\<lparr>peer_alloc := al0\<rparr>" j nd status] Cons.prems al0 j by auto
  obtain s p where sp: "host_receives j ms (status, peer\<lparr>peer_alloc := al1\<rparr>) = (s, p)" by fastforce
  note frame = host_receives_frame [of j ms "(status, peer\<lparr>peer_alloc := al1\<rparr>)", unfolded sp, simplified]
  have "route src dst p = Some j" using route_slot_ids [OF frame(3)] Cons.prems(4) by simp
  then obtain al2 where al2: "alloc_ok al2" "input_packets nd (map (wire_packet src dst) mss) (s, p) =
      Some (host_receives j (concat mss) (s, p\<lparr>peer_alloc := al2\<rparr>))"
    using Cons.IH [of p s] Cons.prems(1,2,5) al1(1) frame by auto
  have "host_receives j ms (status, peer\<lparr>peer_alloc := al2\<rparr>) = (s, p\<lparr>peer_alloc := al2\<rparr>)"
    using sp host_receives_alloc [of j ms status al2 "peer\<lparr>peer_alloc := al1\<rparr>"] by simp
  then show ?case using al1(2) al2 sp by (auto simp: host_receives_append)
qed

subsection \<open>The queues of the receivers\<close>

text \<open>The application messages, as the receiver stores them.\<close>

fun app_entry :: "wire_message \<Rightarrow> (nat \<times> entry) list" where
  "app_entry (M_application i (t, a, d)) = [(i, t, u32_actor a, d)]"
| "app_entry m = []"

definition app_entries :: "wire_message list \<Rightarrow> (nat \<times> entry) list" where
  "app_entries ms = concat (map app_entry ms)"

lemma client_receives_queue:
  "mutual_queue (client_receives j ms peer) = queue_log.puts (mutual_queue peer) (app_entries ms)"
proof (induction ms arbitrary: peer)
  case (Cons m ms)
  show ?case
  proof (cases m)
    case (M_application i e)
    then show ?thesis using Cons.IH by (cases e) (simp add: app_entries_def client_receive_def)
  qed (use Cons.IH in \<open>simp_all add: app_entries_def client_receive_def\<close>)
qed (simp add: app_entries_def)

lemma client_receives_time:
  "peer_time (client_receives j ms peer) = fold max (map wire_time ms) (peer_time peer)"
proof (induction ms arbitrary: peer)
  case (Cons m ms)
  have "peer_time (client_receive j m peer) = max (wire_time m) (peer_time peer)"
    by (simp add: client_receive_def max.commute)
  then show ?case using Cons.IH by simp
qed simp

lemma host_receives_queue:
  assumes "j < length (peer_slots peer)"
    and "\<forall>m \<in> set ms. host_accepts False (slot_actor (peer_slots peer ! j)) m"
  shows "host_receives j ms (status, peer) = (status, peer\<lparr>peer_slots := (peer_slots peer)[j :=
    (peer_slots peer ! j)\<lparr>slot_queue := queue_log.puts (slot_queue (peer_slots peer ! j)) (app_entries ms)\<rparr>]\<rparr>)"
  using assms
proof (induction ms arbitrary: peer)
  case (Cons m ms)
  show ?case
  proof (cases m)
    case (M_application i e)
    obtain t a d where e: "e = (t, a, d)" by (cases e)
    let ?q = "queue_put (slot_queue (peer_slots peer ! j)) i (t, u32_actor a, d)"
    let ?p = "peer\<lparr>peer_slots := (peer_slots peer)[j := (peer_slots peer ! j)\<lparr>slot_queue := ?q\<rparr>]\<rparr>"
    have "host_receive j m (status, peer) = (status, ?p)"
      using Cons.prems M_application e by (simp add: host_receive_def host_accepts_def)
    then show ?thesis
      using Cons.IH [of ?p] Cons.prems M_application e by (simp add: app_entries_def)
  qed (use Cons in \<open>auto simp: app_entries_def host_receive_def host_accepts_def\<close>)
qed (simp add: app_entries_def)

lemma peer_input_client:
  assumes "peer_wf peer" and "peer_mode peer = PEER_CLIENT" and "alloc_ok (peer_alloc peer)"
    and "route src dst peer = Some j" and "\<forall>ms \<in> set mss. packet_ok ms"
  shows "\<exists>al'. peer_input nd (Some peer) (map (wire_packet src dst) mss) =
    Some (KIT_OK, Some (client_receives j (concat mss) (peer\<lparr>peer_alloc := al'\<rparr>)))"
proof -
  have "length (address_data (slot_remote (peer_slots peer ! j))) = 64"
    by (rule peer_wf_address [OF assms(1) route_Some(1) [OF assms(4)]])
  then show ?thesis
    using input_packets_client [OF assms(5,2,3,4), of nd KIT_OK]
    by (auto simp: peer_input_def with_peer_def peer_input_body_def)
qed

subsection \<open>Properties\<close>

text \<open>C17. Refinement, client: \<open>peer_input\<close> on any sequence of packets of protocol messages from the host of
  slot \<open>j\<close> succeeds and does to the peer what receiving the messages one by one does: application messages
  go to their index in the mutual queue, the session response sets the actor and the host's new address,
  and the mutual time is the largest time seen.\<close>

theorem client_input_refines:
  assumes "peer_wf peer" and "peer_mode peer = PEER_CLIENT" and "alloc_ok (peer_alloc peer)"
    and "route src dst peer = Some j" and "\<forall>ms \<in> set mss. packet_ok ms"
  shows "\<exists>al'. peer_input nd (Some peer) (map (wire_packet src dst) mss) =
    Some (KIT_OK, Some (fold (client_receive j) (concat mss) (peer\<lparr>peer_alloc := al'\<rparr>)))"
  using peer_input_client [OF assms] by (simp add: client_receives_def)

text \<open>A client's view of a host with id 10: a session response, two messages out of order, a heartbeat.\<close>

definition example_messages :: "wire_message list list" where
  "example_messages = [[M_session_response 4 1 [192, 168, 0, 1, 0, 80], M_application 1 (5, 0, [7, 8])],
     [M_application 0 (3, 2, [6]), M_heartbeat 9 0]]"

lemma example_messages_ok: "\<forall>ms \<in> set example_messages. packet_ok ms"
  by (simp add: example_messages_def packet_ok_def entry_ok_def is_int64_def)

lemma example_client_route: "route 10 20 example_client = Some 0"
  by (simp add: route_def example_defs)

theorem client_input_refines_witness:
  "\<exists>al'. peer_input False (Some example_client) (map (wire_packet 10 20) example_messages) =
    Some (KIT_OK, Some (fold (client_receive 0) (concat example_messages) (example_client\<lparr>peer_alloc := al'\<rparr>)))"
  by (rule client_input_refines [OF example_client_wf _ _ example_client_route example_messages_ok])
    (simp_all add: example_client_def)

text \<open>C16. Agreement of the replicas: when every application message of the packets is one the host has
  under that index in its log, and what the client holds agrees with that log, then after
  \<open>peer_input\<close> the client's queue still agrees with the log; and once the packets cover every index
  below \<open>n\<close>, in any order, with repetitions, the client holds exactly the log's first \<open>n\<close> messages.\<close>

theorem client_input_agrees:
  assumes "peer_wf peer" and "peer_mode peer = PEER_CLIENT" and "alloc_ok (peer_alloc peer)"
    and "route src dst peer = Some j" and "\<forall>ms \<in> set mss. packet_ok ms"
    and "\<forall>(i, e) \<in> set (app_entries (concat mss)). log i = Some e"
    and "\<forall>i e. queue_get (mutual_queue peer) i = Some e \<longrightarrow> log i = Some e"
  shows "\<exists>peer'. peer_input nd (Some peer) (map (wire_packet src dst) mss) = Some (KIT_OK, Some peer') \<and>
    (\<forall>i e. queue_get (mutual_queue peer') i = Some e \<longrightarrow> log i = Some e) \<and>
    (\<forall>n. {..<n} \<subseteq> fst ` set (app_entries (concat mss)) \<longrightarrow>
      (\<forall>i < n. queue_get (mutual_queue peer') i = log i))"
proof -
  obtain al' where run: "peer_input nd (Some peer) (map (wire_packet src dst) mss) =
      Some (KIT_OK, Some (client_receives j (concat mss) (peer\<lparr>peer_alloc := al'\<rparr>)))"
    using peer_input_client [OF assms(1-5)] by blast
  have agrees: "queue_log.agrees (mutual_queue peer) log" using assms(7) by (simp add: queue_log.agrees_def)
  show ?thesis
  proof (intro exI conjI)
    show "\<forall>i e. queue_get (mutual_queue (client_receives j (concat mss) (peer\<lparr>peer_alloc := al'\<rparr>))) i = Some e
        \<longrightarrow> log i = Some e"
      using queue_log.agrees_puts [OF agrees assms(6)]
      by (simp add: client_receives_queue queue_log.agrees_def)
    show "\<forall>n. {..<n} \<subseteq> fst ` set (app_entries (concat mss)) \<longrightarrow> (\<forall>i < n. queue_get (mutual_queue
        (client_receives j (concat mss) (peer\<lparr>peer_alloc := al'\<rparr>))) i = log i)"
      using queue_log.puts_complete [OF agrees assms(6)] by (simp add: client_receives_queue)
  qed (rule run)
qed

theorem client_input_agrees_witness:
  "\<exists>peer'. peer_input False (Some example_client) (map (wire_packet 10 20) example_messages) =
      Some (KIT_OK, Some peer') \<and>
    (\<forall>i e. queue_get (mutual_queue peer') i = Some e \<longrightarrow> [0 \<mapsto> (3, 2, [6]), 1 \<mapsto> (5, 0, [7, 8])] i = Some e) \<and>
    (\<forall>n. {..<n} \<subseteq> fst ` set (app_entries (concat example_messages)) \<longrightarrow>
      (\<forall>i < n. queue_get (mutual_queue peer') i = [0 \<mapsto> (3, 2, [6]), 1 \<mapsto> (5, 0, [7, 8])] i))"
  by (rule client_input_agrees [OF example_client_wf _ _ example_client_route example_messages_ok])
    (simp_all add: example_client_def example_messages_def app_entries_def queue_get_def)

text \<open>What a client ends up with does not depend on the order of the packets, on how messages are
  grouped into packets, or on repetitions: two deliveries of messages of one log that mention the same
  indices give the same mutual queue.\<close>

theorem client_input_order_independent:
  assumes "peer_wf peer" and "peer_mode peer = PEER_CLIENT" and "alloc_ok (peer_alloc peer)"
    and "route src dst peer = Some j"
    and "\<forall>ms \<in> set mss. packet_ok ms" and "\<forall>ms \<in> set mss'. packet_ok ms"
    and "\<forall>(i, e) \<in> set (app_entries (concat mss)) \<union> set (app_entries (concat mss')). log i = Some e"
    and "fst ` set (app_entries (concat mss)) = fst ` set (app_entries (concat mss'))"
  shows "\<exists>p p'. peer_input nd (Some peer) (map (wire_packet src dst) mss) = Some (KIT_OK, Some p) \<and>
    peer_input nd (Some peer) (map (wire_packet src dst) mss') = Some (KIT_OK, Some p') \<and>
    mutual_queue p = mutual_queue p'"
  using peer_input_client [OF assms(1-4) assms(5)] peer_input_client [OF assms(1-4) assms(6)]
    queue_puts_same [OF assms(7,8), of "mutual_queue peer"]
  by (fastforce simp: client_receives_queue)

theorem client_input_order_independent_witness:
  "\<exists>p p'. peer_input False (Some example_client) (map (wire_packet 10 20) example_messages) =
      Some (KIT_OK, Some p) \<and>
    peer_input False (Some example_client) (map (wire_packet 10 20) (rev example_messages @ example_messages)) =
      Some (KIT_OK, Some p') \<and> mutual_queue p = mutual_queue p'"
  by (rule client_input_order_independent [OF example_client_wf _ _ example_client_route example_messages_ok,
        where log = "[0 \<mapsto> (3, 2, [6]), 1 \<mapsto> (5, 0, [7, 8])]"])
    (auto simp: example_client_def app_entries_def example_messages_def packet_ok_def entry_ok_def is_int64_def)

text \<open>C18. Refinement, host, assertions off: \<open>peer_input\<close> on packets of protocol messages from the client of
  slot \<open>j\<close> equals receiving the messages one by one: a message with a time other than 0, or with another
  actor than the slot's, is reported and changes nothing; of the others, an application message goes
  into the slot's queue under its index, a heartbeat is accepted silently and changes nothing, and a session response is
  reported as an unknown service.\<close>

theorem host_input_refines:
  assumes "peer_mode peer = PEER_HOST" and "alloc_ok (peer_alloc peer)"
    and "route src dst peer = Some j" and "\<forall>ms \<in> set mss. packet_ok ms"
  shows "\<exists>al' status' peer'. peer_input True (Some peer) (map (wire_packet src dst) mss) =
      Some (status', Some peer') \<and>
    (status', peer') = fold (host_receive j) (concat mss) (KIT_OK, peer\<lparr>peer_alloc := al'\<rparr>)"
proof -
  have "\<forall>m \<in> set (concat mss). host_accepts True (slot_actor (peer_slots peer ! j)) m"
    by (simp add: host_accepts_def)
  then obtain al' where al': "input_packets True (map (wire_packet src dst) mss) (KIT_OK, peer) =
      Some (host_receives j (concat mss) (KIT_OK, peer\<lparr>peer_alloc := al'\<rparr>))"
    using input_packets_host [OF assms(4,1,2,3), of True KIT_OK] by blast
  obtain s p where "host_receives j (concat mss) (KIT_OK, peer\<lparr>peer_alloc := al'\<rparr>) = (s, p)" by fastforce
  with al' show ?thesis
    by (intro exI [of _ al'] exI [of _ s] exI [of _ p])
      (simp add: peer_input_def with_peer_def peer_input_body_def host_receives_def)
qed

text \<open>The example host after the client with id 20 took slot 1.\<close>

definition session_host :: "unit peer_t" where
  "session_host = example_host\<lparr>peer_slots := (peer_slots example_host)
     [1 := assigned_slot (zero_packet\<lparr>source_id := 20, destination_id := 10\<rparr>) 1 (peer_slots example_host ! 1)]\<rparr>"

lemma session_host_wf: "peer_wf session_host"
  by (simp add: session_host_def assigned_slot_def example_defs peer_wf_def mode_slot_wf_def queue_wf_def
      wf_defs is_int64_def)

lemma session_host_route: "route 20 11 session_host = Some 1"
  by (simp add: route_def session_host_def assigned_slot_def example_defs)

theorem host_input_refines_witness:
  "\<exists>al' status' peer'. peer_input True (Some session_host) (map (wire_packet 20 11)
      [[M_application 0 (0, 1, [5]), M_heartbeat 3 1], [M_application 1 (0, 2, [6])]]) = Some (status', Some peer') \<and>
    (status', peer') = fold (host_receive 1)
      (concat [[M_application 0 (0, 1, [5]), M_heartbeat 3 1], [M_application 1 (0, 2, [6])]])
      (KIT_OK, session_host\<lparr>peer_alloc := al'\<rparr>)"
  by (rule host_input_refines [OF _ _ session_host_route])
    (simp_all add: session_host_def example_host_def packet_ok_def entry_ok_def is_int64_def)

text \<open>In both builds, the accepted messages of a client (time 0, the slot's actor) end up in the queue of
  its slot under their indices, first one wins, and nothing else of the host changes.\<close>

theorem host_input_accepts:
  assumes "peer_mode peer = PEER_HOST" and "alloc_ok (peer_alloc peer)"
    and "route src dst peer = Some j" and "\<forall>ms \<in> set mss. packet_ok ms"
    and "\<forall>m \<in> set (concat mss). host_accepts False (slot_actor (peer_slots peer ! j)) m"
  shows "\<exists>al' q. peer_input nd (Some peer) (map (wire_packet src dst) mss) = Some (KIT_OK, Some (peer
      \<lparr>peer_alloc := al', peer_slots := (peer_slots peer)[j := (peer_slots peer ! j)\<lparr>slot_queue := q\<rparr>]\<rparr>)) \<and>
    (\<forall>i. queue_get q i = (case queue_get (slot_queue (peer_slots peer ! j)) i of
      Some e \<Rightarrow> Some e | None \<Rightarrow> map_of (app_entries (concat mss)) i))"
proof -
  have "\<forall>m \<in> set (concat mss). host_accepts nd (slot_actor (peer_slots peer ! j)) m"
    using assms(5) by (auto simp: host_accepts_def)
  then obtain al' where "input_packets nd (map (wire_packet src dst) mss) (KIT_OK, peer) =
      Some (host_receives j (concat mss) (KIT_OK, peer\<lparr>peer_alloc := al'\<rparr>))"
    using input_packets_host [OF assms(4,1,2,3), of nd KIT_OK] by blast
  then show ?thesis
    using host_receives_queue [of j "peer\<lparr>peer_alloc := al'\<rparr>" "concat mss" KIT_OK] assms(5)
      route_Some(1) [OF assms(3)]
    by (intro exI [of _ al'] exI [of _ "queue_log.puts (slot_queue (peer_slots peer ! j)) (app_entries (concat mss))"])
      (simp add: peer_input_def with_peer_def peer_input_body_def queue_log.get_puts)
qed

theorem host_input_accepts_witness:
  "\<exists>al' q. peer_input False (Some session_host) (map (wire_packet 20 11)
      [[M_application 1 (0, 1, [5]), M_heartbeat 0 1], [M_application 0 (0, 1, [6])]]) =
      Some (KIT_OK, Some (session_host\<lparr>peer_alloc := al', peer_slots := (peer_slots session_host)
        [1 := (peer_slots session_host ! 1)\<lparr>slot_queue := q\<rparr>]\<rparr>)) \<and>
    (\<forall>i. queue_get q i = (case queue_get (slot_queue (peer_slots session_host ! 1)) i of
      Some e \<Rightarrow> Some e | None \<Rightarrow> map_of (app_entries
        (concat [[M_application 1 (0, 1, [5]), M_heartbeat 0 1], [M_application 0 (0, 1, [6])]])) i))"
  by (rule host_input_accepts [OF _ _ session_host_route])
    (simp_all add: session_host_def example_host_def packet_ok_def entry_ok_def is_int64_def host_accepts_def
      assigned_slot_def addressed_slot_def)

end
