(* ===== verification/Peer_Safety.thy ===== *)
theory Peer_Safety
  imports Peer_Protocol
begin

text \<open>
  The bytes \<open>peer_input\<close> reads of a packet it did not make. \<open>peer_unpack\<close> stays within the packet
  (\<open>Peer_Packet\<close>), but it hands out chunks of any size, and \<open>peer_input\<close> reads the 30 bytes of a message
  header from each of them. For a host the exact condition is shown: a packet from a sender with a slot is
  handled if every message in it has room for its header, and is a read outside the chunk if not.
\<close>

lemma read_header_total:
  assumes "30 \<le> length c"
  shows "\<exists>h. read_header True c = Some h \<and> peer_read_message_index c 0 = Some (header_index h)"
  using assms
  by (simp add: read_header_def peer_read_message_data_size_def peer_read_message_size_def peer_read_message_mode_def
      peer_read_message_index_def peer_read_message_time_def peer_read_message_actor_def peer_read_u64_def
      peer_read_u32_def c_load_def)

lemma header_index_bound:
  assumes "peer_read_message_index c 0 = Some i"
  shows "i \<le> INT64_MAX"
  using assms sint_is_int64 by (auto simp: peer_read_message_index_def is_int64_def dest!: bind_eq_SomeD)

lemma queue_insert_total:
  assumes "alloc_ok al" and "index < INT64_MAX"
  shows "\<exists>s q' al'. queue_insert True q index t a (chunk_ref d) al = Some (s, q', al')"
proof (cases "0 \<le> index")
  case True
  then show ?thesis using queue_insert_ok [OF assms(1) True assms(2)] by blast
next
  case False
  then show ?thesis by (simp add: queue_insert_def)
qed

lemma input_host_total:
  assumes "chunk_read c h" and "30 \<le> length c" and "header_index h < INT64_MAX" and "j < length (peer_slots p)"
    and "alloc_ok (peer_alloc p)"
  shows "\<exists>s' p'. input_host True j c h (s, p) = Some (s', p') \<and> length (peer_slots p') = length (peer_slots p) \<and>
    peer_mode p' = peer_mode p"
proof -
  have "\<exists>service. read_service c h = Some service"
    using assms(1,2) by (auto simp: read_service_def peer_read_u8_def c_load_def chunk_read_def)
  moreover have "c_load (peer_slots p) (int j) = Some (peer_slots p ! j)" using assms(4) by (simp add: c_load_def)
  moreover obtain s1 q al where "queue_insert True (slot_queue (peer_slots p ! j)) (header_index h) (header_time h)
      (header_actor h) (data_ref c h) (peer_alloc p) = Some (s1, q, al)"
    using queue_insert_total [OF assms(5,3)] assms(1) unfolding chunk_read_def by metis
  ultimately show ?thesis
    using assms(4) by (auto simp: input_host_def c_store_def)
qed

lemma input_chunks_safe:
  assumes "\<forall>c \<in> set cs. chunk_of packet c" and "length (packet_data packet) = 400" and "peer_mode p = PEER_HOST"
    and "alloc_ok (peer_alloc p)" and "j < length (peer_slots p)"
    and "\<forall>c \<in> set cs. peer_read_message_index c 0 \<noteq> Some INT64_MAX"
  shows "(\<exists>st. input_chunks True j cs (s, p) = Some st) \<longleftrightarrow> (\<forall>c \<in> set cs. 30 \<le> length c)"
  using assms
proof (induction cs arbitrary: s p)
  case (Cons c cs)
  show ?case
  proof (cases "30 \<le> length c")
    case False
    then have "read_header True c = None" using read_header_Some(1) [of True c] by (cases "read_header True c") auto
    then show ?thesis using False by (simp add: input_chunk_def)
  next
    case True
    obtain h where h: "read_header True c = Some h" "peer_read_message_index c 0 = Some (header_index h)"
      using read_header_total [OF True] by blast
    then have index: "header_index h < INT64_MAX" using header_index_bound [OF h(2)] Cons.prems(6) by force
    have "chunk_read c h" using chunk_readI [OF _ Cons.prems(2) h(1)] Cons.prems(1) by simp
    then obtain s1 p1 where one: "input_host True j c h (s, p) = Some (s1, p1)"
      and p1: "length (peer_slots p1) = length (peer_slots p)" "peer_mode p1 = peer_mode p"
      using input_host_total [OF _ True index Cons.prems(5,4)] by blast
    have chunk: "input_chunk True j c (s, p) = Some (s1, p1)" using one h(1) Cons.prems(3) by (simp add: input_chunk_def)
    show ?thesis
      using Cons.IH [of p1 s1] Cons.prems p1 input_chunk_alloc [OF chunk Cons.prems(4)] True chunk by simp
  qed
qed simp

subsection \<open>Properties\<close>

text \<open>C15. A host, assertions off, given an arbitrary packet from a sender that has a slot: the packet is handled
  without a read outside an object exactly when each of the messages \<open>peer_unpack\<close> finds in it is at least as long as a message
  header. A packet with a message size of 1 to 29 makes \<open>peer_input\<close> read past the end of the chunk. (Indices of
  \<open>INT64_MAX\<close>, whose increment overflows, are left out.)\<close>

theorem host_input_safe_iff:
  assumes "peer_mode host = PEER_HOST" and "alloc_ok (peer_alloc host)" and "length (packet_data packet) = 400"
    and "route (source_id packet) (destination_id packet) host \<noteq> None"
    and "peer_unpack True [packet] [] (peer_alloc host) = Some (s, cs, al)"
    and "\<forall>c \<in> set cs. peer_read_message_index c 0 \<noteq> Some INT64_MAX"
  shows "(\<exists>st host'. peer_input True (Some host) [packet] = Some (st, Some host')) \<longleftrightarrow> (\<forall>c \<in> set cs. 30 \<le> length c)"
proof -
  obtain j where j: "route (source_id packet) (destination_id packet) host = Some j" using assms(4) by blast
  then have find: "find_slot (slot_matches packet) 0 (peer_slots host) = Some j"
    by (simp add: route_def slot_matches_def [abs_def])
  have "find_slot (\<lambda>slot. endpoint_id (slot_local slot) = destination_id packet) 0 (peer_slots host) \<noteq> None"
    using route_Some [OF j] by (auto simp: find_slot_None)
  then have run: "input_packet True packet (KIT_OK, host) = input_chunks True j cs (KIT_OK OR s, host\<lparr>peer_alloc := al\<rparr>)"
    using find assms(5) by (auto simp: input_packet_def)
  have "alloc_ok al \<and> (\<forall>c \<in> set cs. chunk_of packet c)"
    using unpack_packets_total [of "[packet]" True KIT_OK "[]" "peer_alloc host"] assms(2,3,5)
    by (auto simp: peer_unpack_def)
  then have "(\<exists>st. input_packet True packet (KIT_OK, host) = Some st) \<longleftrightarrow> (\<forall>c \<in> set cs. 30 \<le> length c)"
    unfolding run using assms(1,3,6) route_Some(1) [OF j] by (intro input_chunks_safe) auto
  then show ?thesis
    by (auto simp: peer_input_def with_peer_def peer_input_body_def dest!: bind_eq_SomeD)
qed

text \<open>A packet whose bytes are all 4, from the client of \<^const>\<open>session_host\<close>.\<close>

definition short_packet :: peer_packet_t where
  "short_packet = \<lparr>source_id = 20, destination_id = 11, packet_size = 46, packet_data = replicate 400 4\<rparr>"

lemma short_packet_chunks:
  "map_option (\<lambda>(s, cs, al). cs) (peer_unpack True [short_packet] [] []) = Some [[4, 4, 4, 4]]"
  by code_simp

theorem host_input_safe_iff_witness:
  "\<not> (\<exists>st host'. peer_input True (Some session_host) [short_packet] = Some (st, Some host'))"
proof -
  obtain s al where un: "peer_unpack True [short_packet] [] [] = Some (s, [[4, 4, 4, 4]], al)"
    using short_packet_chunks by auto
  have "peer_alloc session_host = []" by (simp add: session_host_def example_defs)
  then have "(\<exists>st host'. peer_input True (Some session_host) [short_packet] = Some (st, Some host')) \<longleftrightarrow>
      (\<forall>c \<in> set [[4, 4, 4, 4 :: byte]]. 30 \<le> length c)"
    using un session_host_route
    by (intro host_input_safe_iff [where s = s and al = al])
      (simp_all add: short_packet_def session_host_def example_defs peer_read_message_index_def peer_read_u64_def c_load_def)
  then show ?thesis by simp
qed

end
