(* ===== verification/Peer_Tick.thy ===== *)
theory Peer_Tick
  imports Peer_Protocol
begin

text \<open>
  \<open>peer_tick\<close> of \<open>source/peer/peer.c\<close>: the clock, the host's collection of its clients' messages
  into the mutual queue, and the packets a peer sends (new messages with a trail of earlier ones, the
  session response, heartbeats). \<open>M\<close> is the generator of the kit library.

  The lemmas give the queue and the packets after a tick in closed form: the mutual queue only grows, its
  new messages carry the time of the tick, and a slot is sent every message it has not been sent yet.
\<close>

subsection \<open>Chunks of queued messages\<close>

text \<open>Allocate and write the chunk of the message at an index (peer.c:636-650, 513-531, 550-566);
  the inner \<^const>\<open>None\<close> is a refused allocation. An index outside the queue is a fault, which in
  \<open>queue_pack\<close> is also an assertion.\<close>

definition queue_chunk ::
  "bool \<Rightarrow> peer_queue_t \<Rightarrow> ptrdiff_t \<Rightarrow> kit_allocator_t \<Rightarrow> (peer_chunk_t option \<times> kit_allocator_t) option" where
  "queue_chunk nd q index al = do {
     message \<leftarrow> c_load q index;
     let full_size = PEER_N_MESSAGE_DATA + int (length (message_data message));
     (values, al') \<leftarrow> da_init_bytes full_size al;
     if int (length values) \<noteq> full_size then Some (None, al')
     else do {
       chunk \<leftarrow> peer_write_message nd values PEER_MESSAGE_MODE_APPLICATION index
         (message_time message) (message_actor message) (int (length (message_data message)))
         (message_data message);
       Some (Some chunk, al')
     }
   }"

text \<open>The chunks of \<open>n\<close> consecutive messages from \<open>index\<close> on.\<close>

fun queue_chunks ::
  "bool \<Rightarrow> peer_queue_t \<Rightarrow> ptrdiff_t \<Rightarrow> nat \<Rightarrow> kit_allocator_t \<Rightarrow>
   (peer_chunks_t option \<times> kit_allocator_t) option" where
  "queue_chunks nd q index 0 al = Some (Some [], al)"
| "queue_chunks nd q index (Suc n) al = do {
     (c, al1) \<leftarrow> queue_chunk nd q index al;
     case c of
       None \<Rightarrow> Some (None, al1)
     | Some chunk \<Rightarrow> do {
         (cs, al2) \<leftarrow> queue_chunks nd q (index + 1) n al1;
         Some (map_option (\<lambda>chunks. chunk # chunks) cs, al2)
       }
   }"

text \<open>The chunks of \<open>n\<close> messages picked at random among \<open>distance\<close> messages from
  \<open>trail_begin\<close> on (peer.c:542-567).\<close>

fun scatter_chunks ::
  "'r mt64_ops \<Rightarrow> bool \<Rightarrow> peer_queue_t \<Rightarrow> ptrdiff_t \<Rightarrow> ptrdiff_t \<Rightarrow> nat \<Rightarrow> 'r \<Rightarrow> kit_allocator_t \<Rightarrow>
   ('r \<times> peer_chunks_t option \<times> kit_allocator_t) option" where
  "scatter_chunks M nd q trail_begin distance 0 rng al = Some (rng, Some [], al)"
| "scatter_chunks M nd q trail_begin distance (Suc n) rng al =
     (let (x, rng1) = mt64_generate M rng;
          message_index = trail_begin + sint (x mod (word_of_int distance :: 64 word))
      in do {
        (c, al1) \<leftarrow> queue_chunk nd q message_index al;
        case c of
          None \<Rightarrow> Some (rng1, None, al1)
        | Some chunk \<Rightarrow> do {
            (rng2, cs, al2) \<leftarrow> scatter_chunks M nd q trail_begin distance n rng1 al1;
            Some (rng2, map_option (\<lambda>chunks. chunk # chunks) cs, al2)
          }
      })"

definition serial_trail_size :: "ptrdiff_t \<Rightarrow> ptrdiff_t" where
  "serial_trail_size index =
     (if PEER_TRAIL_SERIAL_SIZE > index \<or>
         index - PEER_TRAIL_SERIAL_SIZE < PEER_TRAIL_SCATTER_DISTANCE
      then index else PEER_TRAIL_SERIAL_SIZE)"

text \<open>Grow the array of chunks by \<open>n\<close> and fill the new part; the array is cut back when filling it
  runs out of memory (peer.c:497-534 and 535-568). The flag says whether the step succeeded.\<close>

definition append_chunks ::
  "bool \<Rightarrow> ptrdiff_t \<Rightarrow> (kit_allocator_t \<Rightarrow> ('r \<times> peer_chunks_t option \<times> kit_allocator_t) option) \<Rightarrow>
   'r \<Rightarrow> peer_chunks_t \<Rightarrow> kit_allocator_t \<Rightarrow> (bool \<times> 'r \<times> peer_chunks_t \<times> kit_allocator_t) option" where
  "append_chunks nd n fill rng out_chunks al =
     (if n > 0 then
       (let offset = length out_chunks;
            (chunks1, al1) = da_resize (\<lambda>_ _. []) (offset + nat n) out_chunks al
        in do {
          c_assert nd (int (length chunks1) = int offset + n);
          if int (length chunks1) \<noteq> int offset + n then Some (False, rng, chunks1, al1)
          else do {
            (rng', new, al2) \<leftarrow> fill al1;
            case new of
              None \<Rightarrow> (let (chunks2, al3) = da_resize (\<lambda>_ _. []) offset chunks1 al2
                       in Some (False, rng', chunks2, al3))
            | Some cs \<Rightarrow> Some (True, rng', take offset chunks1 @ cs, al2)
          }
        })
      else Some (True, rng, out_chunks, al))"

definition chunks_append_trail ::
  "'r mt64_ops \<Rightarrow> bool \<Rightarrow> 'r \<Rightarrow> peer_queue_t \<Rightarrow> ptrdiff_t \<Rightarrow> peer_chunks_t \<Rightarrow> kit_allocator_t \<Rightarrow>
   (kit_status_t \<times> 'r \<times> peer_chunks_t \<times> kit_allocator_t) option" where
  "chunks_append_trail M nd rng q index out_chunks al = do {
     c_assert nd (index \<ge> 0 \<and> index \<le> int (length q));
     let trail_size = serial_trail_size index;
     (ok, rng, chunks, al) \<leftarrow> append_chunks nd trail_size
       (\<lambda>al. do { (cs, al') \<leftarrow> queue_chunks nd q (index - trail_size) (nat trail_size) al;
                  Some (rng, cs, al') }) rng out_chunks al;
     if \<not> ok then Some (PEER_ERROR_BAD_ALLOC, rng, chunks, al)
     else do {
       let distance = min PEER_TRAIL_SCATTER_DISTANCE (index - trail_size);
       let scatter_size = min PEER_TRAIL_SCATTER_SIZE distance;
       (ok, rng, chunks, al) \<leftarrow> append_chunks nd scatter_size
         (scatter_chunks M nd q (index - distance) distance (nat scatter_size) rng) rng chunks al;
       Some (if ok then KIT_OK else PEER_ERROR_BAD_ALLOC, rng, chunks, al)
     }
   }"

text \<open>\<open>chunks_wrap\<close>: references to the chunks, or none when the allocation is refused.\<close>

definition chunks_wrap ::
  "bool \<Rightarrow> peer_chunks_t \<Rightarrow> kit_allocator_t \<Rightarrow> (kit_status_t \<times> peer_chunks_ref_t \<times> kit_allocator_t) option" where
  "chunks_wrap nd chunks al =
     (let (refs, al') = da_init (chunk_ref []) (length chunks) al in do {
        c_assert nd (length refs = length chunks);
        if length refs \<noteq> length chunks then Some (PEER_ERROR_BAD_ALLOC, [], al')
        else Some (KIT_OK, map chunk_ref chunks, al')
      })"

definition queue_pack ::
  "'r mt64_ops \<Rightarrow> bool \<Rightarrow> 'r \<Rightarrow> peer_queue_t \<Rightarrow> ptrdiff_t \<Rightarrow> ptrdiff_t \<Rightarrow> ptrdiff_t \<Rightarrow> peer_packets_t \<Rightarrow>
   kit_allocator_t \<Rightarrow> (kit_status_t \<times> 'r \<times> peer_packets_t \<times> kit_allocator_t) option" where
  "queue_pack M nd rng q index src dst out_packets al =
     (let n = int (length q) - index in do {
        c_assert nd (n \<ge> 0);
        if n < 0 then Some (PEER_ERROR_INVALID_OUT_INDEX, rng, out_packets, al)
        else if n = 0 then Some (KIT_OK, rng, out_packets, al)
        else (let (chunks, al1) = da_init ([] :: peer_chunk_t) (nat n) al in do {
          c_assert nd (int (length chunks) = n);
          if int (length chunks) \<noteq> n then Some (PEER_ERROR_BAD_ALLOC, rng, out_packets, al1)
          else do {
            (new, al2) \<leftarrow> queue_chunks nd q index (nat n) al1;
            case new of
              None \<Rightarrow> Some (PEER_ERROR_BAD_ALLOC, rng, out_packets, al2)
            | Some cs \<Rightarrow> do {
                (s, rng', chunks', al3) \<leftarrow> chunks_append_trail M nd rng q index cs al2;
                (s', refs, al4) \<leftarrow> chunks_wrap nd chunks' al3;
                if s' \<noteq> KIT_OK then Some (s OR s', rng', out_packets, al4)
                else do {
                  (s'', packets, al5) \<leftarrow> peer_pack nd src dst refs out_packets al4;
                  Some (s OR s'', rng', packets, al5)
                }
              }
          }
        })
      })"

subsection \<open>Sending\<close>

type_synonym 'r send_state = "kit_status_t \<times> 'r \<times> peer_packets_t \<times> kit_allocator_t"

text \<open>A heartbeat with a trail of the messages of \<open>q\<close> before \<open>index\<close> (peer.c:819-867 on
  the host, 893-940 on the client).\<close>

definition send_heartbeat ::
  "'r mt64_ops \<Rightarrow> bool \<Rightarrow> peer_queue_t \<Rightarrow> peer_time_t \<Rightarrow> ptrdiff_t \<Rightarrow> peer_slot_t \<Rightarrow> 'r send_state \<Rightarrow>
   (peer_slot_t \<times> 'r send_state) option" where
  "send_heartbeat M nd q time actor slot = (\<lambda>(status, rng, packets, al).
     (let (chunks, al1) = da_init ([] :: peer_chunk_t) 1 al in do {
        c_assert nd (length chunks = 1);
        if length chunks \<noteq> 1 then Some (slot, status OR PEER_ERROR_BAD_ALLOC, rng, packets, al1)
        else do {
          (values, al2) \<leftarrow> da_init_bytes (PEER_N_MESSAGE_DATA + 1) al1;
          c_assert nd (int (length values) = PEER_N_MESSAGE_DATA + 1);
          (s0, chunks0) \<leftarrow>
            (if int (length values) \<noteq> PEER_N_MESSAGE_DATA + 1 then Some (PEER_ERROR_BAD_ALLOC, [])
             else do {
               v \<leftarrow> peer_write_message nd values PEER_MESSAGE_MODE_SERVICE PEER_UNDEFINED time actor
                      1 [PEER_M_HEARTBEAT];
               Some (KIT_OK, [v])
             });
          (s1, rng', chunks', al3) \<leftarrow> chunks_append_trail M nd rng q (out_index slot) chunks0 al2;
          (s2, refs, al4) \<leftarrow> chunks_wrap nd chunks' al3;
          (s3, packets', al5) \<leftarrow> peer_pack nd (endpoint_id (slot_local slot))
            (endpoint_id (slot_remote slot)) refs packets al4;
          Some (slot\<lparr>clock_heartbeat := PEER_TIMEOUT_HEARTBEAT\<rparr>,
            status OR s0 OR s1 OR s2 OR s3, rng', packets', al5)
        }
      }))"

text \<open>The session response (peer.c:768-800), sent from the host's own slot. The two arrays on the stack
  have indeterminate contents; every byte that is read of them is written before.\<close>

definition send_session_response ::
  "bool \<Rightarrow> peer_time_t \<Rightarrow> ptrdiff_t \<Rightarrow> peer_slot_t \<Rightarrow> 'r send_state \<Rightarrow> (peer_slot_t \<times> 'r send_state) option" where
  "send_session_response nd time host_id slot = (\<lambda>(status, rng, packets, al). do {
     data \<leftarrow> c_memcpy (PEER_M_SESSION_RESPONSE # replicate (nat PEER_ADDRESS_SIZE) 0) 1
               (address_data (slot_local slot)) 0 (address_size (slot_local slot));
     message \<leftarrow> peer_write_message nd (replicate (nat (PEER_N_MESSAGE_DATA + 1 + PEER_ADDRESS_SIZE)) 0)
       PEER_MESSAGE_MODE_SERVICE PEER_UNDEFINED time (slot_actor slot)
       (address_size (slot_local slot) + 1) data;
     (s, packets', al') \<leftarrow> peer_pack nd host_id (endpoint_id (slot_remote slot))
       [\<lparr>ref_size = PEER_N_MESSAGE_DATA + 1 + address_size (slot_local slot), ref_values = Some message\<rparr>]
       packets al;
     Some (slot\<lparr>slot_state := PEER_SLOT_READY, clock_heartbeat := PEER_TIMEOUT_HEARTBEAT\<rparr>,
       status OR s, rng, packets', al')
   })"

text \<open>New messages of the mutual queue for a client (peer.c:803-817).\<close>

definition host_send_new ::
  "'r mt64_ops \<Rightarrow> bool \<Rightarrow> peer_queue_t \<Rightarrow> peer_slot_t \<Rightarrow> 'r send_state \<Rightarrow>
   (peer_slot_t \<times> 'r send_state) option" where
  "host_send_new M nd q slot = (\<lambda>(status, rng, packets, al). do {
     (s, rng', packets', al') \<leftarrow> queue_pack M nd rng q (out_index slot)
       (endpoint_id (slot_local slot)) (endpoint_id (slot_remote slot)) packets al;
     Some (slot\<lparr>out_index := (if s = KIT_OK then int (length q) else out_index slot),
                clock_heartbeat := PEER_TIMEOUT_HEARTBEAT\<rparr>,
       status OR s, rng', packets', al')
   })"

text \<open>What the host sends to one client (peer.c:765-874); \<open>host\<close> is only read.\<close>

definition host_send_slot ::
  "'r mt64_ops \<Rightarrow> bool \<Rightarrow> 'r peer_t \<Rightarrow> ptrdiff_t \<Rightarrow> peer_slot_t \<Rightarrow> 'r send_state \<Rightarrow>
   (peer_slot_t \<times> 'r send_state) option" where
  "host_send_slot M nd host host_id slot st =
     (case slot_state slot of
        PEER_SLOT_EMPTY \<Rightarrow> Some (slot, st)
      | PEER_SLOT_SESSION_REQUEST \<Rightarrow> send_session_response nd (peer_time host) host_id slot st
      | PEER_SLOT_READY \<Rightarrow>
          (if out_index slot < int (length (mutual_queue host))
           then host_send_new M nd (mutual_queue host) slot st
           else if clock_heartbeat slot \<le> 0
           then send_heartbeat M nd (mutual_queue host) (peer_time host) (peer_actor host) slot st
           else Some (slot, st))
      | PEER_SLOT_INVALID \<Rightarrow> do {
          c_assert nd False;
          Some (slot, fst st OR PEER_ERROR_INVALID_SLOT_STATE, snd st)
        })"

fun host_send_slots ::
  "'r mt64_ops \<Rightarrow> bool \<Rightarrow> 'r peer_t \<Rightarrow> ptrdiff_t \<Rightarrow> peer_slots_t \<Rightarrow> 'r send_state \<Rightarrow>
   (peer_slots_t \<times> 'r send_state) option" where
  "host_send_slots M nd host host_id [] st = Some ([], st)"
| "host_send_slots M nd host host_id (slot # slots) st = do {
     (slot', st1) \<leftarrow> host_send_slot M nd host host_id slot st;
     (slots', st2) \<leftarrow> host_send_slots M nd host host_id slots st1;
     Some (slot' # slots', st2)
   }"

subsection \<open>The host's mutual queue\<close>

text \<open>The time of the messages queued since the last tick (peer.c:730-731).\<close>

definition stamp_messages :: "peer_time_t \<Rightarrow> ptrdiff_t \<Rightarrow> peer_queue_t \<Rightarrow> peer_queue_t option" where
  "stamp_messages time index q =
     (if index < 0 then None
      else Some (take (nat index) q @ map (\<lambda>m. m\<lparr>message_time := time\<rparr>) (drop (nat index) q)))"

type_synonym collect_state = "kit_status_t \<times> peer_queue_t \<times> kit_allocator_t"

text \<open>The loop over one slot's queue (peer.c:736-754), on the messages from \<open>in_index\<close> on.\<close>

fun collect_messages ::
  "bool \<Rightarrow> peer_time_t \<Rightarrow> ptrdiff_t \<Rightarrow> peer_queue_t \<Rightarrow> ptrdiff_t \<Rightarrow> collect_state \<Rightarrow>
   (ptrdiff_t \<times> collect_state) option" where
  "collect_messages nd time actor [] index st = Some (index, st)"
| "collect_messages nd time actor (m # ms) index (status, q, al) =
     (if \<not> is_ready m then Some (index, status, q, al)
      else do {
        c_assert nd (actor = message_actor m);
        (s, q', al') \<leftarrow> queue_append q time actor (chunk_ref (message_data m)) al;
        c_assert nd (s = KIT_OK);
        collect_messages nd time actor ms (index + 1) (status OR s, q', al')
      })"

definition collect_slot ::
  "bool \<Rightarrow> peer_time_t \<Rightarrow> peer_slot_t \<Rightarrow> collect_state \<Rightarrow> (peer_slot_t \<times> collect_state) option" where
  "collect_slot nd time slot st =
     (if in_index slot < 0 then None
      else do {
        (index, st') \<leftarrow> collect_messages nd time (slot_actor slot)
          (drop (nat (in_index slot)) (slot_queue slot)) (in_index slot) st;
        Some (slot\<lparr>in_index := index\<rparr>, st')
      })"

fun collect_slots ::
  "bool \<Rightarrow> peer_time_t \<Rightarrow> peer_slots_t \<Rightarrow> collect_state \<Rightarrow> (peer_slots_t \<times> collect_state) option" where
  "collect_slots nd time [] st = Some ([], st)"
| "collect_slots nd time (slot # slots) st = do {
     (slot', st1) \<leftarrow> collect_slot nd time slot st;
     (slots', st2) \<leftarrow> collect_slots nd time slots st1;
     Some (slot' # slots', st2)
   }"

subsection \<open>The tick\<close>

record peer_tick_result_t =
  tick_status :: kit_status_t
  tick_packets :: peer_packets_t

definition tick_clock :: "peer_time_t \<Rightarrow> 'r peer_t \<Rightarrow> 'r peer_t" where
  "tick_clock time_elapsed peer = peer
     \<lparr>peer_time_local := peer_time_local peer + time_elapsed,
      peer_slots := map (\<lambda>slot. if clock_heartbeat slot > 0
        then slot\<lparr>clock_heartbeat := clock_heartbeat slot - time_elapsed\<rparr> else slot) (peer_slots peer)\<rparr>"

text \<open>Host mode, first part (peer.c:723-757): time and mutual queue.\<close>

definition host_collect :: "bool \<Rightarrow> 'r peer_t \<Rightarrow> (kit_status_t \<times> 'r peer_t) option" where
  "host_collect nd peer = do {
     let time = peer_time_local peer;
     q0 \<leftarrow> stamp_messages time (queue_index peer) (mutual_queue peer);
     (slots, status, q1, al) \<leftarrow>
       collect_slots nd time (drop 1 (peer_slots peer)) (KIT_OK, q0, peer_alloc peer);
     Some (status, peer\<lparr>peer_time := time, mutual_queue := q1, peer_alloc := al,
       peer_slots := take 1 (peer_slots peer) @ slots, queue_index := int (length q1)\<rparr>)
   }"

text \<open>Host mode, second part (peer.c:762-875): the packets for the clients.\<close>

definition host_send ::
  "'r mt64_ops \<Rightarrow> bool \<Rightarrow> kit_status_t \<times> 'r peer_t \<Rightarrow> (peer_tick_result_t \<times> 'r peer_t) option" where
  "host_send M nd = (\<lambda>(status, peer).
     case peer_slots peer of
       [] \<Rightarrow> Some (\<lparr>tick_status = status, tick_packets = []\<rparr>, peer)
     | slot0 # slots \<Rightarrow> do {
         (slots', status', rng, packets, al) \<leftarrow>
           host_send_slots M nd peer (endpoint_id (slot_local slot0)) slots
             (status, peer_mt64 peer, [], peer_alloc peer);
         Some (\<lparr>tick_status = status', tick_packets = packets\<rparr>,
           peer\<lparr>peer_slots := slot0 # slots', peer_mt64 := rng, peer_alloc := al\<rparr>)
       })"

text \<open>Client mode (peer.c:878-941): its own messages go to the host through slot 0. The trail of
  its heartbeat is taken from the mutual queue, at an index of the slot's queue, as in the source.\<close>

definition client_send_slot ::
  "'r mt64_ops \<Rightarrow> bool \<Rightarrow> 'r peer_t \<Rightarrow> peer_slot_t \<Rightarrow> (peer_slot_t \<times> 'r send_state) option" where
  "client_send_slot M nd peer slot =
     (if out_index slot < int (length (slot_queue slot)) then do {
        (s, rng, packets, al) \<leftarrow> queue_pack M nd (peer_mt64 peer) (slot_queue slot) (out_index slot)
          (endpoint_id (slot_local slot)) (endpoint_id (slot_remote slot)) [] (peer_alloc peer);
        Some (if s = KIT_OK then slot\<lparr>out_index := int (length (slot_queue slot))\<rparr> else slot,
          s, rng, packets, al)
      } else if clock_heartbeat slot \<le> 0
      then send_heartbeat M nd (mutual_queue peer) 0 (peer_actor peer) slot
        (KIT_OK, peer_mt64 peer, [], peer_alloc peer)
      else Some (slot, KIT_OK, peer_mt64 peer, [], peer_alloc peer))"

definition client_send ::
  "'r mt64_ops \<Rightarrow> bool \<Rightarrow> 'r peer_t \<Rightarrow> (peer_tick_result_t \<times> 'r peer_t) option" where
  "client_send M nd peer =
     (case peer_slots peer of
        [] \<Rightarrow> Some (\<lparr>tick_status = KIT_OK, tick_packets = []\<rparr>, peer)
      | slot # slots \<Rightarrow> do {
          (slot', status, rng, packets, al) \<leftarrow> client_send_slot M nd peer slot;
          Some (\<lparr>tick_status = status, tick_packets = packets\<rparr>,
            peer\<lparr>peer_slots := slot' # slots, peer_mt64 := rng, peer_alloc := al\<rparr>)
        })"

definition peer_tick_body ::
  "'r mt64_ops \<Rightarrow> bool \<Rightarrow> peer_time_t \<Rightarrow> 'r peer_t \<Rightarrow> (peer_tick_result_t \<times> 'r peer_t) option" where
  "peer_tick_body M nd time_elapsed peer = do {
     c_assert nd (time_elapsed \<ge> 0);
     if time_elapsed < 0
     then Some (\<lparr>tick_status = PEER_ERROR_INVALID_TIME_ELAPSED, tick_packets = []\<rparr>, peer)
     else if peer_time_local peer > INT64_MAX - time_elapsed
     then Some (\<lparr>tick_status = PEER_ERROR_TIME_OVERFLOW, tick_packets = []\<rparr>, peer)
     else (let peer = tick_clock time_elapsed peer in
       case peer_mode peer of
         PEER_HOST \<Rightarrow> do { st \<leftarrow> host_collect nd peer; host_send M nd st }
       | PEER_CLIENT \<Rightarrow> client_send M nd peer
       | PEER_MODE_INVALID \<Rightarrow> Some (\<lparr>tick_status = KIT_OK, tick_packets = []\<rparr>, peer))
   }"

text \<open>\<open>peer_tick\<close> reads \<open>peer->alloc\<close> before it tests the pointer (peer.c:687), so a null
  pointer is a fault in every build.\<close>

definition peer_tick ::
  "'r mt64_ops \<Rightarrow> bool \<Rightarrow> 'r peer_t option \<Rightarrow> peer_time_t \<Rightarrow>
   (peer_tick_result_t \<times> 'r peer_t option) option" where
  "peer_tick M nd peer time_elapsed = do {
     p \<leftarrow> peer;
     (result, p') \<leftarrow> peer_tick_body M nd time_elapsed p;
     Some (result, Some p')
   }"

subsection \<open>Trails in closed form\<close>

text \<open>The message a queue sends for an index.\<close>

definition queue_message :: "peer_queue_t \<Rightarrow> nat \<Rightarrow> wire_message" where
  "queue_message q i = M_application i (message_entry (q ! i))"

text \<open>The indices the generator picks, and those of the whole trail before index \<open>n\<close>.\<close>

fun scatter_picks :: "'r mt64_ops \<Rightarrow> nat \<Rightarrow> nat \<Rightarrow> nat \<Rightarrow> 'r \<Rightarrow> nat list \<times> 'r" where
  "scatter_picks M trail_begin distance 0 rng = ([], rng)"
| "scatter_picks M trail_begin distance (Suc n) rng =
     (let (x, rng1) = mt64_generate M rng;
          (picks, rng2) = scatter_picks M trail_begin distance n rng1
      in ((trail_begin + unat x mod distance) # picks, rng2))"

definition trail_indices :: "'r mt64_ops \<Rightarrow> nat \<Rightarrow> 'r \<Rightarrow> nat list \<times> 'r" where
  "trail_indices M n rng =
     (let s = nat (serial_trail_size (int n)); d = min 100 (n - s);
          (picks, rng') = scatter_picks M (n - d) d (min 5 d) rng
      in ([n - s..<n] @ picks, rng'))"

lemma serial_trail_bounds:
  "0 \<le> serial_trail_size (int n)" "serial_trail_size (int n) \<le> int n"
  "nat (serial_trail_size (int n)) = (if n < 105 then n else 5)"
  by (auto simp: serial_trail_size_def)

lemma scatter_picks_bound:
  assumes "0 < distance" and "scatter_picks M trail_begin distance n rng = (picks, rng')"
  shows "\<forall>i \<in> set picks. trail_begin \<le> i \<and> i < trail_begin + distance" and "length picks = n"
proof -
  have "(\<forall>i \<in> set picks. trail_begin \<le> i \<and> i < trail_begin + distance) \<and> length picks = n"
    using assms
    by (induction M trail_begin distance n rng arbitrary: picks rule: scatter_picks.induct)
      (auto simp: Let_def split: prod.splits)
  then show "\<forall>i \<in> set picks. trail_begin \<le> i \<and> i < trail_begin + distance" and "length picks = n" by simp_all
qed

lemma trail_indices_bound:
  assumes "trail_indices M n rng = (ks, rng')" and "i \<in> set ks"
  shows "i < n"
proof -
  define s where "s = nat (serial_trail_size (int n))"
  define d where "d = min 100 (n - s)"
  obtain picks where picks: "scatter_picks M (n - d) d (min 5 d) rng = (picks, rng')"
    and ks: "ks = [n - s..<n] @ picks"
    using assms(1) by (auto simp: trail_indices_def s_def d_def Let_def split: prod.splits)
  have "d \<le> n" by (simp add: d_def)
  show ?thesis
  proof (cases "d = 0")
    case True
    then show ?thesis using picks ks assms(2) by auto
  next
    case False
    then show ?thesis using scatter_picks_bound(1) [OF _ picks] ks assms(2) \<open>d \<le> n\<close> by fastforce
  qed
qed

lemma queue_chunk_ok:
  assumes "i < length q" and "message_wf (q ! i)" and "alloc_ok al"
  shows "\<exists>al'. alloc_ok al' \<and>
    queue_chunk nd q (int i) al = Some (Some (wire_bytes (queue_message q i)), al')"
proof -
  let ?m = "q ! i" and ?d = "message_data (q ! i)"
  obtain v al' where v: "da_init_bytes (30 + int (length ?d)) al = Some (v, al')" "length v = 30 + length ?d"
    "alloc_ok al'"
    using da_init_bytes_ok [OF assms(3), of "30 + int (length ?d)"] by (auto simp: nat_add_distrib)
  have "message_fits 1 (message_actor ?m) (take (length ?d) ?d)"
    using assms(2) by (auto simp: message_wf_def message_entry_def entry_ok_def message_fits_def)
  then have "peer_write_message nd v 1 (int i) (message_time ?m) (message_actor ?m) (int (length ?d)) ?d =
      Some (message_bytes 1 (int i) (message_time ?m) (message_actor ?m) ?d)"
    using peer_write_message_eq [of nd 1 "message_actor ?m" "length ?d" ?d v] v(2) by simp
  then show ?thesis
    using assms(1) v by (auto simp: queue_chunk_def queue_message_def message_entry_def)
qed

lemma queue_chunks_ok:
  assumes "i + n \<le> length q" and "list_all message_wf q" and "alloc_ok al"
  shows "\<exists>al'. alloc_ok al' \<and> queue_chunks nd q (int i) n al =
    Some (Some (map (\<lambda>k. wire_bytes (queue_message q k)) [i..<i + n]), al')"
  using assms
proof (induction n arbitrary: i al)
  case (Suc n)
  obtain al1 where al1: "alloc_ok al1"
    "queue_chunk nd q (int i) al = Some (Some (wire_bytes (queue_message q i)), al1)"
    using queue_chunk_ok [of i q al nd] Suc.prems by (auto simp: list_all_length)
  obtain al2 where "alloc_ok al2" "queue_chunks nd q (int (Suc i)) n al1 =
      Some (Some (map (\<lambda>k. wire_bytes (queue_message q k)) [Suc i..<Suc i + n]), al2)"
    using Suc.IH [of "Suc i" al1] Suc.prems al1(1) by auto
  then show ?case using al1(2) by (simp add: upt_rec add.commute)
qed simp

lemma word_pick:
  fixes x :: "64 word"
  assumes "0 < d" and "d \<le> 100"
  shows "sint (x mod word_of_int (int d)) = int (unat x mod d)"
proof -
  have "unat (word_of_int (int d) :: 64 word) = d"
    using assms by (simp add: unat_of_nat take_bit_nat_eq_self)
  then have "unat (x mod word_of_int (int d)) = unat x mod d" by (simp add: unat_mod_distrib)
  moreover have "unat x mod d < 100" using assms by (metis mod_less_divisor order_less_le_trans)
  ultimately have "uint (x mod word_of_int (int d)) = int (unat x mod d)" and "int (unat x mod d) < 100"
    by (metis uint_nat, linarith)
  then show ?thesis by (simp add: sint_uint signed_take_bit_int_eq_self)
qed

lemma scatter_chunks_ok:
  assumes "0 < d" and "d \<le> 100" and "trail_begin + d \<le> length q" and "list_all message_wf q"
    and "alloc_ok al" and "scatter_picks M trail_begin d n rng = (picks, rng')"
  shows "\<exists>al'. alloc_ok al' \<and> scatter_chunks M nd q (int trail_begin) (int d) n rng al =
    Some (rng', Some (map (\<lambda>k. wire_bytes (queue_message q k)) picks), al')"
  using assms
proof (induction n arbitrary: rng al picks)
  case (Suc n)
  obtain x rng1 where x: "mt64_generate M rng = (x, rng1)" by fastforce
  obtain ps where ps: "scatter_picks M trail_begin d n rng1 = (ps, rng')"
    and picks: "picks = (trail_begin + unat x mod d) # ps"
    using Suc.prems(6) x by (auto simp: Let_def split: prod.splits)
  let ?i = "trail_begin + unat x mod d"
  have i: "?i < length q" using Suc.prems(1,3) by (metis add_less_cancel_left mod_less_divisor order_less_le_trans)
  obtain al1 where al1: "alloc_ok al1"
    "queue_chunk nd q (int ?i) al = Some (Some (wire_bytes (queue_message q ?i)), al1)"
    using queue_chunk_ok [OF i, of al nd] Suc.prems(4,5) i by (auto simp: list_all_length)
  obtain al2 where "alloc_ok al2" "scatter_chunks M nd q (int trail_begin) (int d) n rng1 al1 =
      Some (rng', Some (map (\<lambda>k. wire_bytes (queue_message q k)) ps), al2)"
    using Suc.IH [OF Suc.prems(1-4) al1(1) ps] by blast
  moreover have "int trail_begin + sint (x mod word_of_int (int d)) = int ?i"
    using word_pick [OF Suc.prems(1,2), of x] by simp
  ultimately show ?case using al1(2) x picks by (simp add: Let_def del: of_nat_add)
qed simp

lemma append_chunks_ok:
  assumes "alloc_ok al" and "n = int (length new)"
    and "\<And>al. alloc_ok al \<Longrightarrow> 0 < n \<Longrightarrow> \<exists>al'. alloc_ok al' \<and> fill al = Some (rng', Some new, al')"
    and "n = 0 \<Longrightarrow> rng' = rng"
  shows "\<exists>al'. alloc_ok al' \<and> append_chunks nd n fill rng cs al = Some (True, rng', cs @ new, al')"
proof (cases "new = []")
  case True
  then show ?thesis using assms by (simp add: append_chunks_def)
next
  case False
  then have n: "0 < n" "nat n = length new" using assms(2) by auto
  obtain f al1 where al1: "da_resize (\<lambda>_ _. []) (length cs + nat n) cs al =
      (cs @ map (\<lambda>_. []) [length cs..<length cs + nat n], al1)" "alloc_ok al1"
    using da_resize_ok [OF assms(1), of cs "length cs + nat n" "\<lambda>_ _. []"] by auto
  obtain al2 where "alloc_ok al2" "fill al1 = Some (rng', Some new, al2)"
    using assms(3) [OF al1(2) n(1)] by blast
  then show ?thesis using n al1(1) assms(2) by (simp add: append_chunks_def)
qed

lemma chunks_append_trail_ok:
  assumes "n \<le> length q" and "list_all message_wf q" and "alloc_ok al"
    and "trail_indices M n rng = (ks, rng')"
  shows "\<exists>al'. alloc_ok al' \<and> chunks_append_trail M nd rng q (int n) cs al =
    Some (KIT_OK, rng', cs @ map (\<lambda>k. wire_bytes (queue_message q k)) ks, al')"
proof -
  define s where "s = nat (serial_trail_size (int n))"
  define d where "d = min 100 (n - s)"
  have s: "serial_trail_size (int n) = int s" "s \<le> n"
    using serial_trail_bounds [of n] by (simp_all add: s_def)
  have d: "min 100 (int n - int s) = int d" "d \<le> n" "d \<le> 100" "min 5 (int d) = int (min 5 d)"
    using s(2) by (auto simp: d_def min_def)
  obtain picks where picks: "scatter_picks M (n - d) d (min 5 d) rng = (picks, rng')"
    and ks: "ks = [n - s..<n] @ picks"
    using assms(4) by (auto simp: trail_indices_def s_def d_def Let_def split: prod.splits)
  have len: "length picks = min 5 d"
    using picks scatter_picks_bound(2) [OF _ picks] by (cases "d = 0") auto
  let ?w = "\<lambda>k. wire_bytes (queue_message q k)"
  have "\<exists>al'. alloc_ok al' \<and> append_chunks nd (int s) (\<lambda>al. do {
      (cs, al') \<leftarrow> queue_chunks nd q (int n - int s) s al; Some (rng, cs, al') }) rng cs al =
      Some (True, rng, cs @ map ?w [n - s..<n], al')"
  proof (rule append_chunks_ok [OF assms(3)])
    fix al assume "alloc_ok al"
    then show "\<exists>al'. alloc_ok al' \<and> (do { (cs, al') \<leftarrow> queue_chunks nd q (int n - int s) s al; Some (rng, cs, al') })
        = Some (rng, Some (map ?w [n - s..<n]), al')"
      using queue_chunks_ok [of "n - s" s q al nd] assms(1,2) s(2) by (auto simp: of_nat_diff)
  qed (use s(2) in auto)
  then obtain al1 where al1: "alloc_ok al1" "append_chunks nd (int s) (\<lambda>al. do {
      (cs, al') \<leftarrow> queue_chunks nd q (int n - int s) s al; Some (rng, cs, al') }) rng cs al =
      Some (True, rng, cs @ map ?w [n - s..<n], al1)" by blast
  have "\<exists>al'. alloc_ok al' \<and> append_chunks nd (int (min 5 d))
      (scatter_chunks M nd q (int n - int d) (int d) (min 5 d) rng) rng (cs @ map ?w [n - s..<n]) al1 =
      Some (True, rng', (cs @ map ?w [n - s..<n]) @ map ?w picks, al')"
  proof (rule append_chunks_ok [OF al1(1)])
    fix al assume "alloc_ok al" "0 < int (min 5 d)"
    then show "\<exists>al'. alloc_ok al' \<and> scatter_chunks M nd q (int n - int d) (int d) (min 5 d) rng al =
        Some (rng', Some (map ?w picks), al')"
      using scatter_chunks_ok [of d "n - d" q al M "min 5 d" rng picks rng' nd] assms(1,2) d(2,3) picks
      by (auto simp: of_nat_diff)
  qed (use len picks in auto)
  then show ?thesis
    using al1(2) assms(1) d s ks by (auto simp: chunks_append_trail_def Let_def)
qed

subsection \<open>Packets in closed form\<close>

text \<open>A grouping of encoded messages is the encoding of a grouping of the messages.\<close>

lemma map_concat_groups:
  assumes "concat gs = map f xs"
  obtains xss where "gs = map (map f) xss" and "concat xss = xs"
proof -
  have "\<exists>xss. gs = map (map f) xss \<and> concat xss = xs"
    using assms
  proof (induction gs arbitrary: xs)
    case (Cons g gs)
    have "g = map f (take (length g) xs)" and "concat gs = map f (drop (length g) xs)"
      using Cons.prems by (metis append_eq_conv_conj concat.simps(2) take_map,
          metis append_eq_conv_conj concat.simps(2) drop_map)
    with Cons.IH obtain xss where "gs = map (map f) xss" "concat xss = drop (length g) xs" by blast
    with \<open>g = _\<close> show ?case
      by (intro exI [of _ "take (length g) xs # xss"]) simp
  qed simp
  then show ?thesis using that by blast
qed

text \<open>Packets that carry the messages \<open>ms\<close>, in order.\<close>

definition carries :: "ptrdiff_t \<Rightarrow> ptrdiff_t \<Rightarrow> wire_message list \<Rightarrow> peer_packets_t \<Rightarrow> bool" where
  "carries src dst ms packets \<longleftrightarrow>
     (\<exists>mss. packets = map (wire_packet src dst) mss \<and> concat mss = ms \<and> list_all packet_ok mss)"

definition pack_assertable :: "bool \<Rightarrow> ptrdiff_t \<Rightarrow> ptrdiff_t \<Rightarrow> wire_message list \<Rightarrow> bool" where
  "pack_assertable nd src dst ms \<longleftrightarrow>
     nd \<or> src \<noteq> dst \<and> assertable False (pack_groups (map wire_bytes ms))"

lemma peer_pack_wire:
  assumes "list_all wire_ok ms" and "ms \<noteq> []" and "alloc_ok al" and "pack_assertable nd src dst ms"
  shows "\<exists>new al'. alloc_ok al' \<and> carries src dst ms new \<and>
    peer_pack nd src dst (map chunk_ref (map wire_bytes ms)) out al = Some (KIT_OK, out @ new, al')"
proof -
  let ?cs = "map wire_bytes ms"
  have wf: "\<forall>c \<in> set ?cs. chunk_wf c" using assms(1) by (auto simp: list_all_iff chunk_wf_wire)
  have "assertable nd (pack_groups ?cs)" and "nd \<or> src \<noteq> dst"
    using assms(4) by (auto simp: pack_assertable_def assertable_def)
  then obtain al' where al': "alloc_ok al'" "peer_pack nd src dst (map chunk_ref ?cs) out al =
      Some (KIT_OK, out @ map (\<lambda>g. closed_packet src dst (concat g)) (pack_groups ?cs), al')"
    using peer_pack_groups [OF wf _ assms(3), of nd src dst out] assms(2) by auto
  obtain mss where mss: "pack_groups ?cs = map (map wire_bytes) mss" "concat mss = ms"
    using map_concat_groups [of "pack_groups ?cs" wire_bytes ms] pack_groups_concat by metis
  have "length (concat (map wire_bytes g)) \<le> 385" if "g \<in> set mss" for g
    using pack_groups_bound [OF wf, of "map wire_bytes g"] that mss(1) by auto
  moreover have "\<forall>m \<in> set (concat mss). wire_ok m" using assms(1) by (simp add: mss(2) list_all_iff)
  ultimately have "list_all packet_ok mss" by (auto simp: list_all_iff packet_ok_def)
  then have "carries src dst ms (map (wire_packet src dst) mss)"
    using mss(2) by (auto simp: carries_def)
  moreover have "map (\<lambda>g. closed_packet src dst (concat g)) (pack_groups ?cs) = map (wire_packet src dst) mss"
    by (simp add: mss(1) wire_packet_def)
  ultimately show ?thesis using al' by auto
qed

lemma chunks_wrap_ok:
  assumes "alloc_ok al"
  shows "\<exists>al'. alloc_ok al' \<and> chunks_wrap nd cs al = Some (KIT_OK, map chunk_ref cs, al')"
proof -
  obtain al' where "da_init (chunk_ref []) (length cs) al = (replicate (length cs) (chunk_ref []), al')" "alloc_ok al'"
    by (rule da_init_ok [OF assms])
  then show ?thesis by (simp add: chunks_wrap_def)
qed

text \<open>The messages of \<open>queue_pack\<close>: those from \<open>n\<close> on, then the trail.\<close>

definition pack_messages :: "peer_queue_t \<Rightarrow> nat \<Rightarrow> nat list \<Rightarrow> wire_message list" where
  "pack_messages q n ks = map (queue_message q) ([n..<length q] @ ks)"

lemma queue_message_ok:
  assumes "list_all message_wf q" and "i < length q" and "int (length q) \<le> INT64_MAX"
  shows "wire_ok (queue_message q i)"
  using assms by (auto simp: queue_message_def list_all_length message_wf_def)

lemma queue_messages_ok:
  assumes "list_all message_wf q" and "int (length q) \<le> INT64_MAX" and "\<And>i. i \<in> set ks \<Longrightarrow> i < length q"
  shows "list_all wire_ok (map (queue_message q) ks)"
  using queue_message_ok [OF assms(1) assms(3) assms(2)] by (simp add: list_all_iff)

lemma queue_pack_ok:
  assumes "n < length q" and "list_all message_wf q" and "alloc_ok al" and "int (length q) \<le> INT64_MAX"
    and "trail_indices M n rng = (ks, rng')" and "pack_assertable nd src dst (pack_messages q n ks)"
  shows "\<exists>new al'. alloc_ok al' \<and> carries src dst (pack_messages q n ks) new \<and>
    queue_pack M nd rng q (int n) src dst out al = Some (KIT_OK, rng', out @ new, al')"
proof -
  let ?w = "\<lambda>k. wire_bytes (queue_message q k)" and ?ms = "pack_messages q n ks"
  have size: "int (length q) - int n = int (length q - n)" "nat (int (length q - n)) = length q - n"
    using assms(1) by (simp_all add: of_nat_diff)
  obtain al1 where al1: "da_init ([] :: peer_chunk_t) (length q - n) al = (replicate (length q - n) [], al1)"
    "alloc_ok al1" by (rule da_init_ok [OF assms(3)])
  obtain al2 where al2: "alloc_ok al2"
    "queue_chunks nd q (int n) (length q - n) al1 = Some (Some (map ?w [n..<length q]), al2)"
    using queue_chunks_ok [of n "length q - n" q al1 nd] assms(1,2) al1(2) by auto
  obtain al3 where al3: "alloc_ok al3" "chunks_append_trail M nd rng q (int n) (map ?w [n..<length q]) al2 =
      Some (KIT_OK, rng', map ?w [n..<length q] @ map ?w ks, al3)"
    using chunks_append_trail_ok [OF _ assms(2) al2(1) assms(5)] assms(1) by fastforce
  have chunks: "map ?w [n..<length q] @ map ?w ks = map wire_bytes ?ms" by (simp add: pack_messages_def)
  obtain al4 where al4: "alloc_ok al4" "chunks_wrap nd (map wire_bytes ?ms) al3 =
      Some (KIT_OK, map chunk_ref (map wire_bytes ?ms), al4)"
    using chunks_wrap_ok [OF al3(1)] by blast
  have "list_all wire_ok ?ms"
    unfolding pack_messages_def using assms(1) trail_indices_bound [OF assms(5)]
    by (intro queue_messages_ok [OF assms(2,4)]) fastforce
  moreover have "?ms \<noteq> []" using assms(1) by (auto simp: pack_messages_def)
  ultimately obtain new al5 where al5: "alloc_ok al5" "carries src dst ?ms new"
    "peer_pack nd src dst (map chunk_ref (map wire_bytes ?ms)) out al4 = Some (KIT_OK, out @ new, al5)"
    using peer_pack_wire [OF _ _ al4(1) assms(6)] by blast
  show ?thesis
    using assms(1) size al1(1) al2(2) al3(2) al4(2) al5
    by (auto simp: queue_pack_def chunks Let_def)
qed

text \<open>A heartbeat and its trail.\<close>

definition heartbeat_messages :: "peer_queue_t \<Rightarrow> peer_time_t \<Rightarrow> ptrdiff_t \<Rightarrow> nat list \<Rightarrow> wire_message list" where
  "heartbeat_messages q time actor ks = M_heartbeat time actor # map (queue_message q) ks"

lemma send_heartbeat_ok:
  assumes "out_index slot = int n" and "n \<le> length q" and "list_all message_wf q" and "alloc_ok al"
    and "int (length q) \<le> INT64_MAX" and "wire_ok (M_heartbeat time actor)"
    and "trail_indices M n rng = (ks, rng')"
    and "pack_assertable nd (endpoint_id (slot_local slot)) (endpoint_id (slot_remote slot))
      (heartbeat_messages q time actor ks)"
  shows "\<exists>new al'. alloc_ok al' \<and> carries (endpoint_id (slot_local slot)) (endpoint_id (slot_remote slot))
      (heartbeat_messages q time actor ks) new \<and>
    send_heartbeat M nd q time actor slot (status, rng, packets, al) =
      Some (slot\<lparr>clock_heartbeat := PEER_TIMEOUT_HEARTBEAT\<rparr>, status, rng', packets @ new, al')"
proof -
  let ?src = "endpoint_id (slot_local slot)" and ?dst = "endpoint_id (slot_remote slot)"
  let ?ms = "heartbeat_messages q time actor ks" and ?h = "wire_bytes (M_heartbeat time actor)"
  obtain al1 where al1: "da_init ([] :: peer_chunk_t) 1 al = ([[]], al1)" "alloc_ok al1"
    using da_init_ok [OF assms(4), of "[] :: peer_chunk_t" 1 thesis] by simp
  obtain v al2 where v: "da_init_bytes 31 al1 = Some (v, al2)" "length v = 31" "alloc_ok al2"
    using da_init_bytes_ok [OF al1(2), of 31 thesis] by simp
  have "message_fits 0 actor (take 1 [1])" using assms(6) by (auto simp: message_fits_def)
  then have w: "peer_write_message nd v 0 (- 1) time actor 1 [1] = Some ?h"
    using peer_write_message_eq [of nd 0 actor 1 "[1]" v "- 1" time] v(2) by simp
  obtain al3 where al3: "alloc_ok al3" "chunks_append_trail M nd rng q (int n) [?h] al2 =
      Some (KIT_OK, rng', [?h] @ map (\<lambda>k. wire_bytes (queue_message q k)) ks, al3)"
    using chunks_append_trail_ok [OF assms(2,3) v(3) assms(7)] by blast
  have chunks: "[?h] @ map (\<lambda>k. wire_bytes (queue_message q k)) ks = map wire_bytes ?ms"
    by (simp add: heartbeat_messages_def)
  obtain al4 where al4: "alloc_ok al4" "chunks_wrap nd (map wire_bytes ?ms) al3 =
      Some (KIT_OK, map chunk_ref (map wire_bytes ?ms), al4)"
    using chunks_wrap_ok [OF al3(1)] by blast
  have "i < length q" if "i \<in> set ks" for i using trail_indices_bound [OF assms(7) that] assms(2) by simp
  then have "list_all wire_ok ?ms"
    using queue_messages_ok [OF assms(3,5)] assms(6) by (simp add: heartbeat_messages_def)
  moreover have "?ms \<noteq> []" by (simp add: heartbeat_messages_def)
  ultimately obtain new al5 where al5: "alloc_ok al5" "carries ?src ?dst ?ms new"
    "peer_pack nd ?src ?dst (map chunk_ref (map wire_bytes ?ms)) packets al4 = Some (KIT_OK, packets @ new, al5)"
    using peer_pack_wire [OF _ _ al4(1) assms(8)] by blast
  show ?thesis
    by (intro exI [of _ new] exI [of _ al5])
      (simp add: al5 send_heartbeat_def al1(1) v w al3(2) [unfolded chunks] al4(2) assms(1)
        del: map_map One_nat_def wire_bytes.simps)
qed

text \<open>A chunk at the front of a longer array is packed like the chunk alone.\<close>

lemma pack_chunk_prefix:
  assumes "10 \<le> length c"
  shows "pack_chunk nd src dst prev \<lparr>ref_size = int (length c), ref_values = Some (c @ rest)\<rparr> st =
    pack_chunk nd src dst prev (chunk_ref c) st"
proof -
  have "peer_read_message_size (c @ rest) 0 = peer_read_message_size c 0"
    using peer_read_message_size_inside [OF assms, of "[]" rest] by simp
  moreover have "c_memcpy d p (c @ rest) 0 (int (length c)) = c_memcpy d p c 0 (int (length c))" for d p
    by (simp add: c_memcpy_def)
  ultimately show ?thesis
    by (simp add: pack_chunk_def chunk_ref_def cong: sum.case_cong prod.case_cong if_cong)
qed

lemma peer_pack_prefix:
  assumes "10 \<le> length c"
  shows "peer_pack nd src dst [\<lparr>ref_size = int (length c), ref_values = Some (c @ rest)\<rparr>] out al =
    peer_pack nd src dst [chunk_ref c] out al"
  using assms by (simp add: peer_pack_def pack_chunk_prefix)

definition slot_address :: "peer_slot_t \<Rightarrow> byte list" where
  "slot_address slot = take (nat (address_size (slot_local slot))) (address_data (slot_local slot))"

lemma session_response_small:
  assumes "length addr \<le> 64"
  shows "pack_assertable nd src dst [M_session_response t a addr] \<longleftrightarrow> nd \<or> src \<noteq> dst"
  using assms by (auto simp: pack_assertable_def assertable_def pack_groups_def)

lemma send_session_response_ok:
  assumes "endpoint_wf (slot_local slot)" and "0 \<le> slot_actor slot" and "slot_actor slot \<le> 0xffffffff"
    and "is_int64 time" and "alloc_ok al" and "nd \<or> host_id \<noteq> endpoint_id (slot_remote slot)"
  shows "\<exists>new al'. alloc_ok al' \<and> carries host_id (endpoint_id (slot_remote slot))
      [M_session_response time (slot_actor slot) (slot_address slot)] new \<and>
    send_session_response nd time host_id slot (status, rng, packets, al) =
      Some (slot\<lparr>slot_state := PEER_SLOT_READY, clock_heartbeat := PEER_TIMEOUT_HEARTBEAT\<rparr>,
        status, rng, packets @ new, al')"
proof -
  let ?addr = "slot_address slot"
  let ?m = "M_session_response time (slot_actor slot) ?addr" and ?dst = "endpoint_id (slot_remote slot)"
  obtain n where "address_size (slot_local slot) = int n"
    using assms(1) nonneg_int_cases unfolding endpoint_wf_def by metis
  then have n: "address_size (slot_local slot) = int n" "n \<le> 64" "length (address_data (slot_local slot)) = 64"
    "length ?addr = n" "?addr = take n (address_data (slot_local slot))"
    using assms(1) by (simp_all add: endpoint_wf_def slot_address_def)
  let ?data = "5 # ?addr @ drop n (replicate 64 (0 :: byte))"
  have data: "c_memcpy (5 # replicate 64 0) 1 (address_data (slot_local slot)) 0 (int n) = Some ?data"
    using n by (simp add: c_memcpy_def nat_add_distrib)
  have take: "take (1 + n) ?data = 5 # ?addr" using n by simp
  have "message_fits 0 (slot_actor slot) (5 # ?addr)" using assms(2,3) n by (simp add: message_fits_def)
  then have w: "peer_write_message nd (replicate 95 0) 0 (- 1) time (slot_actor slot) (int n + 1) ?data =
      Some (wire_bytes ?m @ drop (31 + n) (replicate 95 0))"
    using peer_write_message_eq [of nd 0 "slot_actor slot" "1 + n" ?data "replicate 95 0" "- 1" time]
      n take by (simp add: add.commute)
  have "wire_ok ?m" using assms(2-4) n by simp
  moreover have "pack_assertable nd host_id ?dst [?m]" using session_response_small assms(6) n by simp
  ultimately obtain new al' where al': "alloc_ok al'" "carries host_id ?dst [?m] new"
    "peer_pack nd host_id ?dst [chunk_ref (wire_bytes ?m)] packets al = Some (KIT_OK, packets @ new, al')"
    using peer_pack_wire [of "[?m]" al nd host_id ?dst packets] assms(5) by auto
  have "peer_pack nd host_id ?dst [\<lparr>ref_size = int (length (wire_bytes ?m)),
      ref_values = Some (wire_bytes ?m @ drop (31 + n) (replicate 95 0))\<rparr>] packets al =
      peer_pack nd host_id ?dst [chunk_ref (wire_bytes ?m)] packets al"
    by (rule peer_pack_prefix) simp
  moreover have "int (length (wire_bytes ?m)) = 31 + int n" using n by simp
  ultimately show ?thesis
    using al' data w n by (auto simp: send_session_response_def)
qed

subsection \<open>Collecting the clients' messages\<close>

text \<open>The messages of a slot that are next in line, as they enter the mutual queue.\<close>

definition collected :: "peer_time_t \<Rightarrow> peer_slot_t \<Rightarrow> peer_queue_t" where
  "collected time slot = map (\<lambda>m. ready_message (time, slot_actor slot, message_data m))
     (takeWhile is_ready (drop (nat (in_index slot)) (slot_queue slot)))"

definition advance_slot :: "peer_time_t \<Rightarrow> peer_slot_t \<Rightarrow> peer_slot_t" where
  "advance_slot time slot = slot\<lparr>in_index := in_index slot + int (length (collected time slot))\<rparr>"

lemma collect_messages_ok:
  assumes "alloc_ok al" and "\<forall>m \<in> set ms. is_ready m \<longrightarrow> message_actor m = actor"
  shows "\<exists>al'. alloc_ok al' \<and> collect_messages nd time actor ms index (status, q, al) =
    Some (index + int (length (takeWhile is_ready ms)), status,
      q @ map (\<lambda>m. ready_message (time, actor, message_data m)) (takeWhile is_ready ms), al')"
  using assms
proof (induction ms arbitrary: index q al)
  case (Cons m ms)
  show ?case
  proof (cases "is_ready m")
    case True
    obtain al1 where "alloc_ok al1" "queue_append q time actor (chunk_ref (message_data m)) al =
        Some (KIT_OK, q @ [ready_message (time, actor, message_data m)], al1)"
      using queue_append_ok [OF Cons.prems(1)] by blast
    then show ?thesis
      using True Cons.prems(2)
        Cons.IH [of al1 "index + 1" "q @ [ready_message (time, actor, message_data m)]"]
      by (auto simp: add.assoc)
  qed (use Cons.prems in auto)
qed auto

lemma host_slot_actors:
  "mode_slot_wf PEER_HOST q slot \<Longrightarrow> 0 \<le> in_index slot \<and>
    (\<forall>m \<in> set (drop n (slot_queue slot)). is_ready m \<longrightarrow> message_actor m = slot_actor slot)"
  by (auto simp: mode_slot_wf_def slot_wf_def host_slot_wf_def list_all_iff dest: in_set_dropD)

lemma collect_slots_ok:
  assumes "alloc_ok al" and "list_all (mode_slot_wf PEER_HOST q0) slots"
  shows "\<exists>al'. alloc_ok al' \<and> collect_slots nd time slots (status, q, al) =
    Some (map (advance_slot time) slots, status, q @ concat (map (collected time) slots), al')"
  using assms
proof (induction slots arbitrary: q al)
  case (Cons slot slots)
  have slot: "0 \<le> in_index slot" "\<forall>m \<in> set (drop (nat (in_index slot)) (slot_queue slot)).
      is_ready m \<longrightarrow> message_actor m = slot_actor slot"
    using host_slot_actors [of q0 slot] Cons.prems(2) by auto
  obtain al1 where al1: "alloc_ok al1" "collect_slot nd time slot (status, q, al) =
      Some (advance_slot time slot, status, q @ collected time slot, al1)"
    using collect_messages_ok [OF Cons.prems(1) slot(2), of nd time "in_index slot" status q] slot(1)
    by (auto simp: collect_slot_def collected_def advance_slot_def)
  obtain al2 where "alloc_ok al2" "collect_slots nd time slots (status, q @ collected time slot, al1) =
      Some (map (advance_slot time) slots, status,
        (q @ collected time slot) @ concat (map (collected time) slots), al2)"
    using Cons.IH [OF al1(1), of "q @ collected time slot"] Cons.prems(2) by auto
  then show ?case using al1(2) by auto
qed auto

text \<open>The mutual queue after a tick at time \<open>time\<close>: the messages before \<open>queue_index\<close> as they were,
  the host's new messages with the time of the tick, and the clients' messages slot by slot.\<close>

definition host_queue :: "peer_time_t \<Rightarrow> 'r peer_t \<Rightarrow> peer_queue_t" where
  "host_queue time host =
     take (nat (queue_index host)) (mutual_queue host) @
     map (\<lambda>m. m\<lparr>message_time := time\<rparr>) (drop (nat (queue_index host)) (mutual_queue host)) @
     concat (map (collected time) (drop 1 (peer_slots host)))"

definition collected_host :: "'r peer_t \<Rightarrow> 'r peer_t" where
  "collected_host host = (let time = peer_time_local host in host
     \<lparr>peer_time := time, mutual_queue := host_queue time host,
      peer_slots := take 1 (peer_slots host) @ map (advance_slot time) (drop 1 (peer_slots host)),
      queue_index := int (length (host_queue time host))\<rparr>)"

lemma host_collect_ok:
  assumes "peer_wf host" and "peer_mode host = PEER_HOST" and "alloc_ok (peer_alloc host)"
  shows "\<exists>al'. alloc_ok al' \<and> host_collect nd host = Some (KIT_OK, (collected_host host)\<lparr>peer_alloc := al'\<rparr>)"
proof -
  let ?t = "peer_time_local host" and ?slots = "drop 1 (peer_slots host)"
  let ?q0 = "take (nat (queue_index host)) (mutual_queue host) @
    map (\<lambda>m. m\<lparr>message_time := ?t\<rparr>) (drop (nat (queue_index host)) (mutual_queue host))"
  have "list_all (mode_slot_wf PEER_HOST (mutual_queue host)) (peer_slots host)" and "0 \<le> queue_index host"
    using assms(1,2) by (simp_all add: peer_wf_def)
  then have "list_all (mode_slot_wf PEER_HOST (mutual_queue host)) ?slots"
    by (auto simp: list_all_iff dest: in_set_dropD)
  then obtain al' where "alloc_ok al'" "collect_slots nd ?t ?slots (KIT_OK, ?q0, peer_alloc host) =
      Some (map (advance_slot ?t) ?slots, KIT_OK, ?q0 @ concat (map (collected ?t) ?slots), al')"
    using collect_slots_ok [OF assms(3), of _ ?slots nd ?t KIT_OK ?q0] by blast
  then show ?thesis
    using \<open>0 \<le> queue_index host\<close>
    by (auto simp: host_collect_def stamp_messages_def collected_host_def host_queue_def Let_def)
qed

end
