(* ===== verification/Peer_Pool.thy ===== *)
theory Peer_Pool
  imports Peer_Tick
begin

text \<open>
  The socket pool (\<open>source/peer/socket_pool.c\<close>, \<open>socket_pool.h\<close>) and the POSIX part of
  \<open>source/peer/sockets.h\<close>: the glue between a peer and system sockets. A node of the pool is either one
  of our sockets, with its local port, or the address of a remote peer; the ids the peer works with are
  positions in the list of nodes.

  The operating system is a parameter: the record \<open>os_ops\<close> holds the calls the code makes, as functions
  on a state of the system. Ports are in host byte order, since every call converts. \<open>da_moves\<close> says
  whether \<open>DA_RESIZE\<close> of the kit library moves an array when it grows it to a size; a pointer
  into the old array is then dangling.
\<close>

subsection \<open>The system\<close>

type_synonym socket_t = int
type_synonym port_t = "16 word"

abbreviation (input) INVALID_SOCKET :: socket_t where
  "INVALID_SOCKET \<equiv> - 1"

datatype recv_result = Datagram "byte list" "32 word" port_t | Recv_failed

record 'w os_ops =
  os_socket :: "'w \<Rightarrow> socket_t \<times> 'w"
  os_getfl :: "socket_t \<Rightarrow> 'w \<Rightarrow> int \<times> 'w"
  os_setfl :: "socket_t \<Rightarrow> int \<Rightarrow> 'w \<Rightarrow> int \<times> 'w"
  os_bind :: "socket_t \<Rightarrow> port_t \<Rightarrow> 'w \<Rightarrow> int \<times> 'w"
  os_getsockname :: "socket_t \<Rightarrow> 'w \<Rightarrow> port_t option \<times> 'w"
  os_close :: "socket_t \<Rightarrow> 'w \<Rightarrow> 'w"
  os_recvfrom :: "socket_t \<Rightarrow> 'w \<Rightarrow> recv_result \<times> 'w"
  os_sendto :: "socket_t \<Rightarrow> byte list \<Rightarrow> 32 word \<Rightarrow> port_t \<Rightarrow> 'w \<Rightarrow> int \<times> 'w"
  os_errno :: "'w \<Rightarrow> int"
  os_ignore_sigpipe :: "'w \<Rightarrow> 'w"
  inet_ntop :: "32 word \<Rightarrow> byte list"
  inet_pton :: "byte list \<Rightarrow> int \<times> 32 word"
  da_moves :: "nat \<Rightarrow> bool"
  O_NONBLOCK :: int
  EAGAIN :: int
  EWOULDBLOCK :: int
  EMSGSIZE :: int
  ECONNRESET :: int

subsection \<open>Sockets\<close>

text \<open>\<open>sockets.h\<close>, the branch that is not Windows.\<close>

definition peer_sockets_init :: "'w os_ops \<Rightarrow> 'w \<Rightarrow> int \<times> 'w" where
  "peer_sockets_init os w = (0, os_ignore_sigpipe os w)"

definition peer_sockets_cleanup :: "'w \<Rightarrow> int \<times> 'w" where
  "peer_sockets_cleanup w = (0, w)"

definition peer_socket_set_blocking :: "'w os_ops \<Rightarrow> socket_t \<Rightarrow> 'w \<Rightarrow> int \<times> 'w" where
  "peer_socket_set_blocking os s w = (let (flags, w1) = os_getfl os s w in os_setfl os s (flags AND NOT (O_NONBLOCK os)) w1)"

definition peer_socket_set_nonblocking :: "'w os_ops \<Rightarrow> socket_t \<Rightarrow> 'w \<Rightarrow> int \<times> 'w" where
  "peer_socket_set_nonblocking os s w = (let (flags, w1) = os_getfl os s w in os_setfl os s (flags OR O_NONBLOCK os) w1)"

subsection \<open>Data\<close>

abbreviation (input) PEER_ANY_PROTOCOL :: int where "PEER_ANY_PROTOCOL \<equiv> 0"
abbreviation (input) PEER_UDP_IPv4 :: int where "PEER_UDP_IPv4 \<equiv> 1"
abbreviation (input) PEER_UDP_IPv6 :: int where "PEER_UDP_IPv6 \<equiv> 2"
abbreviation (input) PEER_TCP_IPv4 :: int where "PEER_TCP_IPv4 \<equiv> 3"
abbreviation (input) PEER_TCP_IPv6 :: int where "PEER_TCP_IPv6 \<equiv> 4"
abbreviation (input) PEER_ANY_PORT :: port_t where "PEER_ANY_PORT \<equiv> 0"

record peer_node_t =
  node_socket :: socket_t
  node_protocol :: int
  local_port :: port_t
  remote_port :: port_t
  remote_address_size :: ptrdiff_t
  remote_address :: "byte list"

type_synonym peer_nodes_t = "peer_node_t list"

record peer_socket_pool_t =
  pool_alloc :: kit_allocator_t
  pool_nodes :: peer_nodes_t

definition zero_node :: peer_node_t where
  "zero_node = \<lparr>node_socket = 0, node_protocol = 0, local_port = 0, remote_port = 0,
     remote_address_size = 0, remote_address = replicate (nat (PEER_ADDRESS_SIZE - 2)) 0\<rparr>"

text \<open>A pointer to an address: into a buffer of its own (with what can be read from there on), or to the
  address of a node, inside the array of nodes.\<close>

datatype address_ptr = In_buffer "byte list" | In_node nat

text \<open>\<open>AR_EQUAL\<close> of the kit library: equal sizes and equal elements.\<close>

definition ar_equal :: "ptrdiff_t \<Rightarrow> byte list \<Rightarrow> ptrdiff_t \<Rightarrow> byte list \<Rightarrow> bool option" where
  "ar_equal n xs m ys =
     (if n \<noteq> m then Some False
      else if n \<le> int (length xs) \<and> m \<le> int (length ys) then Some (take (nat n) xs = take (nat m) ys)
      else None)"

subsection \<open>Finding the node of a remote address\<close>

definition address_bytes :: "peer_nodes_t \<Rightarrow> address_ptr \<Rightarrow> byte list option" where
  "address_bytes nodes addr =
     (case addr of In_buffer bs \<Rightarrow> Some bs | In_node j \<Rightarrow> map_option remote_address (c_load nodes (int j)))"

definition node_matches ::
  "int \<Rightarrow> port_t \<Rightarrow> ptrdiff_t \<Rightarrow> byte list \<Rightarrow> peer_node_t \<Rightarrow> bool option" where
  "node_matches protocol port n bs node =
     (if node_socket node = INVALID_SOCKET \<and> node_protocol node = protocol \<and>
         local_port node = PEER_ANY_PORT \<and> remote_port node = port
      then ar_equal (remote_address_size node) (remote_address node) n bs
      else Some False)"

fun search_nodes :: "(peer_node_t \<Rightarrow> bool option) \<Rightarrow> nat \<Rightarrow> peer_nodes_t \<Rightarrow> nat option option" where
  "search_nodes f i [] = Some None"
| "search_nodes f i (node # nodes) = do {
     b \<leftarrow> f node;
     if b then Some (Some i) else search_nodes f (Suc i) nodes
   }"

text \<open>The result is the status, what was written to \<open>out_id\<close>, if anything, and the pool.\<close>

definition find_pool_node ::
  "'w os_ops \<Rightarrow> bool \<Rightarrow> peer_socket_pool_t \<Rightarrow> int \<Rightarrow> port_t \<Rightarrow> ptrdiff_t \<Rightarrow> address_ptr \<Rightarrow>
   (kit_status_t \<times> ptrdiff_t option \<times> peer_socket_pool_t) option" where
  "find_pool_node os nd pool protocol port n addr = do {
     c_assert nd (protocol = PEER_UDP_IPv4);
     c_assert nd (n > 0);
     if protocol \<noteq> PEER_UDP_IPv4 then Some (PEER_ERROR_UNKNOWN_PROTOCOL, None, pool)
     else do {
       bs \<leftarrow> address_bytes (pool_nodes pool) addr;
       found \<leftarrow> search_nodes (node_matches protocol port n bs) 0 (pool_nodes pool);
       case found of
         Some i \<Rightarrow> Some (KIT_OK, Some (int i), pool)
       | None \<Rightarrow> (let k = length (pool_nodes pool);
             (nodes1, al1) = da_resize (\<lambda>_ _. zero_node) (k + 1) (pool_nodes pool) (pool_alloc pool)
           in do {
             c_assert nd (length nodes1 = k + 1);
             if length nodes1 \<noteq> k + 1
             then Some (PEER_ERROR_BAD_ALLOC, Some (- 1), pool\<lparr>pool_nodes := nodes1, pool_alloc := al1\<rparr>)
             else do {
               bs' \<leftarrow> (case addr of In_node j \<Rightarrow> if da_moves os (k + 1) then None else Some bs
                      | In_buffer _ \<Rightarrow> Some bs);
               address \<leftarrow> c_memcpy (remote_address zero_node) 0 bs' 0 n;
               nodes2 \<leftarrow> c_store nodes1 (int k)
                 \<lparr>node_socket = INVALID_SOCKET, node_protocol = protocol, local_port = PEER_ANY_PORT,
                  remote_port = port, remote_address_size = n, remote_address = address\<rparr>;
               Some (KIT_OK, Some (int k), pool\<lparr>pool_nodes := nodes2, pool_alloc := al1\<rparr>)
             }
           })
     }
   }"

subsection \<open>Resolving addresses and ids\<close>

text \<open>The four parts of the loop body of \<open>resolve_address_and_id\<close>, in their order. Each gives the status it
  adds.\<close>

text \<open>Protocol and port, as the first three bytes of an address.\<close>

definition write_port :: "byte list \<Rightarrow> int \<Rightarrow> port_t \<Rightarrow> byte list option" where
  "write_port data protocol port = do {
     d0 \<leftarrow> c_store data 0 (word_of_int protocol);
     d1 \<leftarrow> c_store d0 1 (ucast (port AND 0xff));
     c_store d1 2 (ucast (drop_bit 8 port AND 0xff))
   }"

definition read_port :: "byte list \<Rightarrow> (int \<times> port_t) option" where
  "read_port data = do {
     b0 \<leftarrow> c_load data 0;
     b1 \<leftarrow> c_load data 1;
     b2 \<leftarrow> c_load data 2;
     Some (uint b0, ucast b1 OR push_bit 8 (ucast b2))
   }"

definition resolve_local ::
  "bool \<Rightarrow> peer_nodes_t \<Rightarrow> peer_slot_t \<Rightarrow> (kit_status_t \<times> peer_slot_t) option" where
  "resolve_local nd nodes slot =
     (let l = slot_local slot in
      if \<not> is_address_resolved l \<and> endpoint_id l \<noteq> PEER_UNDEFINED then do {
        c_assert nd (endpoint_id l \<ge> 0);
        c_assert nd (endpoint_id l < int (length nodes));
        if endpoint_id l < 0 \<or> endpoint_id l \<ge> int (length nodes) then Some (PEER_ERROR_INVALID_ID, slot)
        else do {
          node \<leftarrow> c_load nodes (endpoint_id l);
          data \<leftarrow> write_port (address_data l) (node_protocol node) (local_port node);
          Some (KIT_OK, slot\<lparr>slot_local := l\<lparr>address_size := 3, address_data := data, is_address_resolved := True\<rparr>\<rparr>)
        }
      } else Some (KIT_OK, slot))"

definition resolve_remote ::
  "bool \<Rightarrow> peer_nodes_t \<Rightarrow> peer_slot_t \<Rightarrow> (kit_status_t \<times> peer_slot_t) option" where
  "resolve_remote nd nodes slot =
     (let r = slot_remote slot in
      if \<not> is_address_resolved r \<and> endpoint_id r \<noteq> PEER_UNDEFINED then do {
        c_assert nd (endpoint_id r \<ge> 0);
        c_assert nd (endpoint_id r < int (length nodes));
        if endpoint_id r < 0 \<or> endpoint_id r \<ge> int (length nodes) then Some (PEER_ERROR_INVALID_ID, slot)
        else do {
          node \<leftarrow> c_load nodes (endpoint_id r);
          data \<leftarrow> write_port (address_data r) (node_protocol node) (remote_port node);
          data' \<leftarrow> (if remote_address_size node > 0
                    then c_memcpy data 3 (remote_address node) 0 (remote_address_size node) else Some data);
          Some (KIT_OK, slot\<lparr>slot_remote := r\<lparr>address_size := 3 + remote_address_size node,
            address_data := data', is_address_resolved := True\<rparr>\<rparr>)
        }
      } else Some (KIT_OK, slot))"

text \<open>What both searches for a remote id do with the node they find.\<close>

definition resolve_id ::
  "'w os_ops \<Rightarrow> bool \<Rightarrow> ptrdiff_t \<Rightarrow> address_ptr \<Rightarrow> peer_socket_pool_t \<times> peer_slot_t \<Rightarrow>
   (kit_status_t \<times> peer_socket_pool_t \<times> peer_slot_t) option" where
  "resolve_id os nd n addr = (\<lambda>(pool, slot). do {
     (protocol, port) \<leftarrow> read_port (address_data (slot_remote slot));
     (s, found, pool') \<leftarrow> find_pool_node os nd pool protocol port n addr;
     if s \<noteq> KIT_OK then Some (s, pool', slot)
     else do {
       i \<leftarrow> found;
       Some (KIT_OK, pool', slot\<lparr>slot_remote := (slot_remote slot)\<lparr>endpoint_id := i, is_id_resolved := True\<rparr>\<rparr>)
     }
   })"

definition resolve_id_by_port ::
  "'w os_ops \<Rightarrow> bool \<Rightarrow> peer_socket_pool_t \<times> peer_slot_t \<Rightarrow>
   (kit_status_t \<times> peer_socket_pool_t \<times> peer_slot_t) option" where
  "resolve_id_by_port os nd = (\<lambda>(pool, slot).
     let r = slot_remote slot in
     if \<not> is_id_resolved r \<and> address_size r = 3 \<and> endpoint_id r \<noteq> PEER_UNDEFINED then do {
       c_assert nd (endpoint_id r \<ge> 0);
       c_assert nd (endpoint_id r < int (length (pool_nodes pool)));
       if endpoint_id r < 0 \<or> endpoint_id r \<ge> int (length (pool_nodes pool))
       then Some (PEER_ERROR_INVALID_ID, pool, slot)
       else do {
         node \<leftarrow> c_load (pool_nodes pool) (endpoint_id r);
         resolve_id os nd (remote_address_size node) (In_node (nat (endpoint_id r))) (pool, slot)
       }
     } else Some (KIT_OK, pool, slot))"

definition resolve_id_by_address ::
  "'w os_ops \<Rightarrow> bool \<Rightarrow> peer_socket_pool_t \<times> peer_slot_t \<Rightarrow>
   (kit_status_t \<times> peer_socket_pool_t \<times> peer_slot_t) option" where
  "resolve_id_by_address os nd = (\<lambda>(pool, slot).
     let r = slot_remote slot in
     if \<not> is_id_resolved r \<and> address_size r > 3
     then resolve_id os nd (address_size r - 3) (In_buffer (drop 3 (address_data r))) (pool, slot)
     else Some (KIT_OK, pool, slot))"

definition resolve_slot ::
  "'w os_ops \<Rightarrow> bool \<Rightarrow> peer_socket_pool_t \<times> peer_slot_t \<Rightarrow>
   (kit_status_t \<times> peer_socket_pool_t \<times> peer_slot_t) option" where
  "resolve_slot os nd = (\<lambda>(pool, slot). do {
     (s1, slot1) \<leftarrow> resolve_local nd (pool_nodes pool) slot;
     (s2, slot2) \<leftarrow> resolve_remote nd (pool_nodes pool) slot1;
     (s3, pool3, slot3) \<leftarrow> resolve_id_by_port os nd (pool, slot2);
     (s4, pool4, slot4) \<leftarrow> resolve_id_by_address os nd (pool3, slot3);
     Some (s1 OR s2 OR s3 OR s4, pool4, slot4)
   })"

fun resolve_slots ::
  "'w os_ops \<Rightarrow> bool \<Rightarrow> peer_slots_t \<Rightarrow> kit_status_t \<times> peer_socket_pool_t \<Rightarrow>
   (kit_status_t \<times> peer_socket_pool_t \<times> peer_slots_t) option" where
  "resolve_slots os nd [] (status, pool) = Some (status, pool, [])"
| "resolve_slots os nd (slot # slots) (status, pool) = do {
     (s, pool1, slot') \<leftarrow> resolve_slot os nd (pool, slot);
     (s', pool2, slots') \<leftarrow> resolve_slots os nd slots (status OR s, pool1);
     Some (s', pool2, slot' # slots')
   }"

definition resolve_address_and_id ::
  "'w os_ops \<Rightarrow> bool \<Rightarrow> peer_socket_pool_t \<Rightarrow> 'r peer_t \<Rightarrow>
   (kit_status_t \<times> peer_socket_pool_t \<times> 'r peer_t) option" where
  "resolve_address_and_id os nd pool peer = do {
     (status, pool', slots) \<leftarrow> resolve_slots os nd (peer_slots peer) (KIT_OK, pool);
     Some (status, pool', peer\<lparr>peer_slots := slots\<rparr>)
   }"

subsection \<open>Setting up and closing a pool\<close>

definition peer_pool_init ::
  "bool \<Rightarrow> peer_socket_pool_t option \<Rightarrow> kit_allocator_t \<Rightarrow> (kit_status_t \<times> peer_socket_pool_t option) option" where
  "peer_pool_init nd pool alloc =
     (case pool of
        None \<Rightarrow> do { c_assert nd False; Some (PEER_ERROR_INVALID_POOL, None) }
      | Some _ \<Rightarrow> Some (KIT_OK, Some \<lparr>pool_alloc = alloc, pool_nodes = []\<rparr>))"

text \<open>After \<open>peer_pool_destroy\<close> the array of nodes is released; the result is the system after its calls.\<close>

definition peer_pool_destroy ::
  "'w os_ops \<Rightarrow> bool \<Rightarrow> peer_socket_pool_t option \<Rightarrow> 'w \<Rightarrow> (kit_status_t \<times> 'w) option" where
  "peer_pool_destroy os nd pool w =
     (case pool of
        None \<Rightarrow> do { c_assert nd False; Some (PEER_ERROR_INVALID_POOL, w) }
      | Some p \<Rightarrow> Some (KIT_OK, fold (\<lambda>node. os_close os (node_socket node)) (pool_nodes p) w))"

text \<open>The check of both pointers.\<close>

definition with_pool ::
  "bool \<Rightarrow> peer_socket_pool_t option \<Rightarrow> 'p option \<Rightarrow> 'w \<Rightarrow>
   (peer_socket_pool_t \<Rightarrow> 'p \<Rightarrow> (kit_status_t \<times> peer_socket_pool_t \<times> 'p \<times> 'w) option) \<Rightarrow>
   (kit_status_t \<times> peer_socket_pool_t option \<times> 'p option \<times> 'w) option" where
  "with_pool nd pool peer w body = do {
     c_assert nd (pool \<noteq> None);
     c_assert nd (peer \<noteq> None);
     case (pool, peer) of
       (None, _) \<Rightarrow> Some (PEER_ERROR_INVALID_POOL, pool, peer, w)
     | (_, None) \<Rightarrow> Some (PEER_ERROR_INVALID_PEER, pool, peer, w)
     | (Some q, Some p) \<Rightarrow> do {
         (status, q', p', w') \<leftarrow> body q p;
         Some (status, Some q', Some p', w')
       }
   }"

subsection \<open>Opening sockets\<close>

text \<open>One socket: created, made non-blocking, bound, and its port asked for. A status other than
  \<open>KIT_OK\<close> ends the loop over the nodes; the node keeps the socket it has by then.\<close>

definition open_node ::
  "'w os_ops \<Rightarrow> bool \<Rightarrow> port_t \<Rightarrow> peer_node_t \<Rightarrow> 'w \<Rightarrow> (kit_status_t \<times> peer_node_t \<times> 'w) option" where
  "open_node os nd port node w =
     (let (s, w1) = os_socket os w; node1 = node\<lparr>node_socket := s\<rparr> in do {
        c_assert nd (s \<noteq> INVALID_SOCKET);
        if s = INVALID_SOCKET then Some (PEER_ERROR_CREATE_SOCKET_FAILED, node1, w1)
        else (let (r, w2) = peer_socket_set_nonblocking os s w1 in
          if r \<noteq> 0 then do { c_assert nd False; Some (PEER_ERROR_MAKE_SOCKET_NONBLOCKING_FAILED, node1, w2) }
          else (let (b, w3) = os_bind os s port w2 in
            if b = - 1 then do { c_assert nd False; Some (PEER_ERROR_BIND_SOCKET_FAILED, node1, w3) }
            else (case os_getsockname os s w3 of
                (None, w4) \<Rightarrow> do { c_assert nd False; Some (PEER_ERROR_GET_SOCKET_NAME_FAILED, node1, w4) }
              | (Some name_port, w4) \<Rightarrow> Some (KIT_OK, node1\<lparr>node_protocol := PEER_UDP_IPv4,
                  local_port := name_port, remote_port := PEER_ANY_PORT\<rparr>, w4))))
      })"

fun open_nodes ::
  "'w os_ops \<Rightarrow> bool \<Rightarrow> port_t \<Rightarrow> peer_nodes_t \<Rightarrow> 'w \<Rightarrow> (kit_status_t \<times> peer_nodes_t \<times> 'w) option" where
  "open_nodes os nd port [] w = Some (KIT_OK, [], w)"
| "open_nodes os nd port (node # nodes) w = do {
     (s, node', w1) \<leftarrow> open_node os nd port node w;
     if s \<noteq> KIT_OK then Some (s, node' # nodes, w1)
     else do {
       (s', nodes', w2) \<leftarrow> open_nodes os nd port nodes w1;
       Some (s', node' # nodes', w2)
     }
   }"

text \<open>The \<open>switch\<close> over the protocols.\<close>

definition open_protocol ::
  "'w os_ops \<Rightarrow> bool \<Rightarrow> int \<Rightarrow> port_t \<Rightarrow> nat \<Rightarrow> peer_socket_pool_t \<Rightarrow> 'w \<Rightarrow>
   (kit_status_t \<times> peer_socket_pool_t \<times> 'w) option" where
  "open_protocol os nd protocol port count pool w =
     (if protocol = PEER_UDP_IPv4 then
        (let n = length (pool_nodes pool);
             (nodes1, al1) = da_resize (\<lambda>_ _. zero_node) (n + count) (pool_nodes pool) (pool_alloc pool)
         in do {
           c_assert nd (length nodes1 = n + count);
           if length nodes1 \<noteq> n + count
           then (let (nodes2, al2) = da_resize (\<lambda>_ _. zero_node) n nodes1 al1 in
             Some (PEER_ERROR_BAD_ALLOC, pool\<lparr>pool_nodes := nodes2, pool_alloc := al2\<rparr>, w))
           else do {
             (s, new, w') \<leftarrow> open_nodes os nd port (replicate count zero_node) w;
             Some (s, pool\<lparr>pool_nodes := take n nodes1 @ new, pool_alloc := al1\<rparr>, w')
           }
         })
      else if protocol = PEER_UDP_IPv6 \<or> protocol = PEER_TCP_IPv4 \<or> protocol = PEER_TCP_IPv6
      then do { c_assert nd False; Some (PEER_ERROR_NOT_IMPLEMENTED, pool, w) }
      else do { c_assert nd False; Some (PEER_ERROR_UNKNOWN_PROTOCOL, pool, w) })"

text \<open>The slots of the peer for the new nodes.\<close>

definition open_peer_slots ::
  "bool \<Rightarrow> nat \<Rightarrow> nat \<Rightarrow> peer_socket_pool_t \<Rightarrow> 'r peer_t \<Rightarrow>
   (kit_status_t \<times> peer_socket_pool_t \<times> 'r peer_t) option" where
  "open_peer_slots nd n count pool peer =
     (let (ids, al) = da_init (0 :: ptrdiff_t) count (pool_alloc pool); pool' = pool\<lparr>pool_alloc := al\<rparr> in do {
        c_assert nd (length ids = count);
        if length ids = count then do {
          (s, p) \<leftarrow> peer_open nd (Some peer) (ids_ref (map (\<lambda>i. int (n + i)) [0..<count]));
          peer' \<leftarrow> p;
          Some (s, pool', peer')
        } else Some (PEER_ERROR_BAD_ALLOC, pool', peer)
      })"

definition close_nodes :: "'w os_ops \<Rightarrow> peer_nodes_t \<Rightarrow> 'w \<Rightarrow> 'w" where
  "close_nodes os nodes w =
     fold (\<lambda>node w. if node_socket node \<noteq> INVALID_SOCKET then os_close os (node_socket node) w else w) nodes w"

definition peer_pool_open_body ::
  "'w os_ops \<Rightarrow> bool \<Rightarrow> int \<Rightarrow> port_t \<Rightarrow> ptrdiff_t \<Rightarrow> peer_socket_pool_t \<Rightarrow> 'r peer_t \<Rightarrow> 'w \<Rightarrow>
   (kit_status_t \<times> peer_socket_pool_t \<times> 'r peer_t \<times> 'w) option" where
  "peer_pool_open_body os nd protocol port count pool peer w = do {
     c_assert nd (count > 0);
     if count \<le> 0 then Some (PEER_ERROR_INVALID_COUNT, pool, peer, w)
     else (let n = length (pool_nodes pool) in do {
       (s1, pool1, w1) \<leftarrow> open_protocol os nd protocol port (nat count) pool w;
       (s2, pool2, peer2) \<leftarrow>
         (if s1 = KIT_OK then open_peer_slots nd n (nat count) pool1 peer else Some (s1, pool1, peer));
       if s2 \<noteq> KIT_OK
       then (let w2 = close_nodes os (drop n (pool_nodes pool2)) w1;
                 (nodes, al) = da_resize (\<lambda>_ _. zero_node) n (pool_nodes pool2) (pool_alloc pool2)
             in Some (s2, pool2\<lparr>pool_nodes := nodes, pool_alloc := al\<rparr>, peer2, w2))
       else Some (s2, pool2, peer2, w1)
     })
   }"

definition peer_pool_open ::
  "'w os_ops \<Rightarrow> bool \<Rightarrow> peer_socket_pool_t option \<Rightarrow> 'r peer_t option \<Rightarrow> int \<Rightarrow> port_t \<Rightarrow> ptrdiff_t \<Rightarrow> 'w \<Rightarrow>
   (kit_status_t \<times> peer_socket_pool_t option \<times> 'r peer_t option \<times> 'w) option" where
  "peer_pool_open os nd pool peer protocol port count w =
     with_pool nd pool peer w (\<lambda>q p. peer_pool_open_body os nd protocol port count q p w)"

subsection \<open>Connecting\<close>

text \<open>The address is the string \<open>address.values\<close> of \<open>n\<close> characters.\<close>

definition peer_pool_connect_body ::
  "'w os_ops \<Rightarrow> bool \<Rightarrow> int \<Rightarrow> ptrdiff_t \<Rightarrow> byte list \<Rightarrow> port_t \<Rightarrow> peer_socket_pool_t \<Rightarrow> 'r peer_t \<Rightarrow> 'w \<Rightarrow>
   (kit_status_t \<times> peer_socket_pool_t \<times> 'r peer_t \<times> 'w) option" where
  "peer_pool_connect_body os nd protocol n address port pool peer w = do {
     c_assert nd (n > 0 \<and> n \<le> PEER_ADDRESS_SIZE - 2);
     c_assert nd (port \<noteq> PEER_ANY_PORT);
     c_assert nd (protocol = PEER_UDP_IPv4);
     if n \<le> 0 \<or> n > PEER_ADDRESS_SIZE - 2 then Some (PEER_ERROR_INVALID_ADDRESS, pool, peer, w)
     else if port = PEER_ANY_PORT then Some (PEER_ERROR_INVALID_PORT, pool, peer, w)
     else do {
       (s, found, pool1) \<leftarrow> find_pool_node os nd pool protocol port n (In_buffer address);
       if s \<noteq> KIT_OK then Some (s, pool1, peer, w)
       else do {
         remote_id \<leftarrow> found;
         (s1, p1) \<leftarrow> peer_connect nd (Some peer) remote_id;
         peer1 \<leftarrow> p1;
         if s1 \<noteq> PEER_ERROR_NO_FREE_SLOTS then Some (s1, pool1, peer1, w)
         else do {
           (s2, pool2, peer2, w2) \<leftarrow> peer_pool_open_body os nd protocol PEER_ANY_PORT 1 pool1 peer1 w;
           if s2 \<noteq> KIT_OK then Some (s2, pool2, peer2, w2)
           else do {
             (s3, p3) \<leftarrow> peer_connect nd (Some peer2) remote_id;
             peer3 \<leftarrow> p3;
             Some (s3, pool2, peer3, w2)
           }
         }
       }
     }
   }"

definition peer_pool_connect ::
  "'w os_ops \<Rightarrow> bool \<Rightarrow> peer_socket_pool_t option \<Rightarrow> 'r peer_t option \<Rightarrow> int \<Rightarrow> ptrdiff_t \<Rightarrow> byte list \<Rightarrow> port_t \<Rightarrow> 'w \<Rightarrow>
   (kit_status_t \<times> peer_socket_pool_t option \<times> 'r peer_t option \<times> 'w) option" where
  "peer_pool_connect os nd pool peer protocol n address port w =
     with_pool nd pool peer w (\<lambda>q p. peer_pool_connect_body os nd protocol n address port q p w)"

subsection \<open>Ticking: receiving\<close>

text \<open>What \<open>peer_pool_tick\<close> does for node \<open>i\<close>: at most one datagram becomes a packet from the node of its
  sender to node \<open>i\<close>. The packets are in an array of the pool's allocator.\<close>

type_synonym 'w recv_state = "kit_status_t \<times> peer_socket_pool_t \<times> peer_packets_t \<times> 'w"

definition append_packet ::
  "bool \<Rightarrow> nat \<Rightarrow> ptrdiff_t \<Rightarrow> byte list \<Rightarrow> 'w recv_state \<Rightarrow> 'w recv_state option" where
  "append_packet nd i sid buf = (\<lambda>(status, pool, packets, w).
     let n = length packets;
         (packets1, al) = da_resize (\<lambda>_ _. zero_packet) (n + 1) packets (pool_alloc pool);
         pool' = pool\<lparr>pool_alloc := al\<rparr>
     in do {
       c_assert nd (length packets1 = n + 1);
       if length packets1 \<noteq> n + 1 then Some (status OR PEER_ERROR_BAD_ALLOC, pool', packets1, w)
       else do {
         data \<leftarrow> c_memcpy (packet_data zero_packet) 0 buf 0 (int (length buf));
         packets2 \<leftarrow> c_store packets1 (int n)
           \<lparr>source_id = sid, destination_id = int i, packet_size = int (length buf), packet_data = data\<rparr>;
         Some (status, pool', packets2, w)
       }
     })"

definition receive_node ::
  "'w os_ops \<Rightarrow> bool \<Rightarrow> nat \<Rightarrow> peer_node_t \<Rightarrow> 'w recv_state \<Rightarrow> 'w recv_state option" where
  "receive_node os nd i node = (\<lambda>(status, pool, packets, w).
     if node_socket node = INVALID_SOCKET \<or> node_protocol node \<noteq> PEER_UDP_IPv4 then Some (status, pool, packets, w)
     else (case os_recvfrom os (node_socket node) w of
         (Recv_failed, w1) \<Rightarrow>
           (let er = os_errno os w1 in
            if er \<noteq> EAGAIN os then do {
              c_assert nd (er \<noteq> EMSGSIZE os);
              c_assert nd (er \<noteq> ECONNRESET os);
              Some (if er \<noteq> 0 then status OR PEER_ERROR_SOCKET_RECEIVE_FAILED else status, pool, packets, w1)
            } else Some (status, pool, packets, w1))
       | (Datagram buf addr port, w1) \<Rightarrow>
           (if buf = [] then Some (status, pool, packets, w1)
            else (let sbuf = inet_ntop os addr in do {
              (s, found, pool1) \<leftarrow>
                find_pool_node os nd pool (node_protocol node) port (int (length sbuf)) (In_buffer sbuf);
              if s \<noteq> KIT_OK then Some (status OR s, pool1, packets, w1)
              else do {
                sid \<leftarrow> found;
                append_packet nd i sid buf (status, pool1, packets, w1)
              }
            }))))"

text \<open>
  The loop runs to the current number of nodes, and its body may add nodes. It ends because a node that is
  added has no socket: a step either leaves one socket less to look at, or adds no node.
\<close>

lemma find_pool_node_grows:
  assumes "find_pool_node os nd pool protocol port n addr = Some (s, found, pool')"
  shows "\<exists>new. pool_nodes pool' = pool_nodes pool @ new \<and> (\<forall>node \<in> set new. node_socket node = INVALID_SOCKET)"
proof -
  let ?k = "length (pool_nodes pool)"
  obtain nodes1 al1 where res: "da_resize (\<lambda>_ _. zero_node) (?k + 1) (pool_nodes pool) (pool_alloc pool) = (nodes1, al1)"
    by fastforce
  have "nodes1 = pool_nodes pool \<or> nodes1 = pool_nodes pool @ [zero_node]" using da_resize_cases [OF res] by auto
  then show ?thesis
    using assms res
    by (auto simp: find_pool_node_def c_assert_bind Let_def split: if_splits option.splits dest!: bind_eq_SomeD)
qed

lemma append_packet_pool:
  "append_packet nd i sid buf (status, pool, packets, w) = Some (status', pool', packets', w') \<Longrightarrow>
    pool_nodes pool' = pool_nodes pool \<and> w' = w"
  by (auto simp: append_packet_def Let_def c_assert_bind split: prod.splits if_splits dest!: bind_eq_SomeD)

lemma receive_node_grows:
  assumes "receive_node os nd i node (status, pool, packets, w) = Some (status', pool', packets', w')"
  shows "\<exists>new. pool_nodes pool' = pool_nodes pool @ new \<and> (\<forall>node \<in> set new. node_socket node = INVALID_SOCKET) \<and>
    (node_socket node = INVALID_SOCKET \<longrightarrow> new = [])"
proof (cases "pool' = pool")
  case False
  then obtain protocol port n addr s found pool1 where
    find: "find_pool_node os nd pool protocol port n addr = Some (s, found, pool1)"
    and pool': "pool_nodes pool' = pool_nodes pool1" and "node_socket node \<noteq> INVALID_SOCKET"
    using assms
    by (auto simp: receive_node_def Let_def c_assert_bind split: if_splits prod.splits recv_result.splits
        dest!: bind_eq_SomeD append_packet_pool)
  then show ?thesis using find_pool_node_grows [OF find] by auto
qed simp

definition sockets_from :: "nat \<Rightarrow> peer_nodes_t \<Rightarrow> nat" where
  "sockets_from i nodes = length (filter (\<lambda>node. node_socket node \<noteq> INVALID_SOCKET) (drop i nodes))"

function receive_nodes :: "'w os_ops \<Rightarrow> bool \<Rightarrow> nat \<Rightarrow> 'w recv_state \<Rightarrow> 'w recv_state option" where
  "receive_nodes os nd i (status, pool, packets, w) =
     (if i < length (pool_nodes pool)
      then do {
        st \<leftarrow> receive_node os nd i (pool_nodes pool ! i) (status, pool, packets, w);
        receive_nodes os nd (Suc i) st
      }
      else Some (status, pool, packets, w))"
  by pat_completeness auto

termination
proof (relation "measures [\<lambda>(os, nd, i, status, pool, packets, w). sockets_from i (pool_nodes pool),
    \<lambda>(os, nd, i, status, pool, packets, w). length (pool_nodes pool) - i]", simp, goal_cases)
  case (1 os nd i status pool packets w st)
  obtain status' pool' packets' w' where st: "st = (status', pool', packets', w')" by (cases st)
  let ?nodes = "pool_nodes pool"
  from receive_node_grows [OF 1(2) [unfolded st]] obtain new where new: "pool_nodes pool' = ?nodes @ new"
    "\<forall>node \<in> set new. node_socket node = INVALID_SOCKET" "node_socket (?nodes ! i) = INVALID_SOCKET \<longrightarrow> new = []" by blast
  have "drop i ?nodes = ?nodes ! i # drop (Suc i) ?nodes" using 1(1) by (simp add: Cons_nth_drop_Suc)
  moreover have "filter (\<lambda>node. node_socket node \<noteq> INVALID_SOCKET) (drop k new) = []" for k
    using new(2) by (auto simp: filter_empty_conv dest: in_set_dropD)
  ultimately show ?case using 1(1) new by (auto simp: st sockets_from_def)
qed

declare receive_nodes.simps [simp del]

subsection \<open>Ticking: sending\<close>

text \<open>A C string: the bytes before the first zero. Without one, the read goes past the array.\<close>

definition c_string :: "byte list \<Rightarrow> byte list option" where
  "c_string bs = (if 0 \<in> set bs then Some (takeWhile (\<lambda>b. b \<noteq> 0) bs) else None)"

text \<open>\<open>inet_pton\<close> writes the address only when it returns 1; before the call the address is zero.\<close>

definition node_target :: "'w os_ops \<Rightarrow> peer_node_t \<Rightarrow> (int \<times> 32 word) option" where
  "node_target os dst = do {
     name \<leftarrow> c_string (remote_address dst);
     let (r, a) = inet_pton os name;
     Some (r, if r = 1 then a else 0)
   }"

definition send_packet ::
  "'w os_ops \<Rightarrow> bool \<Rightarrow> peer_nodes_t \<Rightarrow> peer_packet_t \<Rightarrow> kit_status_t \<times> 'w \<Rightarrow> (kit_status_t \<times> 'w) option" where
  "send_packet os nd nodes packet = (\<lambda>(status, w). do {
     c_assert nd (source_id packet \<ge> 0 \<and> source_id packet < int (length nodes));
     c_assert nd (destination_id packet \<ge> 0 \<and> destination_id packet < int (length nodes));
     if source_id packet < 0 \<or> source_id packet \<ge> int (length nodes) \<or>
        destination_id packet < 0 \<or> destination_id packet \<ge> int (length nodes)
     then Some (status OR PEER_ERROR_INVALID_ID, w)
     else do {
       src \<leftarrow> c_load nodes (source_id packet);
       dst \<leftarrow> c_load nodes (destination_id packet);
       c_assert nd (node_socket src \<noteq> INVALID_SOCKET);
       if node_socket src = INVALID_SOCKET then Some (status OR PEER_ERROR_INVALID_SOCKET, w)
       else do {
         c_assert nd (node_protocol src = node_protocol dst);
         c_assert nd (node_protocol src = PEER_UDP_IPv4);
         if node_protocol src \<noteq> node_protocol dst \<or> node_protocol src \<noteq> PEER_UDP_IPv4
         then Some (status OR PEER_ERROR_UNKNOWN_PROTOCOL, w)
         else do {
           (r, addr) \<leftarrow> node_target os dst;
           if r = - 1 then Some (status OR PEER_ERROR_GET_SOCKET_NAME_FAILED, w)
           else if packet_size packet < 0 \<or> packet_size packet > int (length (packet_data packet)) then None
           else (let (n, w1) = os_sendto os (node_socket src) (take (nat (packet_size packet)) (packet_data packet))
                   addr (remote_port dst) w in
             if n \<noteq> packet_size packet then do {
               c_assert nd (os_errno os w1 \<noteq> EMSGSIZE os);
               c_assert nd (os_errno os w1 \<noteq> ECONNRESET os);
               c_assert nd (os_errno os w1 \<noteq> EWOULDBLOCK os);
               Some (status OR PEER_ERROR_SOCKET_SEND_FAILED, w1)
             } else Some (status, w1))
         }
       }
     }
   })"

fun send_packets ::
  "'w os_ops \<Rightarrow> bool \<Rightarrow> peer_nodes_t \<Rightarrow> peer_packets_t \<Rightarrow> kit_status_t \<times> 'w \<Rightarrow> (kit_status_t \<times> 'w) option" where
  "send_packets os nd nodes [] st = Some st"
| "send_packets os nd nodes (packet # packets) st = do {
     st' \<leftarrow> send_packet os nd nodes packet st;
     send_packets os nd nodes packets st'
   }"

subsection \<open>The tick\<close>

definition peer_pool_tick_body ::
  "'r mt64_ops \<Rightarrow> 'w os_ops \<Rightarrow> bool \<Rightarrow> peer_time_t \<Rightarrow> peer_socket_pool_t \<Rightarrow> 'r peer_t \<Rightarrow> 'w \<Rightarrow>
   (kit_status_t \<times> peer_socket_pool_t \<times> 'r peer_t \<times> 'w) option" where
  "peer_pool_tick_body M os nd time_elapsed pool peer w = do {
     c_assert nd (time_elapsed \<ge> 0);
     if time_elapsed < 0 then Some (PEER_ERROR_INVALID_TIME_ELAPSED, pool, peer, w)
     else do {
       (s1, pool1, peer1) \<leftarrow> resolve_address_and_id os nd pool peer;
       (s2, pool2, packets, w2) \<leftarrow> receive_nodes os nd 0 (s1, pool1, [], w);
       (s3, p3) \<leftarrow> peer_input nd (Some peer1) packets;
       peer3 \<leftarrow> p3;
       (tick, p4) \<leftarrow> peer_tick M nd (Some peer3) time_elapsed;
       peer4 \<leftarrow> p4;
       (s5, w5) \<leftarrow> send_packets os nd (pool_nodes pool2) (tick_packets tick) (s2 OR s3, w2);
       Some (s5 OR tick_status tick, pool2, peer4, w5)
     }
   }"

definition peer_pool_tick ::
  "'r mt64_ops \<Rightarrow> 'w os_ops \<Rightarrow> bool \<Rightarrow> peer_socket_pool_t option \<Rightarrow> 'r peer_t option \<Rightarrow> peer_time_t \<Rightarrow> 'w \<Rightarrow>
   (kit_status_t \<times> peer_socket_pool_t option \<times> 'r peer_t option \<times> 'w) option" where
  "peer_pool_tick M os nd pool peer time_elapsed w =
     with_pool nd pool peer w (\<lambda>q p. peer_pool_tick_body M os nd time_elapsed q p w)"

end
