(* ===== verification/Peer_Sockets.thy ===== *)
theory Peer_Sockets
  imports Peer_Pool
begin

text \<open>
  \<open>source/peer/sockets.h\<close>, both branches: the system's socket library is started and stopped, and a socket is
  switched between blocking and non-blocking calls. POSIX reads the status flags of the descriptor, changes one
  bit and writes them back; Windows passes the mode to \<open>ioctlsocket\<close>. The system calls are parameters. The locale
  \<open>socket_modes\<close> is what the callers of the two branches rely on; each branch implements it wherever its system calls
  behave as documented (the locales \<open>fcntl_flags\<close> and \<open>ioctl_modes\<close>).
\<close>

subsection \<open>The Windows branch\<close>

type_synonym win_socket_t = "64 word"

record 'w winsock_ops =
  ws_startup :: "16 word \<Rightarrow> 'w \<Rightarrow> int \<times> 'w"
  ws_cleanup :: "'w \<Rightarrow> int \<times> 'w"
  ws_fionbio :: "win_socket_t \<Rightarrow> 32 word \<Rightarrow> 'w \<Rightarrow> int \<times> 'w"

abbreviation (input) ERROR_SUCCESS :: int where "ERROR_SUCCESS \<equiv> 0"

definition MAKEWORD :: "8 word \<Rightarrow> 8 word \<Rightarrow> 16 word" where
  "MAKEWORD low high = or (ucast low) (push_bit 8 (ucast high))"

definition win_sockets_init :: "'w winsock_ops \<Rightarrow> 'w \<Rightarrow> int \<times> 'w" where
  "win_sockets_init ws w =
     (let version = MAKEWORD 2 2; (r, w1) = ws_startup ws version w
      in if r \<noteq> ERROR_SUCCESS then (- 1, w1) else (0, w1))"

definition win_sockets_cleanup :: "'w winsock_ops \<Rightarrow> 'w \<Rightarrow> int \<times> 'w" where
  "win_sockets_cleanup ws w = (let (r, w1) = ws_cleanup ws w in (0, w1))"

definition win_socket_set_blocking :: "'w winsock_ops \<Rightarrow> win_socket_t \<Rightarrow> 'w \<Rightarrow> int \<times> 'w" where
  "win_socket_set_blocking ws s w =
     (let flag = 0; (r, w1) = ws_fionbio ws s flag w in if r = - 1 then (- 1, w1) else (0, w1))"

definition win_socket_set_nonblocking :: "'w winsock_ops \<Rightarrow> win_socket_t \<Rightarrow> 'w \<Rightarrow> int \<times> 'w" where
  "win_socket_set_nonblocking ws s w =
     (let flag = 1; (r, w1) = ws_fionbio ws s flag w in if r = - 1 then (- 1, w1) else (0, w1))"

subsection \<open>What the callers rely on\<close>

text \<open>A call that succeeds has set the mode; one that fails (with \<open>-1\<close>) has left it.\<close>

locale socket_modes =
  fixes set_blocking set_nonblocking :: "'w \<Rightarrow> int \<times> 'w" and nonblocking :: "'w \<Rightarrow> bool"
  assumes blocking: "set_blocking w = (r, w') \<Longrightarrow> nonblocking w' = (r = - 1 \<and> nonblocking w)"
    and nonblocking: "set_nonblocking w = (r, w') \<Longrightarrow> nonblocking w' = (r \<noteq> - 1 \<or> nonblocking w)"
begin

text \<open>A sequence of requests (\<open>True\<close> for non-blocking), with the requests that succeeded.\<close>

fun requests :: "bool list \<Rightarrow> 'w \<Rightarrow> bool list \<times> 'w" where
  "requests [] w = ([], w)"
| "requests (b # bs) w =
     (let (r, w1) = (if b then set_nonblocking w else set_blocking w); (oks, w2) = requests bs w1
      in (if r = - 1 then oks else b # oks, w2))"

lemma last_request:
  assumes "requests bs w = (oks, w')"
  shows "nonblocking w' = (if oks = [] then nonblocking w else last oks)"
  using assms
proof (induction bs arbitrary: w w' oks)
  case (Cons b bs)
  obtain r w1 where r: "(if b then set_nonblocking w else set_blocking w) = (r, w1)" by fastforce
  obtain oks1 w2 where rest: "requests bs w1 = (oks1, w2)" by fastforce
  have one: "nonblocking w1 = (if r = - 1 then nonblocking w else b)"
    using r blocking nonblocking by (cases b) auto
  show ?case using Cons.IH [OF rest] Cons.prems r rest one by (auto split: if_splits)
qed simp

end

subsection \<open>The two branches\<close>

text \<open>\<open>fcntl\<close> as documented: \<open>F_GETFL\<close> returns the status flags, \<open>F_SETFL\<close> sets them or fails with \<open>-1\<close>.\<close>

locale fcntl_flags =
  fixes os :: "'w os_ops" and s :: socket_t and flags :: "'w \<Rightarrow> int"
  assumes getfl: "os_getfl os s w = (flags w, w)"
    and setfl: "os_setfl os s f w = (r, w') \<Longrightarrow> flags w' = (if r = - 1 then flags w else f)"
    and flag: "O_NONBLOCK os \<noteq> 0"
begin

lemma flags_after:
  "peer_socket_set_blocking os s w = (r, w') \<Longrightarrow> flags w' = (if r = - 1 then flags w else and (flags w) (not (O_NONBLOCK os)))"
  "peer_socket_set_nonblocking os s w = (r, w') \<Longrightarrow> flags w' = (if r = - 1 then flags w else or (flags w) (O_NONBLOCK os))"
  using setfl [of "and (flags w) (not (O_NONBLOCK os))" w r w'] setfl [of "or (flags w) (O_NONBLOCK os)" w r w']
  by (auto simp: peer_socket_set_blocking_def peer_socket_set_nonblocking_def getfl)

lemma flag_bits: "and (and f (not (O_NONBLOCK os))) (O_NONBLOCK os) = 0" "and (or f (O_NONBLOCK os)) (O_NONBLOCK os) = O_NONBLOCK os"
  by (auto intro!: bit_eqI simp: bit_simps)

end

sublocale fcntl_flags \<subseteq> posix: socket_modes "peer_socket_set_blocking os s" "peer_socket_set_nonblocking os s"
    "\<lambda>w. and (flags w) (O_NONBLOCK os) \<noteq> 0"
proof
  fix w r w'
  show "peer_socket_set_blocking os s w = (r, w') \<Longrightarrow>
      (and (flags w') (O_NONBLOCK os) \<noteq> 0) = (r = - 1 \<and> and (flags w) (O_NONBLOCK os) \<noteq> 0)"
    by (simp add: flags_after flag_bits)
  show "peer_socket_set_nonblocking os s w = (r, w') \<Longrightarrow>
      (and (flags w') (O_NONBLOCK os) \<noteq> 0) = (r \<noteq> - 1 \<or> and (flags w) (O_NONBLOCK os) \<noteq> 0)"
    by (simp add: flags_after flag_bits flag)
qed

text \<open>\<open>ioctlsocket\<close> with \<open>FIONBIO\<close> as documented: a non-zero argument makes the socket non-blocking, zero blocking.\<close>

locale ioctl_modes =
  fixes ws :: "'w winsock_ops" and s :: win_socket_t and mode :: "'w \<Rightarrow> bool"
  assumes fionbio: "ws_fionbio ws s flag w = (r, w') \<Longrightarrow> mode w' = (if r = - 1 then mode w else flag \<noteq> 0)"

sublocale ioctl_modes \<subseteq> windows: socket_modes "win_socket_set_blocking ws s" "win_socket_set_nonblocking ws s" mode
proof
  fix w r w'
  show "win_socket_set_blocking ws s w = (r, w') \<Longrightarrow> mode w' = (r = - 1 \<and> mode w)"
    using fionbio [of 0 w] by (auto simp: win_socket_set_blocking_def split: prod.splits if_splits)
  show "win_socket_set_nonblocking ws s w = (r, w') \<Longrightarrow> mode w' = (r \<noteq> - 1 \<or> mode w)"
    using fionbio [of 1 w] by (auto simp: win_socket_set_nonblocking_def split: prod.splits if_splits)
qed

subsection \<open>A table of descriptors\<close>

text \<open>A system that keeps the flags of each descriptor, \<open>-1\<close> for one that is not open, and a library that keeps the mode
  of each socket.\<close>

definition flag_os :: "(socket_t \<Rightarrow> int) os_ops" where
  "flag_os = \<lparr>os_socket = (\<lambda>w. (3, w(3 := 2))), os_getfl = (\<lambda>s w. (w s, w)),
     os_setfl = (\<lambda>s f w. if w s = - 1 then (- 1, w) else (0, w(s := f))), os_bind = (\<lambda>s port w. (0, w)),
     os_getsockname = (\<lambda>s w. (None, w)), os_close = (\<lambda>s w. w(s := - 1)), os_recvfrom = (\<lambda>s w. (Recv_failed, w)),
     os_sendto = (\<lambda>s bs a p w. (- 1, w)), os_errno = (\<lambda>w. 11), os_ignore_sigpipe = (\<lambda>w. w), inet_ntop = (\<lambda>a. []),
     inet_pton = (\<lambda>bs. (0, 0)), da_moves = (\<lambda>n. False), O_NONBLOCK = 2048, EAGAIN = 11, EWOULDBLOCK = 11,
     EMSGSIZE = 90, ECONNRESET = 104\<rparr>"

definition mode_ws :: "(win_socket_t \<Rightarrow> bool option) winsock_ops" where
  "mode_ws = \<lparr>ws_startup = (\<lambda>version w. (if version = 0x202 then 0 else 10092, w)), ws_cleanup = (\<lambda>w. (0, w)),
     ws_fionbio = (\<lambda>s flag w. if w s = None then (- 1, w) else (0, w(s := Some (flag \<noteq> 0))))\<rparr>"

interpretation flag_table: fcntl_flags flag_os s "\<lambda>w. w s"
  by unfold_locales (auto simp: flag_os_def split: if_splits)

interpretation mode_table: ioctl_modes mode_ws s "\<lambda>w. w s = Some True"
  by unfold_locales (auto simp: mode_ws_def split: if_splits)

text \<open>Version 2.2 of the library is asked for, and the start is reported as it went.\<close>

lemma win_sockets_init_version:
  "win_sockets_init ws w = (if fst (ws_startup ws 0x202 w) = 0 then 0 else - 1, snd (ws_startup ws 0x202 w))"
proof -
  have "MAKEWORD 2 2 = 0x202" by (simp add: MAKEWORD_def push_bit_eq_mult)
  then show ?thesis by (simp add: win_sockets_init_def Let_def split: prod.splits)
qed

subsection \<open>Properties\<close>

text \<open>On POSIX systems, where \<open>fcntl\<close> reads and writes the status flags of the descriptor, making a blocking
  socket non-blocking and then blocking again leaves all of its flags as they were; in between it is non-blocking.\<close>

theorem socket_mode_round_trip:
  assumes "\<forall>w. os_getfl os s w = (flags w, w)"
    and "\<forall>f w. flags (snd (os_setfl os s f w)) = (if fst (os_setfl os s f w) = - 1 then flags w else f)"
    and "O_NONBLOCK os \<noteq> 0" and "and (flags w) (O_NONBLOCK os) = 0"
    and "peer_socket_set_nonblocking os s w = (r, w1)" and "r \<noteq> - 1"
    and "peer_socket_set_blocking os s w1 = (r', w2)" and "r' \<noteq> - 1"
  shows "and (flags w1) (O_NONBLOCK os) \<noteq> 0 \<and> flags w2 = flags w"
proof -
  have laws: "fcntl_flags os s flags"
  proof
    show "os_getfl os s w = (flags w, w)" for w using assms(1) by simp
    show "flags w' = (if r = - 1 then flags w else f)" if "os_setfl os s f w = (r, w')" for f w r w'
      using assms(2) [rule_format, of f w] that by simp
  qed (rule assms(3))
  have w1: "flags w1 = or (flags w) (O_NONBLOCK os)"
    using fcntl_flags.flags_after(2) [OF laws assms(5)] assms(6) by simp
  have w2: "flags w2 = and (flags w1) (not (O_NONBLOCK os))"
    using fcntl_flags.flags_after(1) [OF laws assms(7)] assms(8) by simp
  have "\<not> (bit (flags w) n \<and> bit (O_NONBLOCK os) n)" for n
    using arg_cong [OF assms(4), of "\<lambda>x. bit x n"] by (simp add: bit_simps)
  then have "and (or (flags w) (O_NONBLOCK os)) (not (O_NONBLOCK os)) = flags w"
    by (intro bit_eqI) (auto simp: bit_simps)
  then show ?thesis using w1 w2 fcntl_flags.flag_bits(2) [OF laws] assms(3) by simp
qed

theorem socket_mode_round_trip_witness:
  "\<exists>w w'. peer_socket_set_nonblocking flag_os 3 (\<lambda>_. 2) = (0, w) \<and> peer_socket_set_blocking flag_os 3 w = (0, w') \<and>
    and (w 3) (O_NONBLOCK flag_os) \<noteq> 0 \<and> w' 3 = 2"
proof -
  let ?start = "\<lambda>_ :: socket_t. 2 :: int"
  let ?on = "?start(3 := 2050)" and ?off = "?start(3 := 2050, 3 := 2)"
  have on: "peer_socket_set_nonblocking flag_os 3 ?start = (0, ?on)"
    by (simp add: peer_socket_set_nonblocking_def flag_os_def)
  have off: "peer_socket_set_blocking flag_os 3 ?on = (0, ?off)"
    by (simp add: peer_socket_set_blocking_def flag_os_def)
  have "and ((\<lambda>w. w 3) ?on) (O_NONBLOCK flag_os) \<noteq> 0 \<and> (\<lambda>w. w 3) ?off = (\<lambda>w. w 3) ?start"
    by (rule socket_mode_round_trip [of flag_os 3 "\<lambda>w. w 3" ?start 0 ?on 0 ?off, OF _ _ _ _ on _ off]) (simp_all add: flag_os_def)
  then show ?thesis using on off by (intro exI [of _ ?on] exI [of _ ?off]) simp
qed

end
