(* ===== verification/Peer_Sending.thy ===== *)
theory Peer_Sending
  imports Peer_Tick
begin

text \<open>
  The theorems about \<open>peer_tick\<close>: it keeps a peer well-formed; a host's mutual queue only grows and
  its new messages carry the time of the tick; the packets of a host carry messages of its queue only,
  and a client in session is sent all it has not been sent yet; a client sends its own messages; and
  the cases in which a tick is refused or fails.
\<close>

subsection \<open>A tick keeps a peer well-formed\<close>

lemma mode_slot_wf_clock [simp]:
  "mode_slot_wf mode q (slot\<lparr>clock_heartbeat := c\<rparr>) = mode_slot_wf mode q slot"
  by (simp add: mode_slot_wf_def wf_defs)

lemma mode_slot_wf_ready:
  "mode_slot_wf mode q slot \<Longrightarrow> mode_slot_wf mode q (slot\<lparr>slot_state := PEER_SLOT_READY\<rparr>)"
  by (simp add: mode_slot_wf_def wf_defs split: if_splits)

lemma mode_slot_wf_out_host:
  "mode_slot_wf PEER_HOST q slot \<Longrightarrow> mode_slot_wf PEER_HOST q (slot\<lparr>out_index := int (length q)\<rparr>)"
  by (simp add: mode_slot_wf_def wf_defs)

lemma mode_slot_wf_out_client:
  "mode_slot_wf PEER_CLIENT q slot \<Longrightarrow>
    mode_slot_wf PEER_CLIENT q (slot\<lparr>out_index := int (length (slot_queue slot))\<rparr>)"
  by (simp add: mode_slot_wf_def wf_defs)

lemma collect_messages_new:
  assumes "collect_messages nd time actor ms index (st, q, al) = Some (index', st', q', al')"
  shows "index \<le> index' \<and> index' \<le> index + int (length ms) \<and>
    (\<exists>new. q' = q @ new \<and> (\<forall>m \<in> set new. \<exists>d \<in> message_data ` set ms. m = ready_message (time, actor, d)))"
  using assms
proof (induction ms arbitrary: index st q al)
  case (Cons m ms)
  show ?case
  proof (cases "is_ready m")
    case True
    obtain s q1 al1 where app: "queue_append q time actor (chunk_ref (message_data m)) al = Some (s, q1, al1)"
      and rest: "collect_messages nd time actor ms (index + 1) (st OR s, q1, al1) = Some (index', st', q', al')"
      using Cons.prems True by (auto dest!: bind_eq_SomeD)
    show ?thesis
      using Cons.IH [OF rest] queue_append_Some [OF app] by fastforce
  qed (use Cons.prems in auto)
qed auto

lemma host_slot_in_index:
  assumes "mode_slot_wf PEER_HOST q slot" and "in_index slot \<le> i" and "i \<le> int (length (slot_queue slot))"
  shows "mode_slot_wf PEER_HOST q (slot\<lparr>in_index := i\<rparr>)"
  using assms by (simp add: mode_slot_wf_def wf_defs)

lemma collect_slot_wf:
  assumes "collect_slot nd time slot (st, q, al) = Some (slot', st', q', al')"
    and "mode_slot_wf PEER_HOST q0 slot" and "is_int64 time"
  shows "mode_slot_wf PEER_HOST q0 slot' \<and> (\<exists>new. q' = q @ new \<and> queue_wf PEER_HOST new)"
proof -
  let ?ms = "drop (nat (in_index slot)) (slot_queue slot)"
  obtain i where col: "collect_messages nd time (slot_actor slot) ?ms (in_index slot) (st, q, al) =
      Some (i, st', q', al')" and slot': "slot' = slot\<lparr>in_index := i\<rparr>" and "0 \<le> in_index slot"
    using assms(1) by (auto simp: collect_slot_def split: if_splits dest!: bind_eq_SomeD)
  have len: "in_index slot \<le> int (length (slot_queue slot))"
    using assms(2) by (simp add: mode_slot_wf_def slot_wf_def)
  obtain new where i: "in_index slot \<le> i" "i \<le> in_index slot + int (length ?ms)" and new: "q' = q @ new"
    "\<forall>m \<in> set new. \<exists>d \<in> message_data ` set ?ms. m = ready_message (time, slot_actor slot, d)"
    using collect_messages_new [OF col] by blast
  have "i \<le> int (length (slot_queue slot))" using i len \<open>0 \<le> in_index slot\<close> by simp
  then have "mode_slot_wf PEER_HOST q0 slot'"
    unfolding slot' using host_slot_in_index assms(2) i(1) by blast
  moreover have "length d \<le> 355" if "d \<in> message_data ` set ?ms" for d
    using that assms(2) by (auto simp: mode_slot_wf_def wf_defs list_all_iff dest!: in_set_dropD)
  then have "queue_wf PEER_HOST new"
    using new(2) assms(2,3) by (fastforce simp: queue_wf_def list_all_iff mode_slot_wf_def host_slot_wf_def entry_ok_def)
  ultimately show ?thesis using new(1) by blast
qed

lemma queue_wf_append [simp]: "queue_wf mode (q @ q') \<longleftrightarrow> queue_wf mode q \<and> queue_wf mode q'"
  by (auto simp: queue_wf_def)

lemma collect_slots_wf:
  assumes "collect_slots nd time slots (st, q, al) = Some (slots', st', q', al')"
    and "list_all (mode_slot_wf PEER_HOST q0) slots" and "is_int64 time"
  shows "list_all (mode_slot_wf PEER_HOST q0) slots' \<and> length slots' = length slots \<and>
    (\<exists>new. q' = q @ new \<and> queue_wf PEER_HOST new)"
  using assms
proof (induction slots arbitrary: st q al slots')
  case (Cons slot slots)
  obtain s1 st1 q1 al1 ss where one: "collect_slot nd time slot (st, q, al) = Some (s1, st1, q1, al1)"
    and rest: "collect_slots nd time slots (st1, q1, al1) = Some (ss, st', q', al')" and "slots' = s1 # ss"
    using Cons.prems(1) by (auto dest!: bind_eq_SomeD)
  moreover obtain new1 where "q1 = q @ new1" "queue_wf PEER_HOST new1" "mode_slot_wf PEER_HOST q0 s1"
    using collect_slot_wf [OF one _ assms(3), of q0] Cons.prems(2) by auto
  ultimately show ?case using Cons.IH [OF rest] Cons.prems(2,3) by auto
qed (auto simp: queue_wf_def)

lemma stamp_wf:
  assumes "queue_wf PEER_HOST q" and "is_int64 time" and "stamp_messages time index q = Some q'"
  shows "queue_wf PEER_HOST q' \<and> length q' = length q"
proof -
  have "list_all P (take n q) \<and> list_all P (drop n q)" if "list_all P q" for P n
    using that by (metis append_take_drop_id list_all_append)
  then have "queue_wf PEER_HOST (take n q)" "queue_wf PEER_HOST (drop n q)" for n
    using assms(1) by (auto simp: queue_wf_def)
  moreover have "queue_wf PEER_HOST (map (\<lambda>m. m\<lparr>message_time := time\<rparr>) ms)" if "queue_wf PEER_HOST ms" for ms
    using that assms(2) by (auto simp: queue_wf_def list_all_iff wf_defs)
  ultimately show ?thesis using assms(3) by (auto simp: stamp_messages_def split: if_splits)
qed

lemma host_collect_wf:
  assumes "peer_wf host" and "peer_mode host = PEER_HOST" and "host_collect nd host = Some (st, host')"
  shows "peer_wf host' \<and> peer_mode host' = PEER_HOST"
proof -
  let ?t = "peer_time_local host"
  obtain q0 slots q1 al where q0: "stamp_messages ?t (queue_index host) (mutual_queue host) = Some q0"
    and col: "collect_slots nd ?t (drop 1 (peer_slots host)) (KIT_OK, q0, peer_alloc host) = Some (slots, st, q1, al)"
    and host': "host' = host\<lparr>peer_time := ?t, mutual_queue := q1, peer_alloc := al,
      peer_slots := take 1 (peer_slots host) @ slots, queue_index := int (length q1)\<rparr>"
    using assms(3) by (auto simp: host_collect_def Let_def dest!: bind_eq_SomeD)
  have t: "is_int64 ?t" using assms(1) by (simp add: peer_wf_def is_int64_def)
  have all: "list_all (mode_slot_wf PEER_HOST (mutual_queue host)) (take 1 (peer_slots host))"
    "list_all (mode_slot_wf PEER_HOST (mutual_queue host)) (drop 1 (peer_slots host))"
    using assms(1,2) by (auto simp: peer_wf_def list_all_iff dest: in_set_takeD in_set_dropD)
  have q: "queue_wf PEER_HOST q0" "length q0 = length (mutual_queue host)"
    using stamp_wf [OF _ t q0] assms(1,2) by (auto simp: peer_wf_def)
  obtain new where new: "q1 = q0 @ new" "queue_wf PEER_HOST new" "length slots = length (drop 1 (peer_slots host))"
    and slots: "list_all (mode_slot_wf PEER_HOST (mutual_queue host)) slots"
    using collect_slots_wf [OF col all(2) t] by auto
  have "list_all (mode_slot_wf PEER_HOST q1) (take 1 (peer_slots host) @ slots)"
    using mode_slots_wf_mono [of PEER_HOST "mutual_queue host" "take 1 (peer_slots host) @ slots" q1]
      all(1) slots new(1) q(2) by simp
  moreover have "length (take 1 (peer_slots host) @ slots) = length (peer_slots host)"
    using new(3) by (cases "peer_slots host") auto
  ultimately show ?thesis
    using assms(1,2) t q(1) new by (simp add: host' peer_wf_def)
qed

text \<open>What sending changes of a slot.\<close>

definition slot_sent :: "peer_queue_t \<Rightarrow> peer_slot_t \<Rightarrow> peer_slot_t \<Rightarrow> bool" where
  "slot_sent q slot slot' \<longleftrightarrow> (\<exists>c. slot' = slot\<lparr>clock_heartbeat := c\<rparr> \<or>
     slot' = slot\<lparr>slot_state := PEER_SLOT_READY, clock_heartbeat := c\<rparr> \<or>
     slot' = slot\<lparr>out_index := int (length q), clock_heartbeat := c\<rparr>)"

lemma slot_sent_same [simp]: "slot_sent q slot slot"
proof -
  have "slot = slot\<lparr>clock_heartbeat := clock_heartbeat slot\<rparr>" by simp
  then show ?thesis unfolding slot_sent_def by blast
qed

lemma send_heartbeat_sent:
  assumes "send_heartbeat M nd q t a slot st = Some (slot', st')"
  shows "slot' = slot \<or> slot' = slot\<lparr>clock_heartbeat := PEER_TIMEOUT_HEARTBEAT\<rparr>"
  using assms by (auto simp: send_heartbeat_def Let_def split: prod.splits if_splits dest!: bind_eq_SomeD)

lemma host_send_new_sent:
  assumes "host_send_new M nd q slot (status, rng, packets, al) = Some (slot', st')"
  shows "slot_sent q slot slot'"
proof -
  obtain s where slot': "slot' = slot\<lparr>out_index := (if s = KIT_OK then int (length q) else out_index slot),
      clock_heartbeat := PEER_TIMEOUT_HEARTBEAT\<rparr>"
    using assms by (auto simp: host_send_new_def dest!: bind_eq_SomeD)
  have "slot' = slot\<lparr>out_index := int (length q), clock_heartbeat := PEER_TIMEOUT_HEARTBEAT\<rparr> \<or>
      slot' = slot\<lparr>clock_heartbeat := PEER_TIMEOUT_HEARTBEAT\<rparr>"
    unfolding slot' by (cases "s = KIT_OK") simp_all
  then show ?thesis unfolding slot_sent_def by blast
qed

lemma send_session_response_sent:
  assumes "send_session_response nd t host_id slot (status, rng, packets, al) = Some (slot', st')"
  shows "slot_sent q slot slot'"
proof -
  have "slot' = slot\<lparr>slot_state := PEER_SLOT_READY, clock_heartbeat := PEER_TIMEOUT_HEARTBEAT\<rparr>"
    using assms by (auto simp: send_session_response_def dest!: bind_eq_SomeD)
  then show ?thesis unfolding slot_sent_def by blast
qed

lemma host_send_slot_sent:
  assumes "host_send_slot M nd host host_id slot st = Some (slot', st')"
  shows "slot_sent (mutual_queue host) slot slot'"
proof -
  obtain status rng packets al where st: "st = (status, rng, packets, al)" by (cases st)
  have beat: "slot_sent (mutual_queue host) slot slot'"
    if "send_heartbeat M nd q t a slot st = Some (slot', st')" for q t a
    using send_heartbeat_sent [OF that] slot_sent_same unfolding slot_sent_def by blast
  then show ?thesis
    using assms unfolding st
    by (auto simp: host_send_slot_def split: peer_slot_state_t.splits if_splits dest!: bind_eq_SomeD
        intro: host_send_new_sent send_session_response_sent)
qed

lemma slot_sent_wf:
  assumes "slot_sent q slot slot'" and "mode_slot_wf PEER_HOST q slot"
  shows "mode_slot_wf PEER_HOST q slot'"
  using assms mode_slot_wf_ready [OF assms(2)] mode_slot_wf_out_host [OF assms(2)]
  by (auto simp: slot_sent_def)

lemma host_send_slots_wf:
  assumes "host_send_slots M nd host host_id slots st = Some (slots', st')"
    and "list_all (mode_slot_wf PEER_HOST (mutual_queue host)) slots"
  shows "list_all (mode_slot_wf PEER_HOST (mutual_queue host)) slots' \<and> length slots' = length slots"
  using assms
proof (induction slots arbitrary: st slots')
  case (Cons slot slots)
  obtain s1 st1 ss where one: "host_send_slot M nd host host_id slot st = Some (s1, st1)"
    and rest: "host_send_slots M nd host host_id slots st1 = Some (ss, st')" and "slots' = s1 # ss"
    using Cons.prems(1) by (auto dest!: bind_eq_SomeD)
  then show ?case
    using slot_sent_wf [OF host_send_slot_sent [OF one]] Cons.IH [OF rest] Cons.prems(2) by auto
qed auto

lemma host_send_wf:
  assumes "peer_wf host" and "peer_mode host = PEER_HOST" and "host_send M nd (st, host) = Some (r, host')"
  shows "peer_wf host'"
proof (cases "peer_slots host")
  case Nil
  then show ?thesis using assms by (simp add: host_send_def)
next
  case (Cons slot0 slots)
  obtain slots' st' rng al where send: "host_send_slots M nd host (endpoint_id (slot_local slot0)) slots
      (st, peer_mt64 host, [], peer_alloc host) = Some (slots', st', rng, tick_packets r, al)"
    and host': "host' = host\<lparr>peer_slots := slot0 # slots', peer_mt64 := rng, peer_alloc := al\<rparr>"
    using assms(3) Cons by (auto simp: host_send_def dest!: bind_eq_SomeD)
  show ?thesis
    using host_send_slots_wf [OF send] assms(1,2) by (auto simp: host' peer_wf_def Cons)
qed

lemma client_send_slot_wf:
  assumes "client_send_slot M nd peer slot = Some (slot', st)" and "mode_slot_wf PEER_CLIENT q slot"
  shows "mode_slot_wf PEER_CLIENT q slot'"
proof -
  have "slot' = slot \<or> slot' = slot\<lparr>clock_heartbeat := PEER_TIMEOUT_HEARTBEAT\<rparr> \<or>
      slot' = slot\<lparr>out_index := int (length (slot_queue slot))\<rparr>"
    using assms(1)
    by (auto simp: client_send_slot_def split: if_splits dest!: bind_eq_SomeD dest: send_heartbeat_sent)
  then show ?thesis using assms(2) mode_slot_wf_out_client by auto
qed

lemma client_send_wf:
  assumes "peer_wf peer" and "peer_mode peer = PEER_CLIENT" and "client_send M nd peer = Some (r, peer')"
  shows "peer_wf peer'"
proof (cases "peer_slots peer")
  case Nil
  then show ?thesis using assms by (simp add: client_send_def)
next
  case (Cons slot slots)
  obtain slot' status rng packets al where
    send: "client_send_slot M nd peer slot = Some (slot', status, rng, packets, al)"
    and peer': "peer' = peer\<lparr>peer_slots := slot' # slots, peer_mt64 := rng, peer_alloc := al\<rparr>"
    using assms(3) Cons by (auto simp: client_send_def dest!: bind_eq_SomeD)
  have "mode_slot_wf PEER_CLIENT (mutual_queue peer) slot" using assms(1,2) Cons by (simp add: peer_wf_def)
  then show ?thesis
    using client_send_slot_wf [OF send] assms(1,2) by (simp add: peer' peer_wf_def Cons)
qed

lemma tick_clock_wf:
  assumes "peer_wf peer" and "0 \<le> dt" and "peer_time_local peer \<le> INT64_MAX - dt"
  shows "peer_wf (tick_clock dt peer) \<and> peer_mode (tick_clock dt peer) = peer_mode peer"
  using assms by (auto simp: peer_wf_def tick_clock_def list_all_iff)

lemma peer_tick_body_wf:
  assumes "peer_wf peer" and "peer_tick_body M nd dt peer = Some (r, peer')"
  shows "peer_wf peer'"
proof (cases "dt < 0 \<or> peer_time_local peer > INT64_MAX - dt")
  case True
  then have "peer' = peer" using assms(2) by (auto simp: peer_tick_body_def c_assert_def split: if_splits)
  then show ?thesis using assms(1) by simp
next
  case False
  let ?p = "tick_clock dt peer"
  have p: "peer_wf ?p" "peer_mode ?p = peer_mode peer" using tick_clock_wf [OF assms(1)] False by auto
  show ?thesis
  proof (cases "peer_mode peer")
    case PEER_HOST
    then obtain st q where "host_collect nd ?p = Some (st, q)" and send: "host_send M nd (st, q) = Some (r, peer')"
      using assms(2) False p(2) by (auto simp: peer_tick_body_def Let_def dest!: bind_eq_SomeD)
    then have "peer_wf q" "peer_mode q = PEER_HOST"
      using host_collect_wf [OF p(1)] PEER_HOST p(2) by auto
    then show ?thesis using host_send_wf send by blast
  next
    case PEER_CLIENT
    then show ?thesis
      using assms(2) False p client_send_wf [OF p(1)] by (auto simp: peer_tick_body_def Let_def)
  next
    case PEER_MODE_INVALID
    then show ?thesis using assms(1) by (simp add: peer_wf_def)
  qed
qed

subsection \<open>What a host sends\<close>

text \<open>A message that says nothing about the log, or what the log says.\<close>

fun from_log :: "(nat \<rightharpoonup> entry) \<Rightarrow> wire_message \<Rightarrow> bool" where
  "from_log log (M_application i e) \<longleftrightarrow> log i = Some e"
| "from_log log m \<longleftrightarrow> True"

text \<open>The address a slot's packets come from.\<close>

definition slot_source :: "ptrdiff_t \<Rightarrow> peer_slot_t \<Rightarrow> ptrdiff_t" where
  "slot_source host_id slot =
     (if slot_state slot = PEER_SLOT_SESSION_REQUEST then host_id else endpoint_id (slot_local slot))"

text \<open>The result of sending to a slot: packets from the host to the slot's client that carry messages of the
  queue only, and for a client in session every message it has not been sent.\<close>

definition sends :: "peer_queue_t \<Rightarrow> ptrdiff_t \<Rightarrow> peer_slot_t \<Rightarrow> peer_slot_t \<Rightarrow> peer_packets_t \<Rightarrow> bool" where
  "sends q host_id slot slot' new \<longleftrightarrow> slot_sent q slot slot' \<and>
     (\<exists>ms. carries (slot_source host_id slot) (endpoint_id (slot_remote slot)) ms new \<and>
        (\<forall>m \<in> set ms. from_log (queue_get q) m) \<and>
        (slot_state slot = PEER_SLOT_SESSION_REQUEST \<longrightarrow> slot_state slot' = PEER_SLOT_READY \<and>
           (\<exists>t. ms = [M_session_response t (slot_actor slot) (slot_address slot)])) \<and>
        (slot_state slot = PEER_SLOT_READY \<longrightarrow> out_index slot' = int (length q) \<and>
           (\<forall>i. out_index slot \<le> int i \<and> i < length q \<longrightarrow> queue_message q i \<in> set ms)))"

lemma queue_message_from_log:
  "i < length q \<Longrightarrow> list_all is_ready q \<Longrightarrow> from_log (queue_get q) (queue_message q i)"
  by (simp add: queue_message_def queue_get_def list_all_length)

lemma carries_Nil [simp]: "carries src dst [] []"
  by (auto simp: carries_def)

lemma pack_messages_from_log:
  assumes "list_all is_ready q" and "trail_indices M n rng = (ks, rng')" and "n \<le> length q"
  shows "\<forall>k \<in> set ks. from_log (queue_get q) (queue_message q k)"
    and "\<forall>m \<in> set (pack_messages q n ks). from_log (queue_get q) m"
proof -
  have "k < length q" if "k \<in> set ks" for k using trail_indices_bound [OF assms(2) that] assms(3) by simp
  then show "\<forall>k \<in> set ks. from_log (queue_get q) (queue_message q k)"
    and "\<forall>m \<in> set (pack_messages q n ks). from_log (queue_get q) m"
    using assms(1) by (auto simp: pack_messages_def intro!: queue_message_from_log)
qed

text \<open>The host as the slots see it while it sends.\<close>

definition host_sending :: "'r peer_t \<Rightarrow> bool" where
  "host_sending host \<longleftrightarrow> queue_wf PEER_HOST (mutual_queue host) \<and>
     int (length (mutual_queue host)) \<le> INT64_MAX \<and> is_int64 (peer_time host) \<and> peer_actor host = 0"

lemma host_sending_queue:
  assumes "host_sending host"
  shows "list_all message_wf (mutual_queue host)" and "list_all is_ready (mutual_queue host)"
    and "int (length (mutual_queue host)) \<le> INT64_MAX"
  using assms by (auto simp: host_sending_def queue_wf_def list_all_iff)

text \<open>A client in session: new messages, a heartbeat, or nothing.\<close>

lemma host_send_slot_new:
  assumes "host_sending host" and "alloc_ok al" and "slot_state slot = PEER_SLOT_READY"
    and "out_index slot = int n" and "n < length (mutual_queue host)"
  shows "\<exists>slot' rng' new al'. alloc_ok al' \<and> sends (mutual_queue host) host_id slot slot' new \<and>
    host_send_slot M True host host_id slot (status, rng, packets, al) =
      Some (slot', status, rng', packets @ new, al')"
proof -
  let ?q = "mutual_queue host" and ?src = "endpoint_id (slot_local slot)" and ?dst = "endpoint_id (slot_remote slot)"
  note q = host_sending_queue [OF assms(1)]
  obtain ks rng' where ks: "trail_indices M n rng = (ks, rng')" by fastforce
  note flog = pack_messages_from_log(2) [OF q(2) ks less_imp_le [OF assms(5)]]
  obtain packs al' where packs: "alloc_ok al'" "carries ?src ?dst (pack_messages ?q n ks) packs"
    "queue_pack M True rng ?q (int n) ?src ?dst packets al = Some (KIT_OK, rng', packets @ packs, al')"
    using queue_pack_ok [OF assms(5) q(1) assms(2) q(3) ks, of True ?src ?dst packets] by (auto simp: pack_assertable_def)
  let ?slot = "slot\<lparr>out_index := int (length ?q), clock_heartbeat := PEER_TIMEOUT_HEARTBEAT\<rparr>"
  have run: "host_send_slot M True host host_id slot (status, rng, packets, al) =
      Some (?slot, status, rng', packets @ packs, al')"
    using packs(3) assms(3-5) by (simp add: host_send_slot_def host_send_new_def)
  have "\<forall>i. int n \<le> int i \<and> i < length ?q \<longrightarrow> queue_message ?q i \<in> set (pack_messages ?q n ks)"
    by (auto simp: pack_messages_def)
  then have "sends ?q host_id slot ?slot packs"
    unfolding sends_def using host_send_slot_sent [OF run] packs(2) flog assms(3,4)
    by (intro conjI exI [of _ "pack_messages ?q n ks"]) (auto simp: slot_source_def)
  then show ?thesis using run packs(1) by blast
qed

lemma host_send_slot_beat:
  assumes "host_sending host" and "alloc_ok al" and "slot_state slot = PEER_SLOT_READY"
    and "out_index slot = int (length (mutual_queue host))" and "clock_heartbeat slot \<le> 0"
  shows "\<exists>slot' rng' new al'. alloc_ok al' \<and> sends (mutual_queue host) host_id slot slot' new \<and>
    host_send_slot M True host host_id slot (status, rng, packets, al) =
      Some (slot', status, rng', packets @ new, al')"
proof -
  let ?q = "mutual_queue host" and ?src = "endpoint_id (slot_local slot)" and ?dst = "endpoint_id (slot_remote slot)"
  let ?n = "length (mutual_queue host)" and ?t = "peer_time host" and ?a = "peer_actor host"
  note q = host_sending_queue [OF assms(1)]
  obtain ks rng' where ks: "trail_indices M ?n rng = (ks, rng')" by fastforce
  note flog = pack_messages_from_log(1) [OF q(2) ks order_refl]
  have "wire_ok (M_heartbeat ?t ?a)" using assms(1) by (simp add: host_sending_def)
  then obtain packs al' where packs: "alloc_ok al'" "carries ?src ?dst (heartbeat_messages ?q ?t ?a ks) packs"
    "send_heartbeat M True ?q ?t ?a slot (status, rng, packets, al) =
      Some (slot\<lparr>clock_heartbeat := PEER_TIMEOUT_HEARTBEAT\<rparr>, status, rng', packets @ packs, al')"
    using send_heartbeat_ok [OF assms(4) order_refl q(1) assms(2) q(3) _ ks, of ?t ?a True status packets]
    by (auto simp: pack_assertable_def)
  then have run: "host_send_slot M True host host_id slot (status, rng, packets, al) =
      Some (slot\<lparr>clock_heartbeat := PEER_TIMEOUT_HEARTBEAT\<rparr>, status, rng', packets @ packs, al')"
    using assms(3-5) by (simp add: host_send_slot_def)
  have "sends ?q host_id slot (slot\<lparr>clock_heartbeat := PEER_TIMEOUT_HEARTBEAT\<rparr>) packs"
    unfolding sends_def using host_send_slot_sent [OF run] packs(2) flog assms(3,4)
    by (intro conjI exI [of _ "heartbeat_messages ?q ?t ?a ks"]) (auto simp: slot_source_def heartbeat_messages_def)
  then show ?thesis using run packs(1) by blast
qed

lemma host_send_slot_ready:
  assumes "host_sending host" and "mode_slot_wf PEER_HOST (mutual_queue host) slot" and "alloc_ok al"
    and "slot_state slot = PEER_SLOT_READY"
  shows "\<exists>slot' rng' new al'. alloc_ok al' \<and> sends (mutual_queue host) host_id slot slot' new \<and>
    host_send_slot M True host host_id slot (status, rng, packets, al) =
      Some (slot', status, rng', packets @ new, al')"
proof -
  let ?q = "mutual_queue host"
  have "0 \<le> out_index slot" "out_index slot \<le> int (length ?q)"
    using assms(2) by (simp_all add: mode_slot_wf_def slot_wf_def host_slot_wf_def)
  then obtain n where n: "out_index slot = int n" "n \<le> length ?q" by (metis nonneg_int_cases of_nat_le_iff)
  consider (new) "n < length ?q" | (beat) "n = length ?q" "clock_heartbeat slot \<le> 0"
    | (idle) "n = length ?q" "\<not> clock_heartbeat slot \<le> 0" using n(2) by linarith
  then show ?thesis
  proof cases
    case new
    then show ?thesis by (rule host_send_slot_new [OF assms(1,3,4) n(1)])
  next
    case beat
    then show ?thesis using host_send_slot_beat [OF assms(1,3,4)] n(1) by simp
  next
    case idle
    then have run: "host_send_slot M True host host_id slot (status, rng, packets, al) =
        Some (slot, status, rng, packets @ [], al)"
      using assms(4) n(1) by (simp add: host_send_slot_def)
    have "sends ?q host_id slot slot []"
      unfolding sends_def using idle assms(4) n(1) by (intro conjI exI [of _ "[]"]) auto
    then show ?thesis using run assms(3) by blast
  qed
qed

lemma host_send_slot_ok:
  assumes "host_sending host" and "mode_slot_wf PEER_HOST (mutual_queue host) slot" and "alloc_ok al"
  shows "\<exists>slot' rng' new al'. alloc_ok al' \<and> sends (mutual_queue host) host_id slot slot' new \<and>
    host_send_slot M True host host_id slot (status, rng, packets, al) =
      Some (slot', status, rng', packets @ new, al')"
proof (cases "slot_state slot")
  case PEER_SLOT_EMPTY
  have "sends (mutual_queue host) host_id slot slot []"
    unfolding sends_def using PEER_SLOT_EMPTY by (intro conjI exI [of _ "[]"]) auto
  then show ?thesis using PEER_SLOT_EMPTY assms(3) by (fastforce simp: host_send_slot_def)
next
  case PEER_SLOT_SESSION_REQUEST
  let ?dst = "endpoint_id (slot_remote slot)"
  let ?m = "M_session_response (peer_time host) (slot_actor slot) (slot_address slot)"
  let ?slot = "slot\<lparr>slot_state := PEER_SLOT_READY, clock_heartbeat := PEER_TIMEOUT_HEARTBEAT\<rparr>"
  have "endpoint_wf (slot_local slot)" "0 \<le> slot_actor slot" "slot_actor slot \<le> 0xffffffff" "is_int64 (peer_time host)"
    using assms(1,2) by (simp_all add: mode_slot_wf_def slot_wf_def host_slot_wf_def host_sending_def)
  then obtain packs al' where packs: "alloc_ok al'" "carries host_id ?dst [?m] packs"
    "send_session_response True (peer_time host) host_id slot (status, rng, packets, al) =
      Some (?slot, status, rng, packets @ packs, al')"
    using send_session_response_ok [of slot "peer_time host" al True host_id status rng packets] assms(3) by blast
  have "sends (mutual_queue host) host_id slot ?slot packs"
    unfolding sends_def
    using PEER_SLOT_SESSION_REQUEST packs(2) send_session_response_sent [OF packs(3)]
    by (intro conjI exI [of _ "[?m]"]) (auto simp: slot_source_def)
  then show ?thesis using packs PEER_SLOT_SESSION_REQUEST by (fastforce simp: host_send_slot_def)
next
  case PEER_SLOT_READY
  then show ?thesis by (rule host_send_slot_ready [OF assms])
next
  case PEER_SLOT_INVALID
  then show ?thesis using assms(2) by (simp add: mode_slot_wf_def slot_wf_def)
qed

lemma host_send_slots_ok:
  assumes "host_sending host" and "list_all (mode_slot_wf PEER_HOST (mutual_queue host)) slots" and "alloc_ok al"
  shows "\<exists>slots' rng' news al'. alloc_ok al' \<and> length slots' = length slots \<and> length news = length slots \<and>
    (\<forall>k < length slots. sends (mutual_queue host) host_id (slots ! k) (slots' ! k) (news ! k)) \<and>
    host_send_slots M True host host_id slots (status, rng, packets, al) =
      Some (slots', status, rng', packets @ concat news, al')"
  using assms(2,3)
proof (induction slots arbitrary: rng packets al)
  case Nil
  then show ?case by auto
next
  case (Cons slot slots)
  have slot: "mode_slot_wf PEER_HOST (mutual_queue host) slot"
    and slots: "list_all (mode_slot_wf PEER_HOST (mutual_queue host)) slots" using Cons.prems(1) by simp_all
  from host_send_slot_ok [OF assms(1) slot Cons.prems(2), of host_id M status rng packets]
  obtain slot' rng1 new al1 where one: "alloc_ok al1" "sends (mutual_queue host) host_id slot slot' new"
    "host_send_slot M True host host_id slot (status, rng, packets, al) =
      Some (slot', status, rng1, packets @ new, al1)" by blast
  from Cons.IH [OF slots one(1), of rng1 "packets @ new"]
  obtain slots' rng2 news al2 where rest: "alloc_ok al2" "length slots' = length slots" "length news = length slots"
    "\<forall>k < length slots. sends (mutual_queue host) host_id (slots ! k) (slots' ! k) (news ! k)"
    "host_send_slots M True host host_id slots (status, rng1, packets @ new, al1) =
      Some (slots', status, rng2, (packets @ new) @ concat news, al2)" by blast
  have "\<forall>k < length (slot # slots). sends (mutual_queue host) host_id ((slot # slots) ! k)
      ((slot' # slots') ! k) ((new # news) ! k)"
    using one(2) rest(4) by (simp add: All_less_Suc2)
  moreover have "host_send_slots M True host host_id (slot # slots) (status, rng, packets, al) =
      Some (slot' # slots', status, rng2, packets @ concat (new # news), al2)"
    using one(3) rest(5) by simp
  ultimately show ?case
    using rest(1-3) by (intro exI [of _ "slot' # slots'"] exI [of _ rng2] exI [of _ "new # news"] exI [of _ al2]) simp
qed

subsection \<open>A host's tick\<close>

text \<open>The host after the clock and the collection, before it sends.\<close>

definition ticked_host :: "peer_time_t \<Rightarrow> 'r peer_t \<Rightarrow> 'r peer_t" where
  "ticked_host dt host = collected_host (tick_clock dt host)"

lemma ticked_host_sel:
  "peer_mode (ticked_host dt host) = peer_mode host"
  "peer_time (ticked_host dt host) = peer_time_local host + dt"
  "peer_actor (ticked_host dt host) = peer_actor host"
  "mutual_queue (ticked_host dt host) = host_queue (peer_time_local host + dt) host"
  "length (peer_slots (ticked_host dt host)) = length (peer_slots host)"
proof -
  have "collected t (if clock_heartbeat s > 0 then s\<lparr>clock_heartbeat := c\<rparr> else s) = collected t s" for t s c
    by (simp add: collected_def)
  then have "map (collected t) (drop 1 (peer_slots (tick_clock dt host))) =
      map (collected t) (drop 1 (peer_slots host))" for t
    by (simp add: tick_clock_def drop_map)
  then have "host_queue t (tick_clock dt host) = host_queue t host" for t
    by (simp only: host_queue_def) (simp add: tick_clock_def)
  then show "mutual_queue (ticked_host dt host) = host_queue (peer_time_local host + dt) host"
    by (simp add: ticked_host_def collected_host_def tick_clock_def Let_def)
  show "length (peer_slots (ticked_host dt host)) = length (peer_slots host)"
    by (cases "peer_slots host") (simp_all add: ticked_host_def collected_host_def tick_clock_def Let_def)
qed (simp_all add: ticked_host_def collected_host_def tick_clock_def Let_def)

lemma peer_tick_host:
  assumes "peer_wf host" and "peer_mode host = PEER_HOST" and "alloc_ok (peer_alloc host)"
    and "0 \<le> dt" and "dt \<le> INT64_MAX - peer_time_local host"
    and "int (length (host_queue (peer_time_local host + dt) host)) \<le> INT64_MAX"
  shows "\<exists>slots' rng' news al'. alloc_ok al' \<and> length slots' = length (peer_slots host) - 1 \<and>
    length news = length (peer_slots host) - 1 \<and>
    (\<forall>k < length (peer_slots host) - 1. sends (host_queue (peer_time_local host + dt) host)
      (endpoint_id (slot_local (peer_slots host ! 0)))
      (peer_slots (ticked_host dt host) ! Suc k) (slots' ! k) (news ! k)) \<and>
    peer_tick M True (Some host) dt = Some (\<lparr>tick_status = KIT_OK, tick_packets = concat news\<rparr>,
      Some ((ticked_host dt host)\<lparr>peer_slots := take 1 (peer_slots (ticked_host dt host)) @ slots',
        peer_mt64 := rng', peer_alloc := al'\<rparr>))"
proof -
  let ?p = "tick_clock dt host" and ?h = "ticked_host dt host"
  have p: "peer_wf ?p" "peer_mode ?p = PEER_HOST" using tick_clock_wf [OF assms(1,4)] assms(2,5) by auto
  moreover have "peer_alloc ?p = peer_alloc host" by (simp add: tick_clock_def)
  ultimately obtain al1 where al1: "alloc_ok al1" "host_collect True ?p = Some (KIT_OK, ?h\<lparr>peer_alloc := al1\<rparr>)"
    using host_collect_ok [of ?p True] assms(3) by (auto simp: ticked_host_def)
  have wf: "peer_wf ?h"
    using host_collect_wf [OF p(1,2) al1(2)] by simp
  have tick: "peer_tick M True (Some host) dt =
      (do { (r, q) \<leftarrow> host_send M True (KIT_OK, ?h\<lparr>peer_alloc := al1\<rparr>); Some (r, Some q) })"
    using assms(4,5) p(2) al1(2) by (simp add: peer_tick_def peer_tick_body_def)
  show ?thesis
  proof (cases "peer_slots ?h")
    case Nil
    then have "peer_slots host = []" using ticked_host_sel(5) [of dt host] by simp
    then show ?thesis
      using Nil tick al1(1) by (auto simp: host_send_def intro!: exI [of _ "peer_mt64 ?h"] exI [of _ al1])
  next
    case (Cons slot0 slots)
    have sending: "host_sending (?h\<lparr>peer_alloc := al1\<rparr>)"
      using wf assms(2,6) by (simp add: host_sending_def peer_wf_def ticked_host_sel)
    have "list_all (mode_slot_wf PEER_HOST (mutual_queue (?h\<lparr>peer_alloc := al1\<rparr>))) slots"
      using wf assms(2) Cons by (simp add: peer_wf_def ticked_host_sel)
    from host_send_slots_ok [OF sending this al1(1), of "endpoint_id (slot_local slot0)" M KIT_OK "peer_mt64 ?h" "[]"]
    obtain slots' rng' news al' where run: "alloc_ok al'" "length slots' = length slots" "length news = length slots"
      "\<forall>k < length slots. sends (host_queue (peer_time_local host + dt) host) (endpoint_id (slot_local slot0))
        (slots ! k) (slots' ! k) (news ! k)"
      "host_send_slots M True (?h\<lparr>peer_alloc := al1\<rparr>) (endpoint_id (slot_local slot0)) slots
        (KIT_OK, peer_mt64 ?h, [], al1) = Some (slots', KIT_OK, rng', concat news, al')"
      by (auto simp: ticked_host_sel)
    have "length slots = length (peer_slots host) - 1" using ticked_host_sel(5) [of dt host] Cons by simp
    moreover have "slot_local slot0 = slot_local (peer_slots host ! 0)"
      using Cons by (cases "peer_slots host") (auto simp: ticked_host_def collected_host_def tick_clock_def Let_def)
    ultimately show ?thesis
      using run Cons tick
      by (intro exI [of _ slots'] exI [of _ rng'] exI [of _ news] exI [of _ al']) (simp add: host_send_def)
  qed
qed

text \<open>The clock and the collection leave of a slot what sending depends on.\<close>

lemma ticked_slot:
  assumes "k < length (peer_slots host)"
  shows "slot_state (peer_slots (ticked_host dt host) ! k) = slot_state (peer_slots host ! k)"
    and "out_index (peer_slots (ticked_host dt host) ! k) = out_index (peer_slots host ! k)"
    and "slot_local (peer_slots (ticked_host dt host) ! k) = slot_local (peer_slots host ! k)"
    and "slot_remote (peer_slots (ticked_host dt host) ! k) = slot_remote (peer_slots host ! k)"
    and "slot_actor (peer_slots (ticked_host dt host) ! k) = slot_actor (peer_slots host ! k)"
proof -
  obtain s ss where "peer_slots host = s # ss" using assms by (cases "peer_slots host") auto
  then show "slot_state (peer_slots (ticked_host dt host) ! k) = slot_state (peer_slots host ! k)"
    and "out_index (peer_slots (ticked_host dt host) ! k) = out_index (peer_slots host ! k)"
    and "slot_local (peer_slots (ticked_host dt host) ! k) = slot_local (peer_slots host ! k)"
    and "slot_remote (peer_slots (ticked_host dt host) ! k) = slot_remote (peer_slots host ! k)"
    and "slot_actor (peer_slots (ticked_host dt host) ! k) = slot_actor (peer_slots host ! k)"
    using assms by (cases k; simp add: ticked_host_def collected_host_def tick_clock_def Let_def advance_slot_def)+
qed

lemma carries_packet:
  assumes "carries src dst ms packets" and "p \<in> set packets"
  shows "\<exists>ms'. p = wire_packet src dst ms' \<and> packet_ok ms' \<and> set ms' \<subseteq> set ms"
proof -
  obtain mss ms' where "concat mss = ms" "list_all packet_ok mss" "ms' \<in> set mss" "p = wire_packet src dst ms'"
    using assms by (auto simp: carries_def)
  then show ?thesis by (intro exI [of _ ms']) (auto simp: list_all_iff)
qed

lemma carries_message:
  assumes "carries src dst ms packets" and "m \<in> set ms"
  shows "\<exists>ms'. wire_packet src dst ms' \<in> set packets \<and> m \<in> set ms'"
proof -
  obtain mss ms' where "packets = map (wire_packet src dst) mss" "ms' \<in> set mss" "m \<in> set ms'"
    using assms by (auto simp: carries_def)
  then show ?thesis by (intro exI [of _ ms']) auto
qed

text \<open>A trail that reaches past the end of the queue: its last message is always read.\<close>

lemma queue_chunks_outside:
  assumes "list_all message_wf q" and "alloc_ok al" and "length q < i + n" and "0 < n"
  shows "queue_chunks nd q (int i) n al = None"
  using assms
proof (induction n arbitrary: i al)
  case (Suc n)
  show ?case
  proof (cases "i < length q")
    case True
    then obtain al1 where "alloc_ok al1"
      "queue_chunk nd q (int i) al = Some (Some (wire_bytes (queue_message q i)), al1)"
      using queue_chunk_ok [of i q al nd] Suc.prems(1,2) by (auto simp: list_all_length)
    moreover have "0 < n" using Suc.prems(3) True by simp
    ultimately show ?thesis using Suc.IH [of al1 "Suc i"] Suc.prems by (simp add: add.commute)
  next
    case False
    then show ?thesis by (simp add: queue_chunk_def c_load_def)
  qed
qed simp

lemma append_trail_outside:
  assumes "list_all message_wf q" and "alloc_ok al" and "length q < n"
  shows "chunks_append_trail M nd rng q (int n) cs al = None"
proof (cases nd)
  case True
  define s where "s = nat (serial_trail_size (int n))"
  have s: "serial_trail_size (int n) = int s" "0 < s" "s \<le> n"
    using serial_trail_bounds [of n] assms(3) by (auto simp: s_def)
  obtain f al1 where "da_resize (\<lambda>_ _. []) (length cs + s) cs al =
      (cs @ map (\<lambda>_. []) [length cs..<length cs + s], al1)" "alloc_ok al1"
    using da_resize_ok [OF assms(2), of cs "length cs + s" "\<lambda>_ _. []"] by auto
  then show ?thesis
    using True assms(3) s queue_chunks_outside [OF assms(1), of al1 "n - s" s]
    by (simp add: chunks_append_trail_def append_chunks_def of_nat_diff)
next
  case False
  then show ?thesis using assms(3) by (simp add: chunks_append_trail_def c_assert_def)
qed

subsection \<open>A client's tick\<close>

text \<open>New messages of the slot's queue, with a trail of earlier ones.\<close>

lemma client_tick_new:
  assumes "peer_wf client" and "peer_mode client = PEER_CLIENT" and "alloc_ok (peer_alloc client)"
    and "0 \<le> dt" and "dt \<le> INT64_MAX - peer_time_local client" and "peer_slots client = slot # slots"
    and "out_index slot < int (length (slot_queue slot))" and "int (length (slot_queue slot)) \<le> INT64_MAX"
  shows "\<exists>result client' ms. peer_tick M True (Some client) dt = Some (result, Some client') \<and>
    tick_status result = KIT_OK \<and>
    carries (endpoint_id (slot_local slot)) (endpoint_id (slot_remote slot)) ms (tick_packets result) \<and>
    (\<forall>m \<in> set ms. from_log (queue_get (slot_queue slot)) m) \<and>
    (\<forall>m \<in> set ms. \<exists>i < length (slot_queue slot). m = queue_message (slot_queue slot) i) \<and>
    (\<forall>i. out_index slot \<le> int i \<and> i < length (slot_queue slot) \<longrightarrow>
      M_application i (message_entry (slot_queue slot ! i)) \<in> set ms) \<and>
    out_index (hd (peer_slots client')) = int (length (slot_queue slot)) \<and>
    mutual_queue client' = mutual_queue client"
proof -
  let ?p = "tick_clock dt client" and ?q = "slot_queue slot"
  obtain slot1 slots1 where slots1: "peer_slots ?p = slot1 # slots1" "slot_queue slot1 = ?q"
    "out_index slot1 = out_index slot" "slot_local slot1 = slot_local slot" "slot_remote slot1 = slot_remote slot"
    using assms(6) by (auto simp: tick_clock_def)
  have slot: "mode_slot_wf PEER_CLIENT (mutual_queue client) slot"
    using assms(1,2,6) by (simp add: peer_wf_def)
  then have q: "list_all message_wf ?q" "list_all is_ready ?q" "0 \<le> out_index slot"
    by (simp_all add: mode_slot_wf_def slot_wf_def client_slot_wf_def)
  then obtain n where n: "out_index slot = int n" "n < length ?q" using assms(7) by (metis nonneg_int_cases of_nat_less_iff)
  obtain ks rng' where ks: "trail_indices M n (peer_mt64 ?p) = (ks, rng')" by fastforce
  let ?ms = "pack_messages ?q n ks"
  obtain new al' where pack: "carries (endpoint_id (slot_local slot)) (endpoint_id (slot_remote slot)) ?ms new"
    "queue_pack M True (peer_mt64 ?p) ?q (int n) (endpoint_id (slot_local slot)) (endpoint_id (slot_remote slot))
      [] (peer_alloc ?p) = Some (KIT_OK, rng', new, al')"
    using queue_pack_ok [OF n(2) q(1) _ assms(8) ks, of "peer_alloc ?p" True "endpoint_id (slot_local slot)"
        "endpoint_id (slot_remote slot)" "[]"] assms(3)
    by (auto simp: pack_assertable_def tick_clock_def)
  let ?c = "?p\<lparr>peer_slots := slot1\<lparr>out_index := int (length ?q)\<rparr> # slots1, peer_mt64 := rng', peer_alloc := al'\<rparr>"
  have "peer_mode ?p = PEER_CLIENT" using assms(2) by (simp add: tick_clock_def)
  then have "peer_tick M True (Some client) dt = Some (\<lparr>tick_status = KIT_OK, tick_packets = new\<rparr>, Some ?c)"
    using assms(4,5) n slots1 pack(2)
    by (simp add: peer_tick_def peer_tick_body_def client_send_def client_send_slot_def)
  moreover have "\<forall>m \<in> set ?ms. from_log (queue_get ?q) m"
    using pack_messages_from_log(2) [OF q(2) ks] n(2) by simp
  moreover have "i < length ?q" if "i \<in> set ks" for i using trail_indices_bound [OF ks that] n(2) by simp
  then have "\<forall>m \<in> set ?ms. \<exists>i < length ?q. m = queue_message ?q i" by (auto simp: pack_messages_def)
  moreover have "\<forall>i. out_index slot \<le> int i \<and> i < length ?q \<longrightarrow> M_application i (message_entry (?q ! i)) \<in> set ?ms"
    using n(1) by (auto simp: pack_messages_def queue_message_def)
  moreover have "mutual_queue ?c = mutual_queue client" by (simp add: tick_clock_def)
  ultimately show ?thesis
    using pack(1)
    by (intro exI [of _ "\<lparr>tick_status = KIT_OK, tick_packets = new\<rparr>"] exI [of _ ?c] exI [of _ ?ms]) simp
qed

text \<open>A heartbeat that reads its trail outside the mutual queue does not return.\<close>

lemma send_heartbeat_outside:
  assumes "out_index slot = int n" and "length q < n" and "list_all message_wf q" and "alloc_ok al"
    and "- 1 \<le> actor" and "actor \<le> 0xffffffff"
  shows "send_heartbeat M nd q 0 actor slot (status, rng, packets, al) = None"
proof -
  obtain al1 where al1: "da_init ([] :: peer_chunk_t) 1 al = ([[]], al1)" "alloc_ok al1"
    using da_init_ok [OF assms(4), of "[] :: peer_chunk_t" 1 thesis] by simp
  obtain v al2 where v: "da_init_bytes 31 al1 = Some (v, al2)" "length v = 31" "alloc_ok al2"
    using da_init_bytes_ok [OF al1(2), of 31 thesis] by simp
  have "message_fits 0 actor (take 1 [1])" using assms(5,6) by (auto simp: message_fits_def)
  then have "peer_write_message nd v 0 (- 1) 0 actor 1 [1] = Some (wire_bytes (M_heartbeat 0 actor))"
    using peer_write_message_eq [of nd 0 actor 1 "[1]" v "- 1" 0] v(2) by simp
  then show ?thesis
    using assms(1) al1(1) v
    by (simp add: send_heartbeat_def append_trail_outside [OF assms(3) v(3) assms(2)]
        del: One_nat_def wire_bytes.simps)
qed

text \<open>With nothing new to send, a heartbeat with a trail of the mutual queue, or nothing.\<close>

lemma client_tick_old:
  assumes "peer_wf client" and "peer_mode client = PEER_CLIENT" and "alloc_ok (peer_alloc client)"
    and "peer_tick M True (Some client) dt = Some (result, Some client')" and "peer_slots client = slot # slots"
    and "int (length (mutual_queue client)) \<le> INT64_MAX" and "0 \<le> dt" and "dt \<le> INT64_MAX - peer_time_local client"
    and "\<not> out_index slot < int (length (slot_queue slot))"
  shows "\<exists>ms. carries (endpoint_id (slot_local slot)) (endpoint_id (slot_remote slot)) ms (tick_packets result) \<and>
    (\<forall>m \<in> set ms. m = M_heartbeat 0 (peer_actor client) \<or>
      (\<exists>k < length (mutual_queue client). m = queue_message (mutual_queue client) k))"
proof -
  let ?p = "tick_clock dt client" and ?q = "mutual_queue client" and ?a = "peer_actor client"
  obtain slot1 slots1 where slot1: "peer_slots ?p = slot1 # slots1" "slot_queue slot1 = slot_queue slot"
    "out_index slot1 = out_index slot" "slot_local slot1 = slot_local slot" "slot_remote slot1 = slot_remote slot"
    using assms(5) by (auto simp: tick_clock_def)
  have p: "peer_mode ?p = PEER_CLIENT" "mutual_queue ?p = ?q" "peer_actor ?p = ?a" "alloc_ok (peer_alloc ?p)"
    using assms(2,3) by (simp_all add: tick_clock_def)
  have q: "list_all message_wf ?q" "- 1 \<le> ?a" "?a \<le> 0xffffffff" "0 \<le> out_index slot"
    using assms(1,5) by (simp_all add: peer_wf_def queue_wf_def mode_slot_wf_def slot_wf_def)
  obtain n where n: "out_index slot = int n" using q(4) by (metis nonneg_int_cases)
  obtain slot' st rng al where send: "client_send_slot M True ?p slot1 = Some (slot', st, rng, tick_packets result, al)"
    using assms(4) assms(7,8) p(1) slot1(1) by (auto simp: peer_tick_def peer_tick_body_def client_send_def Let_def dest!: bind_eq_SomeD)
  show ?thesis
  proof (cases "clock_heartbeat slot1 \<le> 0")
    case False
    then have "tick_packets result = []" using send assms(9) slot1 by (simp add: client_send_slot_def)
    then show ?thesis using assms(9) by (intro exI [of _ "[]"]) simp
  next
    case True
    then have beat: "send_heartbeat M True ?q 0 ?a slot1 (KIT_OK, peer_mt64 ?p, [], peer_alloc ?p) =
        Some (slot', st, rng, tick_packets result, al)"
      using send assms(9) slot1 p by (simp add: client_send_slot_def)
    have le: "n \<le> length ?q"
      using beat send_heartbeat_outside [OF _ _ q(1) p(4) q(2,3), of slot1 n M True] slot1(3) n by (metis not_le option.distinct(1))
    obtain ks rng' where ks: "trail_indices M n (peer_mt64 ?p) = (ks, rng')" by fastforce
    have "carries (endpoint_id (slot_local slot)) (endpoint_id (slot_remote slot)) (heartbeat_messages ?q 0 ?a ks) (tick_packets result)"
      using send_heartbeat_ok [OF _ le q(1) p(4) assms(6) _ ks, of slot1 0 ?a True KIT_OK "[]"] beat slot1 n q(2,3)
      by (auto simp: pack_assertable_def is_int64_def)
    moreover have "k < length ?q" if "k \<in> set ks" for k using trail_indices_bound [OF ks that] le by simp
    ultimately show ?thesis
      using assms(9) by (intro exI [of _ "heartbeat_messages ?q 0 ?a ks"]) (auto simp: heartbeat_messages_def)
  qed
qed

text \<open>What a client's tick sends in any case: messages of its own queue, and in the trail of a heartbeat
  messages of the mutual queue.\<close>

lemma client_tick_messages:
  assumes "peer_wf client" and "peer_mode client = PEER_CLIENT" and "alloc_ok (peer_alloc client)"
    and "peer_tick M True (Some client) dt = Some (result, Some client')" and "peer_slots client = slot # slots"
    and "int (length (slot_queue slot)) \<le> INT64_MAX" and "int (length (mutual_queue client)) \<le> INT64_MAX"
  shows "\<exists>ms. carries (endpoint_id (slot_local slot)) (endpoint_id (slot_remote slot)) ms (tick_packets result) \<and>
    (if out_index slot < int (length (slot_queue slot)) then \<forall>m \<in> set ms. from_log (queue_get (slot_queue slot)) m
     else \<forall>m \<in> set ms. m = M_heartbeat 0 (peer_actor client) \<or>
       (\<exists>k < length (mutual_queue client). m = queue_message (mutual_queue client) k))"
proof -
  consider (refused) "dt < 0 \<or> peer_time_local client > INT64_MAX - dt"
    | (new) "0 \<le> dt" "dt \<le> INT64_MAX - peer_time_local client" "out_index slot < int (length (slot_queue slot))"
    | (old) "0 \<le> dt" "dt \<le> INT64_MAX - peer_time_local client" "\<not> out_index slot < int (length (slot_queue slot))"
    by linarith
  then show ?thesis
  proof cases
    case refused
    then have "tick_packets result = []"
      using assms(4) by (auto simp: peer_tick_def peer_tick_body_def split: if_splits)
    then show ?thesis by (intro exI [of _ "[]"]) simp
  next
    case new
    then show ?thesis using client_tick_new [OF assms(1-3) new(1,2) assms(5) new(3) assms(6), of M] assms(4) by auto
  next
    case old
    show ?thesis using client_tick_old [OF assms(1-5,7) old] old(3) by simp
  qed
qed

subsection \<open>Properties\<close>

text \<open>C11. \<open>peer_tick\<close> keeps a peer well-formed, in both modes and both builds, whatever the allocator
  answers and the generator yields.\<close>

theorem peer_tick_preserves_wf:
  assumes "peer_wf peer" and "peer_tick M nd (Some peer) dt = Some (result, Some peer')"
  shows "peer_wf peer'"
  using assms peer_tick_body_wf by (auto simp: peer_tick_def dest!: bind_eq_SomeD)

text \<open>A generator for the examples.\<close>

definition example_mt64 :: "unit mt64_ops" where
  "example_mt64 = \<lparr>mt64_init = (\<lambda>_. ()), mt64_rotate = (\<lambda>_. ()), mt64_generate = (\<lambda>_. (0, ()))\<rparr>"

theorem peer_tick_preserves_wf_witness:
  "peer_wf (tick_clock 5 (example_host\<lparr>peer_slots := []\<rparr>)\<lparr>peer_time := 5, queue_index := 2,
    mutual_queue := [ready_message (5, 0, [1, 2]), ready_message (5, 0, [3])]\<rparr>)"
proof (rule peer_tick_preserves_wf [where peer = "example_host\<lparr>peer_slots := []\<rparr>" and M = example_mt64
      and nd = False and dt = 5 and result = "\<lparr>tick_status = KIT_OK, tick_packets = []\<rparr>"])
  show "peer_wf (example_host\<lparr>peer_slots := []\<rparr>)"
    using example_host_wf by (simp add: peer_wf_def)
  show "peer_tick example_mt64 False (Some (example_host\<lparr>peer_slots := []\<rparr>)) 5 =
    Some (\<lparr>tick_status = KIT_OK, tick_packets = []\<rparr>,
      Some (tick_clock 5 (example_host\<lparr>peer_slots := []\<rparr>)\<lparr>peer_time := 5, queue_index := 2,
        mutual_queue := [ready_message (5, 0, [1, 2]), ready_message (5, 0, [3])]\<rparr>))"
    by (simp add: peer_tick_def peer_tick_body_def tick_clock_def example_host_def host_collect_def
        stamp_messages_def host_send_def)
qed

text \<open>C8. The mutual queue after a tick of a host: the messages of earlier ticks are unchanged, then come
  the messages the host queued since, stamped with the time of the tick, then slot by slot those
  messages of each client that are next in line (no gap before them), with the client's actor and the
  same time. Everything is processed (\<open>queue_index\<close>), and the status is \<open>KIT_OK\<close>.\<close>

theorem host_tick_queue:
  assumes "peer_wf host" and "peer_mode host = PEER_HOST" and "alloc_ok (peer_alloc host)"
    and "0 \<le> dt" and "dt \<le> INT64_MAX - peer_time_local host"
    and "int (length (host_queue (peer_time_local host + dt) host)) \<le> INT64_MAX"
  shows "\<exists>result host'. peer_tick M True (Some host) dt = Some (result, Some host') \<and>
    tick_status result = KIT_OK \<and> peer_time host' = peer_time_local host + dt \<and>
    mutual_queue host' =
      take (nat (queue_index host)) (mutual_queue host) @
      map (\<lambda>m. m\<lparr>message_time := peer_time host'\<rparr>) (drop (nat (queue_index host)) (mutual_queue host)) @
      concat (map (\<lambda>slot. map (\<lambda>m. ready_message (peer_time host', slot_actor slot, message_data m))
          (takeWhile is_ready (drop (nat (in_index slot)) (slot_queue slot)))) (drop 1 (peer_slots host))) \<and>
    queue_index host' = int (length (mutual_queue host'))"
proof -
  obtain slots' rng' news al' where "peer_tick M True (Some host) dt =
      Some (\<lparr>tick_status = KIT_OK, tick_packets = concat news\<rparr>,
        Some ((ticked_host dt host)\<lparr>peer_slots := take 1 (peer_slots (ticked_host dt host)) @ slots',
          peer_mt64 := rng', peer_alloc := al'\<rparr>))"
    using peer_tick_host [OF assms] by blast
  moreover have "queue_index (ticked_host dt host) = int (length (mutual_queue (ticked_host dt host)))"
    by (simp add: ticked_host_def collected_host_def Let_def)
  ultimately show ?thesis
    by (auto simp: ticked_host_sel host_queue_def collected_def [abs_def])
qed

theorem host_tick_queue_witness:
  "\<exists>result host'. peer_tick example_mt64 True (Some session_host) 7 = Some (result, Some host') \<and>
    tick_status result = KIT_OK \<and> peer_time host' = peer_time_local session_host + 7 \<and>
    mutual_queue host' =
      take (nat (queue_index session_host)) (mutual_queue session_host) @
      map (\<lambda>m. m\<lparr>message_time := peer_time host'\<rparr>)
        (drop (nat (queue_index session_host)) (mutual_queue session_host)) @
      concat (map (\<lambda>slot. map (\<lambda>m. ready_message (peer_time host', slot_actor slot, message_data m))
          (takeWhile is_ready (drop (nat (in_index slot)) (slot_queue slot)))) (drop 1 (peer_slots session_host))) \<and>
    queue_index host' = int (length (mutual_queue host'))"
  by (rule host_tick_queue [OF session_host_wf])
    (simp_all add: session_host_def example_defs assigned_slot_def host_queue_def collected_def)

text \<open>C9. The packets of a host's tick: every packet carries protocol messages only, and every application
  message in it is a message of the mutual queue under its own index. A client in session is sent
  every message it has not been sent yet, and its \<open>out_index\<close> is the end of the queue.\<close>

theorem host_tick_sends:
  assumes "peer_wf host" and "peer_mode host = PEER_HOST" and "alloc_ok (peer_alloc host)"
    and "0 \<le> dt" and "dt \<le> INT64_MAX - peer_time_local host"
    and "int (length (host_queue (peer_time_local host + dt) host)) \<le> INT64_MAX"
  shows "\<exists>result host'. peer_tick M True (Some host) dt = Some (result, Some host') \<and>
    (\<forall>p \<in> set (tick_packets result). \<exists>src dst ms. p = wire_packet src dst ms \<and> packet_ok ms \<and>
      (\<forall>m \<in> set ms. from_log (queue_get (mutual_queue host')) m)) \<and>
    (\<forall>k. 1 \<le> k \<and> k < length (peer_slots host) \<and> slot_state (peer_slots host ! k) = PEER_SLOT_READY \<longrightarrow>
      out_index (peer_slots host' ! k) = int (length (mutual_queue host')) \<and>
      (\<forall>i. out_index (peer_slots host ! k) \<le> int i \<and> i < length (mutual_queue host') \<longrightarrow>
        (\<exists>ms. wire_packet (endpoint_id (slot_local (peer_slots host ! k)))
            (endpoint_id (slot_remote (peer_slots host ! k))) ms \<in> set (tick_packets result) \<and>
          M_application i (message_entry (mutual_queue host' ! i)) \<in> set ms)))"
proof -
  let ?q = "host_queue (peer_time_local host + dt) host" and ?h = "ticked_host dt host"
  from peer_tick_host [OF assms, of M]
  obtain slots' rng' news al' where len: "length slots' = length (peer_slots host) - 1"
    "length news = length (peer_slots host) - 1" and
    sends: "\<forall>k < length (peer_slots host) - 1. sends ?q (endpoint_id (slot_local (peer_slots host ! 0)))
      (peer_slots ?h ! Suc k) (slots' ! k) (news ! k)" and
    run: "peer_tick M True (Some host) dt = Some (\<lparr>tick_status = KIT_OK, tick_packets = concat news\<rparr>,
      Some (?h\<lparr>peer_slots := take 1 (peer_slots ?h) @ slots', peer_mt64 := rng', peer_alloc := al'\<rparr>))" by blast
  let ?h' = "?h\<lparr>peer_slots := take 1 (peer_slots ?h) @ slots', peer_mt64 := rng', peer_alloc := al'\<rparr>"
  have q: "mutual_queue ?h' = ?q" by (simp add: ticked_host_sel)
  have "\<exists>src dst ms. p = wire_packet src dst ms \<and> packet_ok ms \<and> (\<forall>m \<in> set ms. from_log (queue_get ?q) m)"
    if p: "p \<in> set (concat news)" for p
  proof -
    obtain new where "new \<in> set news" "p \<in> set new" using p by auto
    then obtain k where k: "k < length (peer_slots host) - 1" "p \<in> set (news ! k)"
      using len(2) by (metis in_set_conv_nth)
    then obtain src dst ms where "carries src dst ms (news ! k)" "\<forall>m \<in> set ms. from_log (queue_get ?q) m"
      using sends by (auto simp: sends_def)
    then show ?thesis using carries_packet k(2) by (meson subsetD)
  qed
  moreover have "out_index (peer_slots ?h' ! k) = int (length ?q) \<and>
      (\<forall>i. out_index (peer_slots host ! k) \<le> int i \<and> i < length ?q \<longrightarrow>
        (\<exists>ms. wire_packet (endpoint_id (slot_local (peer_slots host ! k)))
            (endpoint_id (slot_remote (peer_slots host ! k))) ms \<in> set (concat news) \<and>
          M_application i (message_entry (?q ! i)) \<in> set ms))"
    if k: "1 \<le> k" "k < length (peer_slots host)" "slot_state (peer_slots host ! k) = PEER_SLOT_READY" for k
  proof -
    obtain k' where k': "k = Suc k'" "k' < length (peer_slots host) - 1" using k(1,2) by (cases k) auto
    have slot: "sends ?q (endpoint_id (slot_local (peer_slots host ! 0))) (peer_slots ?h ! k) (slots' ! k') (news ! k')"
      using sends k' by simp
    have "length (take 1 (peer_slots ?h)) = 1" using k(2) ticked_host_sel(5) [of dt host] by simp
    then have "peer_slots ?h' ! k = slots' ! k'" by (simp add: nth_append k'(1))
    moreover have "news ! k' \<in> set news" using k'(2) len(2) by simp
    then have "set (news ! k') \<subseteq> set (concat news)" by auto
    ultimately show ?thesis
      using slot k carries_message [where packets = "news ! k'"]
      by (fastforce simp: sends_def ticked_slot [OF k(2)] slot_source_def queue_message_def)
  qed
  ultimately show ?thesis
    using run q by (intro exI [of _ "\<lparr>tick_status = KIT_OK, tick_packets = concat news\<rparr>"] exI [of _ ?h']) simp
qed

text \<open>The example host with a client in session on slot 1 that has received its first message.\<close>

definition ready_host :: "unit peer_t" where
  "ready_host = session_host\<lparr>peer_slots := (peer_slots session_host)
     [1 := (peer_slots session_host ! 1)\<lparr>slot_state := PEER_SLOT_READY, out_index := 1,
       slot_queue := [ready_message (0, 1, [5])]\<rparr>]\<rparr>"

lemma ready_host_wf: "peer_wf ready_host"
  by (simp add: ready_host_def session_host_def assigned_slot_def example_defs peer_wf_def mode_slot_wf_def
      queue_wf_def wf_defs is_int64_def)

theorem host_tick_sends_witness:
  "\<exists>result host'. peer_tick example_mt64 True (Some ready_host) 7 = Some (result, Some host') \<and>
    (\<forall>p \<in> set (tick_packets result). \<exists>src dst ms. p = wire_packet src dst ms \<and> packet_ok ms \<and>
      (\<forall>m \<in> set ms. from_log (queue_get (mutual_queue host')) m)) \<and>
    (\<forall>k. 1 \<le> k \<and> k < length (peer_slots ready_host) \<and>
      slot_state (peer_slots ready_host ! k) = PEER_SLOT_READY \<longrightarrow>
      out_index (peer_slots host' ! k) = int (length (mutual_queue host')) \<and>
      (\<forall>i. out_index (peer_slots ready_host ! k) \<le> int i \<and> i < length (mutual_queue host') \<longrightarrow>
        (\<exists>ms. wire_packet (endpoint_id (slot_local (peer_slots ready_host ! k)))
            (endpoint_id (slot_remote (peer_slots ready_host ! k))) ms \<in> set (tick_packets result) \<and>
          M_application i (message_entry (mutual_queue host' ! i)) \<in> set ms)))"
  by (rule host_tick_sends [OF ready_host_wf])
    (simp_all add: ready_host_def session_host_def example_defs assigned_slot_def host_queue_def collected_def)

text \<open>A slot with a session request is answered in the next tick: one packet from the host's own id to
  the client, with the actor of the slot and the address of the slot; the slot is then in session.\<close>

theorem host_tick_session_response:
  assumes "endpoint_wf (slot_local slot)" and "0 \<le> slot_actor slot" and "slot_actor slot \<le> 0xffffffff"
    and "is_int64 (peer_time host)" and "alloc_ok al" and "nd \<or> host_id \<noteq> endpoint_id (slot_remote slot)"
    and "slot_state slot = PEER_SLOT_SESSION_REQUEST"
  shows "\<exists>slot' new al'. host_send_slot M nd host host_id slot (status, rng, packets, al) =
      Some (slot', status, rng, packets @ new, al') \<and>
    carries host_id (endpoint_id (slot_remote slot))
      [M_session_response (peer_time host) (slot_actor slot)
        (take (nat (address_size (slot_local slot))) (address_data (slot_local slot)))] new \<and>
    slot' = slot\<lparr>slot_state := PEER_SLOT_READY, clock_heartbeat := PEER_TIMEOUT_HEARTBEAT\<rparr>"
  using send_session_response_ok [OF assms(1-6), of status rng packets] assms(7)
  by (auto simp: host_send_slot_def slot_address_def)

theorem host_tick_session_response_witness:
  "\<exists>slot' new al'. host_send_slot example_mt64 False session_host 10 (peer_slots session_host ! 1)
      (KIT_OK, (), [], []) = Some (slot', KIT_OK, (), [] @ new, al') \<and>
    carries 10 (endpoint_id (slot_remote (peer_slots session_host ! 1)))
      [M_session_response (peer_time session_host) (slot_actor (peer_slots session_host ! 1))
        (take (nat (address_size (slot_local (peer_slots session_host ! 1))))
          (address_data (slot_local (peer_slots session_host ! 1))))] new \<and>
    slot' = (peer_slots session_host ! 1)
      \<lparr>slot_state := PEER_SLOT_READY, clock_heartbeat := PEER_TIMEOUT_HEARTBEAT\<rparr>"
  by (rule host_tick_session_response)
    (simp_all add: session_host_def assigned_slot_def example_defs endpoint_wf_def is_int64_def)

text \<open>C12. A client with unsent messages sends all of them to its host, with a trail of earlier ones, and
  its \<open>out_index\<close> is then the end of its queue. (Release build; a debug build also asserts that no
  packet is filled past 384 bytes.)\<close>

theorem client_tick_sends:
  assumes "peer_wf client" and "peer_mode client = PEER_CLIENT" and "alloc_ok (peer_alloc client)"
    and "0 \<le> dt" and "dt \<le> INT64_MAX - peer_time_local client" and "peer_slots client = slot # slots"
    and "out_index slot < int (length (slot_queue slot))" and "int (length (slot_queue slot)) \<le> INT64_MAX"
  shows "\<exists>result client' ms. peer_tick M True (Some client) dt = Some (result, Some client') \<and>
    tick_status result = KIT_OK \<and>
    carries (endpoint_id (slot_local slot)) (endpoint_id (slot_remote slot)) ms (tick_packets result) \<and>
    (\<forall>m \<in> set ms. from_log (queue_get (slot_queue slot)) m) \<and>
    (\<forall>i. out_index slot \<le> int i \<and> i < length (slot_queue slot) \<longrightarrow>
      M_application i (message_entry (slot_queue slot ! i)) \<in> set ms) \<and>
    out_index (hd (peer_slots client')) = int (length (slot_queue slot)) \<and>
    mutual_queue client' = mutual_queue client"
  using client_tick_new [OF assms, of M] by (elim exE conjE, intro exI conjI) assumption+

text \<open>The example client with three messages, one of them sent.\<close>

definition busy_client :: "unit peer_t" where
  "busy_client = example_client\<lparr>peer_slots := [(hd (peer_slots example_client))
     \<lparr>slot_queue := [ready_message (0, - 1, [9]), ready_message (0, - 1, []), ready_message (0, - 1, [8, 8])],
      out_index := 1\<rparr>]\<rparr>"

lemma busy_client_wf: "peer_wf busy_client"
  by (simp add: busy_client_def example_defs peer_wf_def mode_slot_wf_def queue_wf_def wf_defs is_int64_def)

theorem client_tick_sends_witness:
  "\<exists>result client' ms. peer_tick example_mt64 True (Some busy_client) 3 = Some (result, Some client') \<and>
    tick_status result = KIT_OK \<and>
    carries (endpoint_id (slot_local (hd (peer_slots busy_client))))
      (endpoint_id (slot_remote (hd (peer_slots busy_client)))) ms (tick_packets result) \<and>
    (\<forall>m \<in> set ms. from_log (queue_get (slot_queue (hd (peer_slots busy_client)))) m) \<and>
    (\<forall>i. out_index (hd (peer_slots busy_client)) \<le> int i \<and>
        i < length (slot_queue (hd (peer_slots busy_client))) \<longrightarrow>
      M_application i (message_entry (slot_queue (hd (peer_slots busy_client)) ! i)) \<in> set ms) \<and>
    out_index (hd (peer_slots client')) = int (length (slot_queue (hd (peer_slots busy_client)))) \<and>
    mutual_queue client' = mutual_queue busy_client"
  by (rule client_tick_sends [OF busy_client_wf, where slots = "[]"])
    (simp_all add: busy_client_def example_client_def)

text \<open>A tick with a negative time (assertions off) or one that would overflow the clock is refused with
  its own status, and leaves the peer and its packets alone.\<close>

theorem tick_refused:
  assumes "dt < 0 \<and> nd \<or> 0 \<le> dt \<and> peer_time_local peer > INT64_MAX - dt"
  shows "peer_tick M nd (Some peer) dt = Some (\<lparr>tick_status =
      (if dt < 0 then PEER_ERROR_INVALID_TIME_ELAPSED else PEER_ERROR_TIME_OVERFLOW), tick_packets = []\<rparr>, Some peer)"
  using assms by (auto simp: peer_tick_def peer_tick_body_def)

theorem tick_refused_witness:
  "peer_tick example_mt64 False (Some (example_host\<lparr>peer_time_local := 10\<rparr>)) INT64_MAX =
    Some (\<lparr>tick_status = (if INT64_MAX < 0 then PEER_ERROR_INVALID_TIME_ELAPSED else PEER_ERROR_TIME_OVERFLOW),
      tick_packets = []\<rparr>, Some (example_host\<lparr>peer_time_local := 10\<rparr>))"
  by (rule tick_refused) simp

text \<open>C40. A client whose heartbeat is due after it has sent more messages than it has received has no
  defined behaviour: the trail is read from the mutual queue at an index of the slot's queue. A debug
  build stops at the assertion, a release build reads outside the array.\<close>

theorem client_heartbeat_outside_queue:
  assumes "peer_mode client = PEER_CLIENT" and "peer_slots client = slot # slots"
    and "out_index slot = int (length (slot_queue slot))"
    and "length (mutual_queue client) < length (slot_queue slot)" and "clock_heartbeat slot \<le> 0"
    and "alloc_ok (peer_alloc client)" and "list_all message_wf (mutual_queue client)"
    and "- 1 \<le> peer_actor client" and "peer_actor client \<le> 0xffffffff"
    and "0 \<le> dt" and "dt \<le> INT64_MAX - peer_time_local client"
  shows "peer_tick M nd (Some client) dt = None"
  using assms(1-3,5,10,11) send_heartbeat_outside [where M = M, OF _ assms(4,7,6,8,9)]
  by (auto simp: peer_tick_def peer_tick_body_def client_send_def client_send_slot_def tick_clock_def)

theorem client_heartbeat_outside_queue_witness:
  "peer_tick example_mt64 True (Some (example_client\<lparr>peer_slots :=
    [(hd (peer_slots example_client))\<lparr>out_index := 1\<rparr>]\<rparr>)) 20 = None"
  by (rule client_heartbeat_outside_queue [where slots = "[]" and
        slot = "(hd (peer_slots example_client))\<lparr>out_index := 1\<rparr>"]) (simp_all add: example_defs)

end
