(* ===== verification/Peer_Session.thy ===== *)
theory Peer_Session
  imports Peer_Sending
begin

text \<open>
  A session as a whole: a host, one of its clients, and a network that may lose, repeat and reorder the
  packets the host sends. The step relation lets the two applications queue messages and tick in any
  order, lets the host receive arbitrary packets (other clients, strangers), and lets the address layer
  change the endpoints of the slots. The invariant is proved by rule induction; its consequence is
  that the client's copy of the mutual queue agrees with the host's. The last theorem follows one tick
  through the network: when its packets arrive, the client has everything the host has published.
\<close>

subsection \<open>Delivering packets to a client\<close>

type_synonym parcel = "ptrdiff_t \<times> ptrdiff_t \<times> wire_message list"

fun parcel_packet :: "parcel \<Rightarrow> peer_packet_t" where
  "parcel_packet (src, dst, ms) = wire_packet src dst ms"

fun parcel_messages :: "parcel \<Rightarrow> wire_message list" where
  "parcel_messages (src, dst, ms) = ms"

text \<open>Whether a peer has a slot for a parcel; it depends on the ids of the slots only.\<close>

fun routed :: "'r peer_t \<Rightarrow> parcel \<Rightarrow> bool" where
  "routed peer (src, dst, ms) \<longleftrightarrow> route src dst peer \<noteq> None"

lemma routed_ids: "slot_ids peer' = slot_ids peer \<Longrightarrow> routed peer' x = routed peer x"
  using route_slot_ids [of peer' peer] by (cases x) auto

lemma input_packet_unrouted:
  assumes "route src dst peer = None" and "peer_mode peer = PEER_CLIENT"
  shows "input_packet nd (wire_packet src dst ms) (status, peer) = Some (status, peer)"
proof -
  have "find_slot (slot_matches (wire_packet src dst ms)) 0 (peer_slots peer) = None"
    using assms(1) by (simp add: route_def slot_matches_def [abs_def])
  then show ?thesis using assms(2) by (auto simp: input_packet_def assign_slot_def split: list.split)
qed

lemma input_parcel_client:
  assumes "packet_ok (parcel_messages x)" and "peer_wf peer" and "peer_mode peer = PEER_CLIENT"
    and "alloc_ok (peer_alloc peer)"
  shows "\<exists>peer'. input_packet nd (parcel_packet x) (status, peer) = Some (status, peer') \<and>
    alloc_ok (peer_alloc peer') \<and> peer_mode peer' = PEER_CLIENT \<and> slot_ids peer' = slot_ids peer \<and>
    mutual_queue peer' = queue_log.puts (mutual_queue peer)
      (if routed peer x then app_entries (parcel_messages x) else [])"
proof -
  obtain src dst ms where x: "x = (src, dst, ms)" by (cases x)
  show ?thesis
  proof (cases "route src dst peer")
    case None
    then show ?thesis using input_packet_unrouted [OF None assms(3)] assms(3,4) by (simp add: x)
  next
    case (Some j)
    have "length (address_data (slot_remote (peer_slots peer ! j))) = 64"
      by (rule peer_wf_address [OF assms(2) route_Some(1) [OF Some]])
    then obtain al' where al': "alloc_ok al'" "input_packet nd (wire_packet src dst ms) (status, peer) =
        Some (status, client_receives j ms (peer\<lparr>peer_alloc := al'\<rparr>))"
      using input_packets_client [of "[ms]" peer src dst j nd status] assms Some
      by (auto simp: x dest!: bind_eq_SomeD)
    then show ?thesis
      using Some assms(3) by (intro exI [of _ "client_receives j ms (peer\<lparr>peer_alloc := al'\<rparr>)"])
        (simp add: x client_receives_queue)
  qed
qed

lemma app_entries_append [simp]: "app_entries (ms @ ms') = app_entries ms @ app_entries ms'"
  by (simp add: app_entries_def)

lemma puts_append: "queue_log.puts q (es @ es') = queue_log.puts (queue_log.puts q es) es'"
  by (simp add: queue_log.puts_def)

definition parcel_ok :: "parcel \<Rightarrow> bool" where
  "parcel_ok x \<longleftrightarrow> packet_ok (parcel_messages x)"

lemma parcel_packet_data:
  assumes "parcel_ok x"
  shows "length (packet_data (parcel_packet x)) = 400"
proof -
  obtain src dst ms where x: "x = (src, dst, ms)" by (cases x)
  then show ?thesis
    using assms closed_packet_fields(1) [of "concat (map wire_bytes ms)" src dst]
    by (simp add: parcel_ok_def packet_ok_def wire_packet_def)
qed

fun parcel_source :: "parcel \<Rightarrow> ptrdiff_t" where
  "parcel_source (src, dst, ms) = src"

lemma parcel_packet_source [simp]: "source_id (parcel_packet x) = parcel_source x"
  by (cases x) simp

text \<open>A client that is given packets of protocol messages stores the application messages of those it
  has a slot for, in their order.\<close>

lemma input_parcels_client:
  assumes "\<forall>x \<in> set xs. parcel_ok x \<and> parcel_source x \<noteq> - 1" and "peer_wf peer"
    and "peer_mode peer = PEER_CLIENT" and "alloc_ok (peer_alloc peer)"
  shows "\<exists>peer'. input_packets nd (map parcel_packet xs) (status, peer) = Some (status, peer') \<and>
    alloc_ok (peer_alloc peer') \<and> peer_mode peer' = PEER_CLIENT \<and> peer_wf peer' \<and> slot_ids peer' = slot_ids peer \<and>
    mutual_queue peer' = queue_log.puts (mutual_queue peer)
      (app_entries (concat (map parcel_messages (filter (routed peer) xs))))"
  using assms
proof (induction xs arbitrary: peer)
  case Nil
  then show ?case by (auto simp: app_entries_def)
next
  case (Cons x xs)
  have x: "parcel_ok x" "parcel_source x \<noteq> - 1" using Cons.prems(1) by auto
  obtain p1 where p1: "input_packet nd (parcel_packet x) (status, peer) = Some (status, p1)"
    "alloc_ok (peer_alloc p1)" "peer_mode p1 = PEER_CLIENT" "slot_ids p1 = slot_ids peer"
    "mutual_queue p1 = queue_log.puts (mutual_queue peer)
      (if routed peer x then app_entries (parcel_messages x) else [])"
    using input_parcel_client [of x peer nd status] x(1) Cons.prems(2-4) by (auto simp: parcel_ok_def)
  have wf: "peer_wf p1"
    using input_packet_wf [OF Cons.prems(2) p1(1)] parcel_packet_data [OF x(1)] x(2) by simp
  have "routed p1 = routed peer" using routed_ids [OF p1(4)] by (simp add: fun_eq_iff)
  moreover obtain p2 where "input_packets nd (map parcel_packet xs) (status, p1) = Some (status, p2)"
    "alloc_ok (peer_alloc p2)" "peer_mode p2 = PEER_CLIENT" "peer_wf p2" "slot_ids p2 = slot_ids p1"
    "mutual_queue p2 = queue_log.puts (mutual_queue p1)
      (app_entries (concat (map parcel_messages (filter (routed p1) xs))))"
    using Cons.IH [OF _ wf p1(3,2)] Cons.prems(1) by auto
  ultimately show ?case using p1 by (auto simp: puts_append [symmetric])
qed

subsection \<open>What the host has published\<close>

text \<open>The messages before \<open>queue_index\<close>: their times are final, and only they are ever sent.\<close>

definition host_log :: "'r peer_t \<Rightarrow> nat \<rightharpoonup> entry" where
  "host_log host i = (if int i < queue_index host then queue_get (mutual_queue host) i else None)"

definition log_extends :: "'r peer_t \<Rightarrow> 'r peer_t \<Rightarrow> bool" where
  "log_extends host host' \<longleftrightarrow> (\<forall>i e. host_log host i = Some e \<longrightarrow> host_log host' i = Some e)"

lemma log_extends_refl [simp]: "log_extends host host"
  by (simp add: log_extends_def)

lemma log_extends_trans: "log_extends h1 h2 \<Longrightarrow> log_extends h2 h3 \<Longrightarrow> log_extends h1 h3"
  by (simp add: log_extends_def)

lemma log_extends_same:
  "mutual_queue host' = mutual_queue host \<Longrightarrow> queue_index host' = queue_index host \<Longrightarrow> log_extends host host'"
  by (simp add: log_extends_def host_log_def)

text \<open>A queue with the same published prefix extends the log.\<close>

lemma log_extends_prefix:
  assumes "0 \<le> queue_index host" and "queue_index host \<le> queue_index host'"
    and "queue_index host \<le> int (length (mutual_queue host))"
    and "take (nat (queue_index host)) (mutual_queue host') = take (nat (queue_index host)) (mutual_queue host)"
  shows "log_extends host host'"
proof -
  let ?n = "nat (queue_index host)" and ?q = "mutual_queue host" and ?q' = "mutual_queue host'"
  have "queue_get ?q' i = queue_get ?q i" if "i < ?n" for i
  proof -
    have n: "?n \<le> length ?q" using assms(3) by simp
    have "length (take ?n ?q') = ?n" using assms(4) n by simp
    then have "i < length ?q'" using that by simp
    moreover have "?q' ! i = ?q ! i" using assms(4) that by (metis nth_take)
    ultimately show ?thesis using that n by (simp add: queue_get_def)
  qed
  then show ?thesis using assms(1,2) by (auto simp: log_extends_def host_log_def split: if_splits)
qed

text \<open>The actors in a host's log survive the 32 bits of the wire.\<close>

lemma host_log_actor:
  assumes "peer_wf host" and "peer_mode host = PEER_HOST" and "host_log host i = Some (t, a, d)"
  shows "u32_actor a = a"
proof -
  have "queue_get (mutual_queue host) i = Some (t, a, d)" using assms(3) by (simp add: host_log_def split: if_splits)
  then have i: "i < length (mutual_queue host)" "message_entry (mutual_queue host ! i) = (t, a, d)"
    by (auto simp: queue_get_def split: if_splits)
  have "message_wf (mutual_queue host ! i)" "0 \<le> message_actor (mutual_queue host ! i)"
    using assms(1,2) i(1) by (simp_all add: peer_wf_def queue_wf_def list_all_length)
  then show ?thesis using i(2) by (simp add: message_wf_def message_entry_def entry_ok_def)
qed

lemma app_entries_from_log:
  assumes "\<forall>m \<in> set ms. from_log log m" and "\<And>i t a d. log i = Some (t, a, d) \<Longrightarrow> u32_actor a = a"
  shows "\<forall>(i, e) \<in> set (app_entries ms). log i = Some e"
proof -
  have "log i = Some e" if "(i, e) \<in> set (app_entry m)" and "from_log log m" for i e m
    using that assms(2) by (cases m rule: app_entry.cases) auto
  then show ?thesis using assms(1) by (fastforce simp: app_entries_def)
qed

subsection \<open>The host's operations and the log\<close>

lemma peer_queue_log:
  assumes "peer_wf host" and "peer_mode host = PEER_HOST"
    and "peer_queue nd (Some host) (chunk_ref d) = Some (st, Some host')"
  shows "log_extends host host' \<and> peer_mode host' = PEER_HOST"
proof -
  obtain s q al where app: "queue_append (mutual_queue host) 0 (peer_actor host) (chunk_ref d) (peer_alloc host) =
      Some (s, q, al)" and host': "host' = host\<lparr>mutual_queue := q, peer_alloc := al\<rparr>"
    using assms(2,3) by (auto simp: peer_queue_def with_peer_def peer_queue_body_eq dest!: bind_eq_SomeD)
  have "log_extends host host'"
    using queue_append_Some [OF app] assms(1)
    by (intro log_extends_prefix) (auto simp: host' peer_wf_def)
  then show ?thesis using assms(2) by (simp add: host')
qed

text \<open>\<open>peer_input\<close> of a host touches neither the mutual queue nor its index, whatever it is given.\<close>

definition same_queue :: "'r peer_t \<Rightarrow> 'r peer_t \<Rightarrow> bool" where
  "same_queue p p' \<longleftrightarrow> mutual_queue p' = mutual_queue p \<and> queue_index p' = queue_index p \<and>
     peer_mode p' = peer_mode p"

lemma input_chunk_same:
  assumes "input_chunk nd j c (s, p) = Some (s', p')" and "peer_mode p = PEER_HOST"
  shows "same_queue p p'"
  using assms
  by (auto simp: input_chunk_def input_host_def same_queue_def Let_def split: if_splits dest!: bind_eq_SomeD)

lemma input_chunks_same:
  assumes "input_chunks nd j cs (s, p) = Some (s', p')" and "peer_mode p = PEER_HOST"
  shows "same_queue p p'"
  using assms
proof (induction cs arbitrary: s p)
  case Nil
  then show ?case by (simp add: same_queue_def)
next
  case (Cons c cs)
  obtain s1 p1 where one: "input_chunk nd j c (s, p) = Some (s1, p1)"
    and rest: "input_chunks nd j cs (s1, p1) = Some (s', p')"
    using Cons.prems(1) by (auto dest!: bind_eq_SomeD)
  show ?case
    using input_chunk_same [OF one Cons.prems(2)] Cons.IH [OF rest] Cons.prems(2) by (simp add: same_queue_def)
qed

lemma assign_slot_same: "assign_slot packet (s, p) = (s', p') \<Longrightarrow> same_queue p p'"
  by (auto simp: assign_slot_def same_queue_def Let_def split: list.splits if_splits option.splits)

lemma input_packet_same:
  assumes "input_packet nd packet (s, p) = Some (s', p')" and "peer_mode p = PEER_HOST"
  shows "same_queue p p'"
proof (cases "find_slot (slot_matches packet) 0 (peer_slots p)")
  case None
  then show ?thesis
    using assms(1) assign_slot_same [of packet s p s' p']
    by (auto simp: input_packet_def same_queue_def split: if_splits)
next
  case (Some j)
  show ?thesis
  proof (cases "p' = p")
    case True
    then show ?thesis by (simp add: same_queue_def)
  next
    case False
    then obtain s0 cs al where "input_chunks nd j cs (s OR s0, p\<lparr>peer_alloc := al\<rparr>) = Some (s', p')"
      using assms(1) Some by (auto simp: input_packet_def split: if_splits dest!: bind_eq_SomeD)
    then show ?thesis using input_chunks_same [of nd j cs _ "p\<lparr>peer_alloc := al\<rparr>"] assms(2)
      by (fastforce simp: same_queue_def)
  qed
qed

lemma peer_input_same:
  assumes "peer_input nd (Some p) packets = Some (st, Some p')" and "peer_mode p = PEER_HOST"
  shows "same_queue p p'"
proof -
  have "same_queue p p'" if "input_packets nd packets (s, p) = Some (s', p')" "peer_mode p = PEER_HOST" for s s' p p'
    using that
  proof (induction packets arbitrary: s p)
    case Nil
    then show ?case by (simp add: same_queue_def)
  next
    case (Cons packet packets)
    obtain s1 p1 where one: "input_packet nd packet (s, p) = Some (s1, p1)"
      and rest: "input_packets nd packets (s1, p1) = Some (s', p')"
      using Cons.prems(1) by (auto dest!: bind_eq_SomeD)
    show ?case
      using input_packet_same [OF one Cons.prems(2)] Cons.IH [OF rest] Cons.prems(2) by (simp add: same_queue_def)
  qed
  then show ?thesis
    using assms by (auto simp: peer_input_def with_peer_def peer_input_body_def dest!: bind_eq_SomeD)
qed

text \<open>A packet of protocol messages that say what the log says.\<close>

definition sound_packet :: "(nat \<rightharpoonup> entry) \<Rightarrow> peer_packet_t \<Rightarrow> bool" where
  "sound_packet log p \<longleftrightarrow>
     (\<exists>x. p = parcel_packet x \<and> parcel_ok x \<and> (\<forall>m \<in> set (parcel_messages x). from_log log m))"

lemma sound_packet_extends:
  assumes "sound_packet (host_log h) p" and "log_extends h h'"
  shows "sound_packet (host_log h') p"
proof -
  obtain x where x: "p = parcel_packet x" "parcel_ok x" "\<forall>m \<in> set (parcel_messages x). from_log (host_log h) m"
    using assms(1) by (auto simp: sound_packet_def)
  have "from_log (host_log h') m" if "from_log (host_log h) m" for m
    using that assms(2) by (cases m) (auto simp: log_extends_def)
  with x show ?thesis unfolding sound_packet_def by blast
qed

lemma sound_packets_list:
  assumes "\<forall>p \<in> set packets. sound_packet log p"
  obtains xs where "packets = map parcel_packet xs"
    and "\<forall>x \<in> set xs. parcel_ok x \<and> (\<forall>m \<in> set (parcel_messages x). from_log log m)"
proof -
  have "\<exists>xs. packets = map parcel_packet xs \<and>
      (\<forall>x \<in> set xs. parcel_ok x \<and> (\<forall>m \<in> set (parcel_messages x). from_log log m))"
    using assms
  proof (induction packets)
    case (Cons p ps)
    then obtain x xs where "p = parcel_packet x" "parcel_ok x" "\<forall>m \<in> set (parcel_messages x). from_log log m"
      "ps = map parcel_packet xs"
      "\<forall>x \<in> set xs. parcel_ok x \<and> (\<forall>m \<in> set (parcel_messages x). from_log log m)"
      by (auto simp: sound_packet_def)
    then show ?case by (intro exI [of _ "x # xs"]) simp
  qed simp
  then show ?thesis using that by blast
qed

lemma carries_sound:
  assumes "carries src dst ms packets" and "\<forall>m \<in> set ms. from_log log m" and "p \<in> set packets"
  shows "sound_packet log p"
proof -
  obtain ms' where "p = wire_packet src dst ms'" "packet_ok ms'" "set ms' \<subseteq> set ms"
    using carries_packet [OF assms(1,3)] by blast
  then show ?thesis
    using assms(2) unfolding sound_packet_def
    by (intro exI [of _ "(src, dst, ms')"]) (auto simp: parcel_ok_def)
qed

text \<open>The messages of a packet do not depend on the ids under which it is delivered.\<close>

definition same_content :: "peer_packet_t \<Rightarrow> peer_packet_t \<Rightarrow> bool" where
  "same_content p q \<longleftrightarrow> packet_size p = packet_size q \<and> packet_data p = packet_data q"

lemma same_content_refl [simp]: "same_content p p"
  by (simp add: same_content_def)

lemma sound_packet_content:
  assumes "sound_packet log q" and "same_content p q"
  shows "sound_packet log p"
proof -
  obtain src dst ms where x: "q = wire_packet src dst ms" "parcel_ok (src, dst, ms)" "\<forall>m \<in> set ms. from_log log m"
    using assms(1) by (auto simp: sound_packet_def)
  have "p = parcel_packet (source_id p, destination_id p, ms)"
    using assms(2) x(1) by (cases p) (simp add: same_content_def wire_packet_def closed_packet_def)
  then show ?thesis
    using x(2,3) unfolding sound_packet_def
    by (intro exI [of _ "(source_id p, destination_id p, ms)"]) (simp add: parcel_ok_def)
qed

text \<open>The tick of a host: it extends the log, and what it sends is in the log. A tick that is not refused
  leaves the mutual queue of \<^const>\<open>host_queue\<close>.\<close>

lemma host_send_queue:
  assumes "host_send M nd (s, p) = Some (r, p')"
  shows "mutual_queue p' = mutual_queue p"
  using assms by (cases "peer_slots p") (auto simp: host_send_def dest!: bind_eq_SomeD)

lemma peer_tick_host_queue:
  assumes "peer_wf host" and "peer_mode host = PEER_HOST" and "alloc_ok (peer_alloc host)"
    and "peer_tick M True (Some host) dt = Some (result, Some host')" and "0 \<le> dt" and "dt \<le> INT64_MAX - peer_time_local host"
  shows "mutual_queue host' = host_queue (peer_time_local host + dt) host"
proof -
  let ?p = "tick_clock dt host"
  have p: "peer_wf ?p" "peer_mode ?p = PEER_HOST" "peer_alloc ?p = peer_alloc host"
    using tick_clock_wf [OF assms(1,5)] assms(2,6) by (auto simp: tick_clock_def)
  obtain al where "host_collect True ?p = Some (KIT_OK, (ticked_host dt host)\<lparr>peer_alloc := al\<rparr>)"
    using host_collect_ok [of ?p True] p assms(3) by (auto simp: ticked_host_def)
  then have "\<exists>r. host_send M True (KIT_OK, (ticked_host dt host)\<lparr>peer_alloc := al\<rparr>) = Some (r, host')"
    using assms(4-6) p(2) by (auto simp: peer_tick_def peer_tick_body_def dest!: bind_eq_SomeD)
  then show ?thesis using host_send_queue ticked_host_sel(4) [of dt host] by fastforce
qed

lemma peer_tick_host_log:
  assumes "peer_wf host" and "peer_mode host = PEER_HOST" and "alloc_ok (peer_alloc host)"
    and "peer_tick M True (Some host) dt = Some (result, Some host')"
    and "int (length (mutual_queue host')) \<le> INT64_MAX"
  shows "log_extends host host' \<and> peer_mode host' = PEER_HOST \<and>
    (\<forall>p \<in> set (tick_packets result). sound_packet (host_log host') p)"
proof (cases "dt < 0 \<or> peer_time_local host > INT64_MAX - dt")
  case True
  then have "host' = host \<and> tick_packets result = []"
    using assms(4) by (auto simp: peer_tick_def peer_tick_body_def split: if_splits)
  then show ?thesis using assms(2) by simp
next
  case False
  let ?q = "host_queue (peer_time_local host + dt) host" and ?h = "ticked_host dt host"
  have dt: "0 \<le> dt" "dt \<le> INT64_MAX - peer_time_local host" using False by auto
  have "int (length ?q) \<le> INT64_MAX" using peer_tick_host_queue [OF assms(1-4) dt] assms(5) by simp
  from peer_tick_host [OF assms(1-3) dt this, of M]
  obtain slots' rng' news al' where len: "length news = length (peer_slots host) - 1" and
    sends: "\<forall>k < length (peer_slots host) - 1. sends ?q (endpoint_id (slot_local (peer_slots host ! 0)))
      (peer_slots ?h ! Suc k) (slots' ! k) (news ! k)" and
    run: "peer_tick M True (Some host) dt = Some (\<lparr>tick_status = KIT_OK, tick_packets = concat news\<rparr>,
      Some (?h\<lparr>peer_slots := take 1 (peer_slots ?h) @ slots', peer_mt64 := rng', peer_alloc := al'\<rparr>))" by blast
  have host': "mutual_queue host' = ?q" "queue_index host' = int (length ?q)" "peer_mode host' = PEER_HOST"
    and packets: "tick_packets result = concat news"
    using run assms(2,4) ticked_host_sel [of dt host]
    by (auto simp: ticked_host_def collected_host_def Let_def)
  then have log: "host_log host' = queue_get ?q" by (auto simp: host_log_def fun_eq_iff queue_get_def)
  have "sound_packet (host_log host') p" if p: "p \<in> set (concat news)" for p
  proof -
    obtain new where "new \<in> set news" "p \<in> set new" using p by auto
    then obtain k where k: "k < length (peer_slots host) - 1" "p \<in> set (news ! k)"
      using len by (metis in_set_conv_nth)
    then obtain src dst ms where "carries src dst ms (news ! k)" "\<forall>m \<in> set ms. from_log (queue_get ?q) m"
      using sends by (auto simp: sends_def)
    then show ?thesis unfolding log using carries_sound k(2) by blast
  qed
  moreover have "log_extends host host'"
    using assms(1) host'(1,2) by (intro log_extends_prefix) (auto simp: peer_wf_def host_queue_def)
  ultimately show ?thesis using host'(3) packets by simp
qed

subsection \<open>The steps of a session\<close>

record 'r session =
  sess_host :: "'r peer_t"
  sess_client :: "'r peer_t"
  sess_net :: "peer_packet_t set"

text \<open>What the layer that resolves addresses may do to a slot: new endpoints, without making a client's
  slot free again.\<close>

definition slot_resolved :: "peer_slot_t \<Rightarrow> peer_slot_t \<Rightarrow> bool" where
  "slot_resolved slot slot' \<longleftrightarrow> (\<exists>l r. slot' = slot\<lparr>slot_local := l, slot_remote := r\<rparr> \<and> endpoint_wf l \<and> endpoint_wf r \<and>
     (endpoint_id r = PEER_UNDEFINED \<longrightarrow> endpoint_id (slot_remote slot) = PEER_UNDEFINED))"

text \<open>
  One step: an operation of the host, of the client, or of the address layer. Calls that queue, receive or send
  are made with an allocator that grants their requests (\<open>al\<close>), in a release build. The network keeps every packet
  the host has sent: a packet that is never delivered is lost, one delivered twice is repeated, and
  the order of delivery is free. A packet is delivered with the ids its receiver knows its ends by,
  which need not be those of the sender. The host accepts packets from anywhere. The mutual queue of
  the host has at most as many messages as an index has values.
\<close>

inductive session_step :: "'r mt64_ops \<Rightarrow> 'r session \<Rightarrow> 'r session \<Rightarrow> bool" for M where
  step_host_queue: "alloc_ok al \<Longrightarrow> length d \<le> 355 \<Longrightarrow>
    peer_queue True (Some ((sess_host s)\<lparr>peer_alloc := al\<rparr>)) (chunk_ref d) = Some (st, Some host') \<Longrightarrow>
    session_step M s (s\<lparr>sess_host := host'\<rparr>)"
| step_host_input: "alloc_ok al \<Longrightarrow> \<forall>p \<in> set packets. length (packet_data p) = 400 \<and> source_id p \<noteq> - 1 \<Longrightarrow>
    peer_input True (Some ((sess_host s)\<lparr>peer_alloc := al\<rparr>)) packets = Some (st, Some host') \<Longrightarrow>
    session_step M s (s\<lparr>sess_host := host'\<rparr>)"
| step_host_tick: "alloc_ok al \<Longrightarrow>
    peer_tick M True (Some ((sess_host s)\<lparr>peer_alloc := al\<rparr>)) dt = Some (result, Some host') \<Longrightarrow>
    int (length (mutual_queue host')) \<le> INT64_MAX \<Longrightarrow>
    session_step M s (s\<lparr>sess_host := host', sess_net := sess_net s \<union> set (tick_packets result)\<rparr>)"
| step_host_open: "int (length (peer_slots (sess_host s)) + length ids) \<le> 0xffffffff \<Longrightarrow>
    peer_open True (Some ((sess_host s)\<lparr>peer_alloc := al\<rparr>)) (ids_ref ids) = Some (st, Some host') \<Longrightarrow>
    session_step M s (s\<lparr>sess_host := host'\<rparr>)"
| step_host_resolve: "list_all2 slot_resolved (peer_slots (sess_host s)) slots \<Longrightarrow>
    session_step M s (s\<lparr>sess_host := (sess_host s)\<lparr>peer_slots := slots\<rparr>\<rparr>)"
| step_client_queue: "alloc_ok al \<Longrightarrow> length d \<le> 355 \<Longrightarrow>
    peer_queue True (Some ((sess_client s)\<lparr>peer_alloc := al\<rparr>)) (chunk_ref d) = Some (st, Some client') \<Longrightarrow>
    session_step M s (s\<lparr>sess_client := client'\<rparr>)"
| step_client_input: "alloc_ok al \<Longrightarrow>
    \<forall>p \<in> set packets. source_id p \<noteq> - 1 \<and> (\<exists>q \<in> sess_net s. same_content p q) \<Longrightarrow>
    peer_input True (Some ((sess_client s)\<lparr>peer_alloc := al\<rparr>)) packets = Some (st, Some client') \<Longrightarrow>
    session_step M s (s\<lparr>sess_client := client'\<rparr>)"
| step_client_tick: "alloc_ok al \<Longrightarrow>
    peer_tick M True (Some ((sess_client s)\<lparr>peer_alloc := al\<rparr>)) dt = Some (result, Some client') \<Longrightarrow>
    session_step M s (s\<lparr>sess_client := client'\<rparr>)"
| step_client_open: "int (length (peer_slots (sess_client s)) + length ids) \<le> 0xffffffff \<Longrightarrow>
    peer_open True (Some ((sess_client s)\<lparr>peer_alloc := al\<rparr>)) (ids_ref ids) = Some (st, Some client') \<Longrightarrow>
    session_step M s (s\<lparr>sess_client := client'\<rparr>)"
| step_client_connect:
    "peer_connect True (Some ((sess_client s)\<lparr>peer_alloc := al\<rparr>)) server_id = Some (st, Some client') \<Longrightarrow>
    session_step M s (s\<lparr>sess_client := client'\<rparr>)"
| step_client_resolve: "list_all2 slot_resolved (peer_slots (sess_client s)) slots \<Longrightarrow>
    session_step M s (s\<lparr>sess_client := (sess_client s)\<lparr>peer_slots := slots\<rparr>\<rparr>)"

text \<open>A session starts with a host that may have been running for a while, a client with an empty queue,
  and nothing in the network.\<close>

definition session_start :: "'r session \<Rightarrow> bool" where
  "session_start s \<longleftrightarrow> peer_wf (sess_host s) \<and> peer_mode (sess_host s) = PEER_HOST \<and>
     peer_wf (sess_client s) \<and> peer_mode (sess_client s) = PEER_CLIENT \<and>
     mutual_queue (sess_client s) = [] \<and> sess_net s = {}"

inductive session_reach :: "'r mt64_ops \<Rightarrow> 'r session \<Rightarrow> 'r session \<Rightarrow> bool" for M where
  reach_start: "session_start s \<Longrightarrow> session_reach M s s"
| reach_step: "session_reach M s0 s \<Longrightarrow> session_step M s s' \<Longrightarrow> session_reach M s0 s'"

inductive_cases session_stepE: "session_step M s s'"

definition session_inv :: "'r session \<Rightarrow> bool" where
  "session_inv s \<longleftrightarrow> peer_wf (sess_host s) \<and> peer_mode (sess_host s) = PEER_HOST \<and>
     peer_wf (sess_client s) \<and> peer_mode (sess_client s) = PEER_CLIENT \<and>
     (\<forall>p \<in> sess_net s. sound_packet (host_log (sess_host s)) p) \<and>
     queue_log.agrees (mutual_queue (sess_client s)) (host_log (sess_host s))"

subsection \<open>The invariant\<close>

lemma host_log_alloc [simp]: "host_log (host\<lparr>peer_alloc := al\<rparr>) = host_log host"
  by (simp add: host_log_def fun_eq_iff)

lemma log_extends_alloc [simp]: "log_extends (host\<lparr>peer_alloc := al\<rparr>) host' = log_extends host host'"
  by (simp add: log_extends_def)

lemma host_queue_alloc [simp]: "host_queue t (host\<lparr>peer_alloc := al\<rparr>) = host_queue t host"
  by (simp add: host_queue_def)

lemma session_inv_host:
  assumes "session_inv s" and "peer_wf host'" and "peer_mode host' = PEER_HOST"
    and "log_extends (sess_host s) host'" and "\<forall>p \<in> new. sound_packet (host_log host') p"
  shows "session_inv (s\<lparr>sess_host := host', sess_net := sess_net s \<union> new\<rparr>)"
  using assms sound_packet_extends [OF _ assms(4)]
  by (auto simp: session_inv_def queue_log.agrees_def log_extends_def)

lemma session_inv_client:
  assumes "session_inv s" and "peer_wf client'" and "peer_mode client' = PEER_CLIENT"
    and "queue_log.agrees (mutual_queue client') (host_log (sess_host s))"
  shows "session_inv (s\<lparr>sess_client := client'\<rparr>)"
  using assms by (simp add: session_inv_def)

lemma peer_queue_client_queue:
  assumes "peer_queue nd (Some c) (chunk_ref d) = Some (st, Some c')" and "peer_mode c = PEER_CLIENT"
  shows "mutual_queue c' = mutual_queue c \<and> peer_mode c' = PEER_CLIENT"
  using assms
  by (cases "peer_slots c")
    (auto simp: peer_queue_def with_peer_def peer_queue_body_eq dest!: bind_eq_SomeD)

lemma peer_tick_client_queue:
  assumes "peer_tick M nd (Some c) dt = Some (r, Some c')" and "peer_mode c = PEER_CLIENT"
  shows "mutual_queue c' = mutual_queue c \<and> peer_mode c' = PEER_CLIENT"
proof -
  have "mutual_queue p' = mutual_queue p \<and> peer_mode p' = peer_mode p"
    if "client_send M nd p = Some (r, p')" for p p' :: "'a peer_t"
    using that by (cases "peer_slots p") (auto simp: client_send_def dest!: bind_eq_SomeD)
  moreover have "mutual_queue (tick_clock dt c) = mutual_queue c" "peer_mode (tick_clock dt c) = peer_mode c"
    by (simp_all add: tick_clock_def)
  ultimately show ?thesis
    using assms by (auto simp: peer_tick_def peer_tick_body_def Let_def split: if_splits dest!: bind_eq_SomeD)
qed

lemma slots_resolved_wf:
  assumes "peer_wf p" and "list_all2 slot_resolved (peer_slots p) slots"
  shows "peer_wf (p\<lparr>peer_slots := slots\<rparr>)"
proof -
  have "mode_slot_wf mode q slot'" if "mode_slot_wf mode q slot" and "slot_resolved slot slot'" for mode q slot slot'
    using that by (auto simp: slot_resolved_def mode_slot_wf_def slot_wf_def host_slot_wf_def client_slot_wf_def
        split: if_splits)
  moreover have len: "length slots = length (peer_slots p)" using assms(2) by (simp add: list_all2_lengthD)
  ultimately have "list_all (mode_slot_wf (peer_mode p) (mutual_queue p)) slots"
    using assms by (auto simp: peer_wf_def list_all_length list_all2_conv_all_nth)
  then show ?thesis using peer_wf_slots [OF assms(1)] assms(1) len by (simp add: peer_wf_def)
qed

text \<open>What a client in a session receives are messages of the host's log.\<close>

lemma client_input_queue:
  assumes "session_inv s" and "alloc_ok al"
    and "\<forall>p \<in> set packets. source_id p \<noteq> - 1 \<and> (\<exists>q \<in> sess_net s. same_content p q)"
    and "peer_input True (Some ((sess_client s)\<lparr>peer_alloc := al\<rparr>)) packets = Some (st, Some client')"
  shows "\<exists>es. mutual_queue client' = queue_log.puts (mutual_queue (sess_client s)) es \<and>
    (\<forall>(i, e) \<in> set es. host_log (sess_host s) i = Some e) \<and> peer_wf client' \<and> peer_mode client' = PEER_CLIENT"
proof -
  let ?log = "host_log (sess_host s)" and ?c = "(sess_client s)\<lparr>peer_alloc := al\<rparr>"
  have inv: "peer_wf ?c" "peer_mode ?c = PEER_CLIENT" "alloc_ok (peer_alloc ?c)"
    "peer_wf (sess_host s)" "peer_mode (sess_host s) = PEER_HOST"
    using assms(1,2) by (simp_all add: session_inv_def)
  have "\<forall>p \<in> set packets. sound_packet ?log p"
    using assms(1,3) sound_packet_content unfolding session_inv_def by blast
  then obtain xs where xs: "packets = map parcel_packet xs"
    "\<forall>x \<in> set xs. parcel_ok x \<and> (\<forall>m \<in> set (parcel_messages x). from_log ?log m)"
    by (rule sound_packets_list)
  let ?es = "app_entries (concat (map parcel_messages (filter (routed ?c) xs)))"
  have "\<forall>x \<in> set xs. parcel_ok x \<and> parcel_source x \<noteq> - 1" using xs assms(3) by auto
  then obtain c' where c': "input_packets True packets (KIT_OK, ?c) = Some (KIT_OK, c')" "peer_wf c'"
    "peer_mode c' = PEER_CLIENT" "mutual_queue c' = queue_log.puts (mutual_queue (sess_client s)) ?es"
    using input_parcels_client [OF _ inv(1-3), of xs True KIT_OK] xs(1) by auto
  have "client' = c'"
    using assms(4) c'(1) by (simp add: peer_input_def with_peer_def peer_input_body_def)
  moreover have "\<forall>(i, e) \<in> set ?es. ?log i = Some e"
    using xs(2) host_log_actor [OF inv(4,5)] by (intro app_entries_from_log) auto
  ultimately show ?thesis using c'(2-4) by blast
qed

lemma client_input_inv:
  assumes "session_inv s" and "alloc_ok al"
    and "\<forall>p \<in> set packets. source_id p \<noteq> - 1 \<and> (\<exists>q \<in> sess_net s. same_content p q)"
    and "peer_input True (Some ((sess_client s)\<lparr>peer_alloc := al\<rparr>)) packets = Some (st, Some client')"
  shows "session_inv (s\<lparr>sess_client := client'\<rparr>)"
proof -
  obtain es where es: "mutual_queue client' = queue_log.puts (mutual_queue (sess_client s)) es"
    "\<forall>(i, e) \<in> set es. host_log (sess_host s) i = Some e" "peer_wf client'" "peer_mode client' = PEER_CLIENT"
    using client_input_queue [OF assms] by blast
  have "queue_log.agrees (mutual_queue client') (host_log (sess_host s))"
    unfolding es(1) using assms(1) by (intro queue_log.agrees_puts es(2)) (simp add: session_inv_def)
  then show ?thesis by (rule session_inv_client [OF assms(1) es(3,4)])
qed

lemma host_step_inv:
  assumes "session_inv s" and "peer_wf host'" and "peer_mode host' = PEER_HOST" and "log_extends (sess_host s) host'"
  shows "session_inv (s\<lparr>sess_host := host'\<rparr>)"
  using session_inv_host [OF assms, of "{}"] by simp

lemma same_queue_host:
  "same_queue (h\<lparr>peer_alloc := al\<rparr>) h' \<Longrightarrow> log_extends h h' \<and> peer_mode h' = peer_mode h"
  by (simp add: same_queue_def log_extends_same)

text \<open>The operations as called through a pointer.\<close>

lemma api_wf:
  "peer_wf p \<Longrightarrow> length d \<le> 355 \<Longrightarrow> peer_queue nd (Some p) (chunk_ref d) = Some (st, Some p') \<Longrightarrow> peer_wf p'"
  "peer_wf p \<Longrightarrow> \<forall>q \<in> set packets. length (packet_data q) = 400 \<and> source_id q \<noteq> - 1 \<Longrightarrow>
    peer_input nd (Some p) packets = Some (st, Some p') \<Longrightarrow> peer_wf p'"
  "peer_wf p \<Longrightarrow> peer_tick M nd (Some p) dt = Some (r, Some p') \<Longrightarrow> peer_wf p'"
  "peer_wf p \<Longrightarrow> peer_connect nd (Some p) server_id = Some (st, Some p') \<Longrightarrow> peer_wf p'"
  "peer_wf p \<Longrightarrow> int (length (peer_slots p) + length ids) \<le> 0xffffffff \<Longrightarrow>
    peer_open nd (Some p) (ids_ref ids) = Some (st, Some p') \<Longrightarrow> peer_wf p'"
  using peer_queue_body_wf [of p nd d st p'] input_packets_wf [of p nd packets KIT_OK st p']
    peer_tick_body_wf [of p M nd dt r p'] peer_connect_body_wf [of p server_id st p']
    peer_open_body_wf [of p nd ids st p']
  by (auto simp: peer_queue_def peer_input_def peer_input_body_def peer_tick_def peer_connect_def peer_open_def with_peer_def
      dest!: bind_eq_SomeD)

lemma peer_connect_queue:
  "peer_connect nd (Some c) server_id = Some (st, Some c') \<Longrightarrow>
    mutual_queue c' = mutual_queue c \<and> peer_mode c' = peer_mode c"
  by (auto simp: peer_connect_def with_peer_def peer_connect_body_def split: option.splits)

lemma peer_open_same: "peer_open nd (Some p) (ids_ref ids) = Some (st, Some p') \<Longrightarrow> same_queue p p'"
  by (auto simp: peer_open_def with_peer_def peer_open_body_eq same_queue_def split: if_splits prod.splits option.splits
      dest!: bind_eq_SomeD)

lemma session_step_inv:
  assumes "session_step M s s'" and "session_inv s"
  shows "session_inv s' \<and> log_extends (sess_host s) (sess_host s')"
proof -
  have host: "peer_wf ((sess_host s)\<lparr>peer_alloc := al\<rparr>)" "peer_mode ((sess_host s)\<lparr>peer_alloc := al\<rparr>) = PEER_HOST"
    and client: "peer_wf ((sess_client s)\<lparr>peer_alloc := al\<rparr>)" "peer_mode ((sess_client s)\<lparr>peer_alloc := al\<rparr>) = PEER_CLIENT"
    and same: "queue_log.agrees (mutual_queue (sess_client s)) (host_log (sess_host s))"
    "peer_wf (sess_host s)" "peer_wf (sess_client s)" for al
    using assms(2) by (simp_all add: session_inv_def)
  note host_inv = host_step_inv [OF assms(2)] and client_inv = session_inv_client [OF assms(2)]
  from assms(1) show ?thesis
  proof cases
    case (step_host_queue al d st host')
    then show ?thesis
      using api_wf(1) [OF host(1)] peer_queue_log [OF host step_host_queue(4)] host_inv by simp
  next
    case (step_host_input al packets st host')
    then show ?thesis
      using api_wf(2) [OF host(1)] same_queue_host [OF peer_input_same [OF _ host(2)]] host_inv host(2) by simp
  next
    case (step_host_tick al dt result host')
    then show ?thesis
      using api_wf(3) [OF host(1)] peer_tick_host_log [OF host _ step_host_tick(3,4)] session_inv_host [OF assms(2)]
      by simp
  next
    case (step_host_open ids al st host')
    then show ?thesis
      using api_wf(5) [OF host(1)] same_queue_host [OF peer_open_same [OF step_host_open(3)]] host_inv host(2) by simp
  next
    case (step_host_resolve slots)
    have "log_extends (sess_host s) ((sess_host s)\<lparr>peer_slots := slots\<rparr>)" by (rule log_extends_same) simp_all
    then show ?thesis using step_host_resolve slots_resolved_wf [OF same(2)] host_inv host(2) by simp
  next
    case (step_client_queue al d st client')
    then show ?thesis
      using api_wf(1) [OF client(1)] peer_queue_client_queue [OF _ client(2)] same(1) client_inv by simp
  next
    case (step_client_input al packets st client')
    then show ?thesis using client_input_inv [OF assms(2)] by simp
  next
    case (step_client_tick al dt result client')
    then show ?thesis
      using api_wf(3) [OF client(1)] peer_tick_client_queue [OF _ client(2)] same(1) client_inv by simp
  next
    case (step_client_open ids al st client')
    then show ?thesis
      using api_wf(5) [OF client(1)] peer_open_same [OF step_client_open(3)] same(1) client_inv client(2)
      by (simp add: same_queue_def)
  next
    case (step_client_connect al server_id st client')
    then show ?thesis
      using api_wf(4) [OF client(1)] peer_connect_queue [OF step_client_connect(2)] same(1) client_inv client(2) by simp
  next
    case (step_client_resolve slots)
    then show ?thesis using slots_resolved_wf [OF same(3)] same(1) client_inv client(2) by simp
  qed
qed

lemma session_start_inv: "session_start s \<Longrightarrow> session_inv s"
  by (simp add: session_start_def session_inv_def queue_log.agrees_def queue_get_def)

lemma session_reach_inv:
  assumes "session_reach M s0 s"
  shows "session_inv s \<and> log_extends (sess_host s0) (sess_host s)"
  using assms
proof (induction rule: session_reach.induct)
  case (reach_start s)
  then show ?case by (simp add: session_start_inv)
next
  case (reach_step s0 s s')
  then show ?case using session_step_inv log_extends_trans by blast
qed

subsection \<open>One tick through the network\<close>

text \<open>The parcels of a tick, slot by slot: they say what the log says, and for a \<open>READY\<close> slot they
  carry every message from \<open>out_index\<close> on.\<close>

definition parcels_sound :: "(nat \<rightharpoonup> entry) \<Rightarrow> parcel list \<Rightarrow> bool" where
  "parcels_sound log xs \<longleftrightarrow>
     (\<forall>x \<in> set xs. parcel_ok x \<and> parcel_source x \<noteq> - 1 \<and> (\<forall>m \<in> set (parcel_messages x). from_log log m))"

definition parcels_cover :: "peer_message_t list \<Rightarrow> peer_slot_t \<Rightarrow> parcel list \<Rightarrow> bool" where
  "parcels_cover q slot xs \<longleftrightarrow> (slot_state slot = PEER_SLOT_READY \<longrightarrow>
     (\<forall>i. out_index slot \<le> int i \<and> i < length q \<longrightarrow>
       (\<exists>ms. (endpoint_id (slot_local slot), endpoint_id (slot_remote slot), ms) \<in> set xs \<and>
         queue_message q i \<in> set ms)))"

lemma parcels_sound_concat: "parcels_sound log (concat xss) \<longleftrightarrow> (\<forall>xs \<in> set xss. parcels_sound log xs)"
  by (auto simp: parcels_sound_def)

lemma parcels_cover_mono: "parcels_cover q slot xs \<Longrightarrow> set xs \<subseteq> set ys \<Longrightarrow> parcels_cover q slot ys"
  unfolding parcels_cover_def by blast

lemma sends_parcels:
  assumes "sends q host_id slot slot' new" and "slot_source host_id slot \<noteq> - 1"
  shows "\<exists>xs. new = map parcel_packet xs \<and> parcels_sound (queue_get q) xs \<and> parcels_cover q slot xs"
proof -
  let ?src = "slot_source host_id slot" and ?dst = "endpoint_id (slot_remote slot)"
  obtain ms where ms: "carries ?src ?dst ms new" "\<forall>m \<in> set ms. from_log (queue_get q) m"
    "slot_state slot = PEER_SLOT_READY \<longrightarrow> (\<forall>i. out_index slot \<le> int i \<and> i < length q \<longrightarrow> queue_message q i \<in> set ms)"
    using assms(1) unfolding sends_def by blast
  obtain mss where mss: "new = map (wire_packet ?src ?dst) mss" "concat mss = ms" "list_all packet_ok mss"
    using ms(1) unfolding carries_def by blast
  let ?xs = "map (\<lambda>g. (?src, ?dst, g)) mss"
  have "new = map parcel_packet ?xs" by (simp add: mss(1))
  moreover have "parcels_sound (queue_get q) ?xs"
    using ms(2) mss(2,3) assms(2) by (auto simp: parcels_sound_def parcel_ok_def list_all_iff)
  moreover have "parcels_cover q slot ?xs"
    using ms(3) mss(2) by (fastforce simp: parcels_cover_def slot_source_def)
  ultimately show ?thesis by blast
qed

lemma concat_parcels:
  assumes "\<forall>k < length news. \<exists>xs. news ! k = map parcel_packet xs \<and> P k xs"
  shows "\<exists>xss. concat news = map parcel_packet (concat xss) \<and> length xss = length news \<and>
    (\<forall>k < length news. P k (xss ! k))"
proof -
  obtain f where f: "\<And>k. k < length news \<Longrightarrow> news ! k = map parcel_packet (f k) \<and> P k (f k)"
    using assms by metis
  let ?xss = "map f [0..<length news]"
  have "news = map (map parcel_packet) ?xss" using f by (intro nth_equalityI) auto
  then have "concat news = map parcel_packet (concat ?xss)" by (metis map_concat)
  then show ?thesis using f by (intro exI [of _ ?xss]) auto
qed

lemma sends_all_parcels:
  assumes "length news = length (peer_slots host) - 1"
    and "\<forall>k < length (peer_slots host) - 1. sends q host_id (peer_slots (ticked_host dt host) ! Suc k) (slots' ! k) (news ! k)"
    and "host_id \<noteq> - 1" and "\<forall>slot \<in> set (peer_slots host). endpoint_id (slot_local slot) \<noteq> - 1"
  shows "\<exists>xs. concat news = map parcel_packet xs \<and> parcels_sound (queue_get q) xs \<and>
    (\<forall>k. 1 \<le> k \<and> k < length (peer_slots host) \<longrightarrow> parcels_cover q (peer_slots host ! k) xs)"
proof -
  let ?P = "\<lambda>k xs. parcels_sound (queue_get q) xs \<and> parcels_cover q (peer_slots host ! Suc k) xs"
  have "\<exists>xs. news ! k = map parcel_packet xs \<and> ?P k xs" if k: "k < length news" for k
  proof -
    have bound: "Suc k < length (peer_slots host)" using k assms(1) by simp
    then have "slot_source host_id (peer_slots (ticked_host dt host) ! Suc k) \<noteq> - 1"
      using assms(3,4) ticked_slot(3) [OF bound] nth_mem [OF bound] by (auto simp: slot_source_def)
    then show ?thesis
      using sends_parcels [of q host_id "peer_slots (ticked_host dt host) ! Suc k" "slots' ! k" "news ! k"]
        assms(1,2) k ticked_slot [OF bound, of dt] by (simp add: parcels_cover_def)
  qed
  then obtain xss where xss: "concat news = map parcel_packet (concat xss)" "length xss = length news"
    "\<forall>k < length news. ?P k (xss ! k)"
    using concat_parcels [of news ?P] by blast
  have "parcels_cover q (peer_slots host ! k) (concat xss)" if "1 \<le> k \<and> k < length (peer_slots host)" for k
  proof -
    have "k - 1 < length xss" "Suc (k - 1) = k" using that xss(2) assms(1) by auto
    moreover from this have "set (xss ! (k - 1)) \<subseteq> set (concat xss)" by (auto dest: nth_mem)
    ultimately show ?thesis using xss(2,3) parcels_cover_mono by metis
  qed
  then show ?thesis using xss by (intro exI [of _ "concat xss"]) (simp add: parcels_sound_concat all_set_conv_all_nth)
qed

lemma host_tick_parcels:
  assumes "peer_wf host" and "peer_mode host = PEER_HOST" and "alloc_ok (peer_alloc host)"
    and "0 \<le> dt" and "dt \<le> INT64_MAX - peer_time_local host"
    and "int (length (host_queue (peer_time_local host + dt) host)) \<le> INT64_MAX"
    and "peer_slots host \<noteq> []" and "\<forall>slot \<in> set (peer_slots host). endpoint_id (slot_local slot) \<noteq> - 1"
  shows "\<exists>result host' xs. peer_tick M True (Some host) dt = Some (result, Some host') \<and>
    tick_status result = KIT_OK \<and> mutual_queue host' = host_queue (peer_time_local host + dt) host \<and>
    host_log host' = queue_get (mutual_queue host') \<and> peer_mode host' = PEER_HOST \<and>
    tick_packets result = map parcel_packet xs \<and> parcels_sound (host_log host') xs \<and>
    (\<forall>k. 1 \<le> k \<and> k < length (peer_slots host) \<longrightarrow> parcels_cover (mutual_queue host') (peer_slots host ! k) xs)"
proof -
  let ?q = "host_queue (peer_time_local host + dt) host" and ?h = "ticked_host dt host"
  let ?id = "endpoint_id (slot_local (peer_slots host ! 0))"
  let ?n = "length (peer_slots host) - 1"
  from peer_tick_host [OF assms(1-6), of M]
  obtain slots' rng' news al' where len: "length news = ?n" and
    sends: "\<forall>k < ?n. sends ?q ?id (peer_slots ?h ! Suc k) (slots' ! k) (news ! k)" and
    run: "peer_tick M True (Some host) dt = Some (\<lparr>tick_status = KIT_OK, tick_packets = concat news\<rparr>,
      Some (?h\<lparr>peer_slots := take 1 (peer_slots ?h) @ slots', peer_mt64 := rng', peer_alloc := al'\<rparr>))" by blast
  let ?h' = "?h\<lparr>peer_slots := take 1 (peer_slots ?h) @ slots', peer_mt64 := rng', peer_alloc := al'\<rparr>"
  have h': "mutual_queue ?h' = ?q" "peer_mode ?h' = PEER_HOST" "queue_index ?h' = int (length ?q)"
    using assms(2) ticked_host_sel [of dt host] by (auto simp: ticked_host_def collected_host_def Let_def)
  then have log: "host_log ?h' = queue_get ?q" by (auto simp: host_log_def fun_eq_iff queue_get_def)
  have "?id \<noteq> - 1" using assms(7,8) by (simp add: nth_mem)
  from sends_all_parcels [OF len sends this assms(8)] obtain xs where
    "concat news = map parcel_packet xs" "parcels_sound (queue_get ?q) xs"
    "\<forall>k. 1 \<le> k \<and> k < length (peer_slots host) \<longrightarrow> parcels_cover ?q (peer_slots host ! k) xs" by blast
  then show ?thesis
    using run h' log
    by (intro exI [of _ "\<lparr>tick_status = KIT_OK, tick_packets = concat news\<rparr>"] exI [of _ ?h'] exI [of _ xs]) simp
qed

text \<open>Delivered to a client whose queue agrees with the log, sound parcels keep the agreement, and every
  message of a parcel the client has a slot for is then in its queue.\<close>

lemma app_entries_index: "M_application i e \<in> set ms \<Longrightarrow> i \<in> fst ` set (app_entries ms)"
  by (cases e) (force simp: app_entries_def)

lemma deliver_parcels:
  assumes "parcels_sound log xs" and "\<forall>i t a d. log i = Some (t, a, d) \<longrightarrow> u32_actor a = a"
    and "peer_wf client" and "peer_mode client = PEER_CLIENT" and "alloc_ok (peer_alloc client)"
    and "queue_log.agrees (mutual_queue client) log"
  shows "\<exists>client'. peer_input nd (Some client) (map parcel_packet xs) = Some (KIT_OK, Some client') \<and>
    queue_log.agrees (mutual_queue client') log \<and>
    (\<forall>i. queue_get (mutual_queue client) i \<noteq> None \<longrightarrow> queue_get (mutual_queue client') i \<noteq> None) \<and>
    (\<forall>x \<in> set xs. \<forall>i e. routed client x \<and> M_application i e \<in> set (parcel_messages x) \<longrightarrow>
      queue_get (mutual_queue client') i \<noteq> None)"
proof -
  let ?ms = "concat (map parcel_messages (filter (routed client) xs))"
  have xs: "\<forall>x \<in> set xs. parcel_ok x \<and> parcel_source x \<noteq> - 1" "\<forall>m \<in> set ?ms. from_log log m"
    using assms(1) by (auto simp: parcels_sound_def)
  obtain c' where c': "input_packets nd (map parcel_packet xs) (KIT_OK, client) = Some (KIT_OK, c')"
    "mutual_queue c' = queue_log.puts (mutual_queue client) (app_entries ?ms)"
    using input_parcels_client [OF xs(1) assms(3-5)] by blast
  have "\<forall>(i, e) \<in> set (app_entries ?ms). log i = Some e"
    by (rule app_entries_from_log [OF xs(2)]) (use assms(2) in blast)
  then have "queue_log.agrees (mutual_queue c') log"
    unfolding c'(2) by (rule queue_log.agrees_puts [OF assms(6)])
  moreover have stored: "queue_get (mutual_queue c') i \<noteq> None" if "i \<in> fst ` set (app_entries ?ms)" for i
  proof -
    have "map_of (app_entries ?ms) i \<noteq> None" using that by (simp add: map_of_eq_None_iff)
    then show ?thesis by (simp add: c'(2) queue_log.get_puts split: option.split)
  qed
  then have "queue_get (mutual_queue c') i \<noteq> None"
    if "x \<in> set xs" "routed client x" "M_application i e \<in> set (parcel_messages x)" for x i e
  proof -
    have "M_application i e \<in> set ?ms" using that unfolding set_concat set_map set_filter by blast
    then show ?thesis using stored app_entries_index by blast
  qed
  moreover have "queue_get (mutual_queue c') i \<noteq> None" if "queue_get (mutual_queue client) i \<noteq> None" for i
    using that by (auto simp: c'(2) queue_log.get_puts)
  ultimately show ?thesis
    using c'(1) by (auto simp: peer_input_def with_peer_def peer_input_body_def)
qed

text \<open>A delivery of a list of packets: each at least once, in any order.\<close>

lemma set_nths: "set js = {..<length xs} \<Longrightarrow> set (map (\<lambda>j. xs ! j) js) = set xs"
  by (simp add: lessThan_atLeast0 nth_image)

lemma deliver_cover:
  assumes "parcels_sound (queue_get q) xs" and "parcels_cover q slot xs" and "slot_state slot = PEER_SLOT_READY"
    and "\<forall>i t a d. queue_get q i = Some (t, a, d) \<longrightarrow> u32_actor a = a"
    and "peer_wf client" and "peer_mode client = PEER_CLIENT" and "alloc_ok (peer_alloc client)"
    and "route (endpoint_id (slot_local slot)) (endpoint_id (slot_remote slot)) client \<noteq> None"
    and "queue_log.agrees (mutual_queue client) (queue_get q)" and "set js = {..<length xs}"
  shows "\<exists>client'. peer_input nd (Some client) (map (\<lambda>j. map parcel_packet xs ! j) js) = Some (KIT_OK, Some client') \<and>
    (\<forall>i e. queue_get (mutual_queue client') i = Some e \<longrightarrow> queue_get q i = Some e) \<and>
    (\<forall>i. out_index slot \<le> int i \<or> queue_get (mutual_queue client) i \<noteq> None \<longrightarrow>
      queue_get (mutual_queue client') i = queue_get q i)"
proof -
  let ?ys = "map (\<lambda>j. xs ! j) js"
  note set_ys = set_nths [OF assms(10)]
  have sound: "parcels_sound (queue_get q) ?ys" using assms(1) unfolding parcels_sound_def set_ys .
  have ys: "map (\<lambda>j. map parcel_packet xs ! j) js = map parcel_packet ?ys" using assms(10) by simp
  obtain c' where c': "peer_input nd (Some client) (map parcel_packet ?ys) = Some (KIT_OK, Some c')"
    "queue_log.agrees (mutual_queue c') (queue_get q)"
    "\<forall>i. queue_get (mutual_queue client) i \<noteq> None \<longrightarrow> queue_get (mutual_queue c') i \<noteq> None"
    "\<forall>x \<in> set ?ys. \<forall>i e. routed client x \<and> M_application i e \<in> set (parcel_messages x) \<longrightarrow>
      queue_get (mutual_queue c') i \<noteq> None"
    using deliver_parcels [where nd = nd, OF sound assms(4-7,9)] by blast
  have new: "queue_get (mutual_queue c') i \<noteq> None" if i: "out_index slot \<le> int i" "i < length q" for i
  proof -
    obtain ms where ms: "(endpoint_id (slot_local slot), endpoint_id (slot_remote slot), ms) \<in> set ?ys"
      "queue_message q i \<in> set ms"
      using assms(2,3) i unfolding parcels_cover_def set_ys by blast
    show ?thesis
      using bspec [OF c'(4) ms(1)] ms(2) assms(8) unfolding queue_message_def routed.simps parcel_messages.simps by blast
  qed
  have old: "queue_get (mutual_queue c') i = Some e \<Longrightarrow> queue_get q i = Some e" for i e
    using c'(2) unfolding queue_log.agrees_def by blast
  have "queue_get (mutual_queue c') i = queue_get q i"
    if "out_index slot \<le> int i \<or> queue_get (mutual_queue client) i \<noteq> None" for i
    using that new old c'(3) by (metis not_None_eq queue_get_def)
  then show ?thesis using c'(1) old unfolding ys by blast
qed

text \<open>In a session, a tick of the host whose packets are all delivered brings a client in session up to date
  with everything that had not been sent to it.\<close>

lemma session_delivery:
  assumes "session_inv s" and "host_log (sess_host s) = queue_get (mutual_queue (sess_host s))"
    and "set (map parcel_packet xs) \<subseteq> sess_net s" and "parcels_sound (host_log (sess_host s)) xs"
    and "parcels_cover (mutual_queue (sess_host s)) slot xs" and "slot_state slot = PEER_SLOT_READY"
    and "route (endpoint_id (slot_local slot)) (endpoint_id (slot_remote slot)) (sess_client s) \<noteq> None"
  shows "\<exists>client'. session_step M s (s\<lparr>sess_client := client'\<rparr>) \<and>
    (\<forall>i. out_index slot \<le> int i \<or> queue_get (mutual_queue (sess_client s)) i \<noteq> None \<longrightarrow>
      queue_get (mutual_queue client') i = queue_get (mutual_queue (sess_host s)) i)"
proof -
  let ?c = "(sess_client s)\<lparr>peer_alloc := []\<rparr>" and ?q = "mutual_queue (sess_host s)"
  have inv: "peer_wf ?c" "peer_mode ?c = PEER_CLIENT" "alloc_ok (peer_alloc ?c)"
    "queue_log.agrees (mutual_queue ?c) (queue_get ?q)" "peer_wf (sess_host s)" "peer_mode (sess_host s) = PEER_HOST"
    using assms(1,2) by (simp_all add: session_inv_def)
  have actors: "\<forall>i t a d. queue_get ?q i = Some (t, a, d) \<longrightarrow> u32_actor a = a"
    using host_log_actor [OF inv(5,6)] unfolding assms(2) by blast
  have routed: "route (endpoint_id (slot_local slot)) (endpoint_id (slot_remote slot)) ?c \<noteq> None"
    using assms(7) by (simp add: route_def)
  have all: "set [0..<length xs] = {..<length xs}" by auto
  from deliver_cover [OF assms(4) [unfolded assms(2)] assms(5,6) actors inv(1-3) routed inv(4) all, of True]
  obtain client' where input: "peer_input True (Some ?c) (map (\<lambda>j. map parcel_packet xs ! j) [0..<length xs]) =
      Some (KIT_OK, Some client')"
    and got: "\<forall>i. out_index slot \<le> int i \<or> queue_get (mutual_queue (sess_client s)) i \<noteq> None \<longrightarrow>
      queue_get (mutual_queue client') i = queue_get ?q i"
    by auto
  have packets: "map (\<lambda>j. map parcel_packet xs ! j) [0..<length xs] = map parcel_packet xs"
    using map_nth [of "map parcel_packet xs"] by simp
  have "\<forall>p \<in> set (map parcel_packet xs). source_id p \<noteq> - 1 \<and> (\<exists>q \<in> sess_net s. same_content p q)"
  proof
    fix p assume "p \<in> set (map parcel_packet xs)"
    then have "p \<in> sess_net s" "source_id p \<noteq> - 1" using assms(3,4) by (auto simp: parcels_sound_def)
    then show "source_id p \<noteq> - 1 \<and> (\<exists>q \<in> sess_net s. same_content p q)" by (intro conjI bexI [of _ p]) simp_all
  qed
  then have "session_step M s (s\<lparr>sess_client := client'\<rparr>)"
    using step_client_input [OF alloc_ok_Nil] input unfolding packets by blast
  then show ?thesis using got by blast
qed

lemma session_catches_up:
  assumes "session_reach M s0 s" and "0 \<le> dt" and "dt \<le> INT64_MAX - peer_time_local (sess_host s)"
    and "int (length (host_queue (peer_time_local (sess_host s) + dt) (sess_host s))) \<le> INT64_MAX"
    and "\<forall>slot \<in> set (peer_slots (sess_host s)). endpoint_id (slot_local slot) \<noteq> - 1"
    and "1 \<le> k" and "k < length (peer_slots (sess_host s))" and "slot = peer_slots (sess_host s) ! k"
    and "slot_state slot = PEER_SLOT_READY"
    and "route (endpoint_id (slot_local slot)) (endpoint_id (slot_remote slot)) (sess_client s) \<noteq> None"
  shows "\<exists>result host' client'. peer_tick M True (Some ((sess_host s)\<lparr>peer_alloc := []\<rparr>)) dt = Some (result, Some host') \<and>
    mutual_queue host' = host_queue (peer_time_local (sess_host s) + dt) (sess_host s) \<and>
    session_step M s (s\<lparr>sess_host := host', sess_net := sess_net s \<union> set (tick_packets result)\<rparr>) \<and>
    session_step M (s\<lparr>sess_host := host', sess_net := sess_net s \<union> set (tick_packets result)\<rparr>)
      (s\<lparr>sess_host := host', sess_net := sess_net s \<union> set (tick_packets result), sess_client := client'\<rparr>) \<and>
    (\<forall>i. out_index slot \<le> int i \<or> queue_get (mutual_queue (sess_client s)) i \<noteq> None \<longrightarrow>
      queue_get (mutual_queue client') i = queue_get (mutual_queue host') i)"
proof -
  let ?h = "(sess_host s)\<lparr>peer_alloc := []\<rparr>"
  have inv: "peer_wf ?h" "peer_mode ?h = PEER_HOST" "alloc_ok (peer_alloc ?h)"
    using session_reach_inv [OF assms(1)] by (simp_all add: session_inv_def)
  have ne: "peer_slots ?h \<noteq> []" using assms(7) by auto
  have pre: "dt \<le> INT64_MAX - peer_time_local ?h"
    "int (length (host_queue (peer_time_local ?h + dt) ?h)) \<le> INT64_MAX"
    "\<forall>slot \<in> set (peer_slots ?h). endpoint_id (slot_local slot) \<noteq> - 1"
    using assms(3-5) by simp_all
  from host_tick_parcels [OF inv(1-3) assms(2) pre(1,2) ne pre(3), of M]
  obtain result host' xs where run: "peer_tick M True (Some ?h) dt = Some (result, Some host')"
    and queue0: "mutual_queue host' = host_queue (peer_time_local ?h + dt) ?h"
    and log: "host_log host' = queue_get (mutual_queue host')" and mode: "peer_mode host' = PEER_HOST"
    and xs: "tick_packets result = map parcel_packet xs" "parcels_sound (host_log host') xs"
    and covers: "\<forall>k. 1 \<le> k \<and> k < length (peer_slots ?h) \<longrightarrow> parcels_cover (mutual_queue host') (peer_slots ?h ! k) xs"
    by blast
  have cover: "parcels_cover (mutual_queue host') slot xs" using covers assms(6-8) by simp
  have queue: "mutual_queue host' = host_queue (peer_time_local (sess_host s) + dt) (sess_host s)"
    using queue0 by simp
  let ?s1 = "s\<lparr>sess_host := host', sess_net := sess_net s \<union> set (tick_packets result)\<rparr>"
  have step: "session_step M s ?s1" using step_host_tick [OF _ run] queue assms(4) by simp
  have inv1: "session_inv ?s1"
    using session_step_inv [OF step] session_reach_inv [OF assms(1)] by blast
  from session_delivery [OF inv1, of xs slot M] log xs cover assms(9,10)
  obtain client' where input: "session_step M ?s1 (?s1\<lparr>sess_client := client'\<rparr>)"
    and got: "\<forall>i. out_index slot \<le> int i \<or> queue_get (mutual_queue (sess_client s)) i \<noteq> None \<longrightarrow>
      queue_get (mutual_queue client') i = queue_get (mutual_queue host') i"
    by auto
  show ?thesis
    by (rule exI [of _ result], rule exI [of _ host'], rule exI [of _ client'], intro conjI)
      (use run queue step input got in simp_all)
qed

text \<open>A concrete session: the host has published its first message, which was sent to the client on slot 1;
  the client knows the slot by its id 11.\<close>

definition joined_host :: "unit peer_t" where
  "joined_host = ready_host\<lparr>queue_index := 1\<rparr>"

definition joined_client :: "unit peer_t" where
  "joined_client = example_client\<lparr>peer_slots := [(hd (peer_slots example_client))
     \<lparr>slot_remote := zero_endpoint\<lparr>endpoint_id := 11, is_id_resolved := True\<rparr>\<rparr>]\<rparr>"

definition joined_session :: "unit session" where
  "joined_session = \<lparr>sess_host = joined_host, sess_client = joined_client, sess_net = {}\<rparr>"

lemmas joined_defs = joined_session_def joined_host_def joined_client_def ready_host_def session_host_def
  assigned_slot_def example_defs

lemma joined_wf: "peer_wf joined_host" "peer_wf joined_client"
  by (simp_all add: joined_defs peer_wf_def mode_slot_wf_def queue_wf_def wf_defs is_int64_def)

lemma joined_start: "session_reach example_mt64 joined_session joined_session"
  by (rule reach_start) (simp add: session_start_def joined_wf joined_session_def, simp add: joined_defs)

lemma joined_delivered:
  "\<exists>s. session_reach example_mt64 joined_session s \<and>
     queue_get (mutual_queue (sess_client s)) 1 = Some (7, 0, [3]) \<and>
     queue_get (mutual_queue (sess_client s)) 2 = Some (7, 1, [5])"
proof -
  let ?h = "sess_host joined_session"
  have queue: "host_queue (peer_time_local ?h + 7) ?h =
      [ready_message (0, 0, [1, 2]), ready_message (7, 0, [3]), ready_message (7, 1, [5])]"
    by (simp add: host_queue_def collected_def joined_defs)
  let ?wire = "\<lambda>result. sess_net joined_session \<union> set (tick_packets result)"
  have out: "out_index (peer_slots ?h ! 1) = 1" by (simp add: joined_defs)
  have "\<exists>result host' client'. peer_tick example_mt64 True (Some ((sess_host joined_session)\<lparr>peer_alloc := []\<rparr>)) 7 = Some (result, Some host') \<and>
    mutual_queue host' = host_queue (peer_time_local (sess_host joined_session) + 7) (sess_host joined_session) \<and>
    session_step example_mt64 joined_session (joined_session\<lparr>sess_host := host', sess_net := sess_net joined_session \<union> set (tick_packets result)\<rparr>) \<and>
    session_step example_mt64 (joined_session\<lparr>sess_host := host', sess_net := sess_net joined_session \<union> set (tick_packets result)\<rparr>)
      (joined_session\<lparr>sess_host := host', sess_net := sess_net joined_session \<union> set (tick_packets result), sess_client := client'\<rparr>) \<and>
    (\<forall>i. out_index (peer_slots (sess_host joined_session) ! 1) \<le> int i \<or> queue_get (mutual_queue (sess_client joined_session)) i \<noteq> None \<longrightarrow>
      queue_get (mutual_queue client') i = queue_get (mutual_queue host') i)"
    by (rule session_catches_up [OF joined_start, where k = 1])
      (simp_all only: queue, simp_all add: joined_defs route_def)
  then show ?thesis
  proof (elim exE conjE)
    fix result host' client'
    let ?s1 = "joined_session\<lparr>sess_host := host', sess_net := ?wire result\<rparr>"
    let ?s2 = "joined_session\<lparr>sess_host := host', sess_net := ?wire result, sess_client := client'\<rparr>"
    assume q: "mutual_queue host' = host_queue (peer_time_local ?h + 7) ?h"
      and steps: "session_step example_mt64 joined_session ?s1" "session_step example_mt64 ?s1 ?s2"
      and got: "\<forall>i. out_index (peer_slots ?h ! 1) \<le> int i \<or> queue_get (mutual_queue (sess_client joined_session)) i \<noteq> None \<longrightarrow>
        queue_get (mutual_queue client') i = queue_get (mutual_queue host') i"
    have "session_reach example_mt64 joined_session ?s2" by (rule reach_step [OF reach_step [OF joined_start steps(1)] steps(2)])
    moreover have "queue_get (mutual_queue client') 1 = Some (7, 0, [3])" "queue_get (mutual_queue client') 2 = Some (7, 1, [5])"
      using got [rule_format, of 1, OF disjI1] got [rule_format, of 2, OF disjI1]
      unfolding q queue out by (simp_all add: queue_get_def message_entry_def)
    ultimately show ?thesis by (intro exI [of _ ?s2]) simp
  qed
qed

subsection \<open>Properties\<close>

text \<open>C3. Replication of the mutual queue, as a safety property of a whole session: whatever the two
  applications queue, however their ticks interleave, and whichever packets of the host the network
  loses, repeats or reorders, every message in the client's mutual queue is the message the host has
  under the same index, with its time, actor and data.\<close>

theorem session_agreement:
  assumes "session_reach M s0 s" and "queue_get (mutual_queue (sess_client s)) i = Some e"
  shows "queue_get (mutual_queue (sess_host s)) i = Some e"
proof -
  have "host_log (sess_host s) i = Some e"
    using session_reach_inv [OF assms(1)] assms(2) unfolding session_inv_def queue_log.agrees_def by blast
  then show ?thesis by (simp add: host_log_def split: if_splits)
qed

theorem session_agreement_witness:
  "\<exists>s. session_reach example_mt64 joined_session s \<and>
     queue_get (mutual_queue (sess_client s)) 2 = Some (7, 1, [5]) \<and>
     queue_get (mutual_queue (sess_host s)) 2 = Some (7, 1, [5])"
  using joined_delivered session_agreement by blast

text \<open>C10. What a host has published is never changed: a message before \<open>queue_index\<close> keeps its index,
  time, actor and data in every later state of the session.\<close>

theorem session_published_forever:
  assumes "session_reach M s0 s" and "int i < queue_index (sess_host s0)"
  shows "int i < queue_index (sess_host s) \<and>
    queue_get (mutual_queue (sess_host s)) i = queue_get (mutual_queue (sess_host s0)) i"
proof -
  have "peer_wf (sess_host s0)" "peer_mode (sess_host s0) = PEER_HOST"
    using assms(1) by (induction rule: session_reach.induct) (simp_all add: session_start_def)
  then have "i < length (mutual_queue (sess_host s0))" "is_ready (mutual_queue (sess_host s0) ! i)"
    using assms(2) by (auto simp: peer_wf_def queue_wf_def list_all_length)
  then obtain e where "host_log (sess_host s0) i = Some e"
    using assms(2) by (simp add: host_log_def queue_get_def)
  moreover from this have "host_log (sess_host s) i = Some e"
    using session_reach_inv [OF assms(1)] unfolding log_extends_def by blast
  ultimately show ?thesis by (auto simp: host_log_def split: if_splits)
qed

theorem session_published_forever_witness:
  "\<exists>s. session_reach example_mt64 joined_session s \<and> mutual_queue (sess_client s) \<noteq> [] \<and>
     int 0 < queue_index (sess_host s) \<and>
     queue_get (mutual_queue (sess_host s)) 0 = queue_get (mutual_queue (sess_host joined_session)) 0"
proof -
  obtain s where s: "session_reach example_mt64 joined_session s" "mutual_queue (sess_client s) \<noteq> []"
    using joined_delivered by (force simp: queue_get_def split: if_splits)
  have "int 0 < queue_index (sess_host joined_session)" by (simp add: joined_defs)
  from session_published_forever [OF s(1) this] s show ?thesis by blast
qed

text \<open>C13. A client in session can catch up with what it has not been sent yet: in every reachable state whose clock and
  queue stay within 64 bits, a tick of the host and then the delivery of its packets are two steps of the session,
  after which the client has, as the host has them, all messages from the host's \<open>out_index\<close> for it on, those of this tick
  included, and all it had before. (A message that was sent earlier and lost is not among them; when the client has
  all earlier ones, it has the whole mutual queue.)\<close>

theorem session_can_catch_up:
  assumes "session_reach M s0 s" and "0 \<le> dt" and "dt \<le> INT64_MAX - peer_time_local (sess_host s)"
    and "int (length (host_queue (peer_time_local (sess_host s) + dt) (sess_host s))) \<le> INT64_MAX"
    and "\<forall>slot \<in> set (peer_slots (sess_host s)). endpoint_id (slot_local slot) \<noteq> - 1"
    and "1 \<le> k" and "k < length (peer_slots (sess_host s))" and "slot = peer_slots (sess_host s) ! k"
    and "slot_state slot = PEER_SLOT_READY"
    and "route (endpoint_id (slot_local slot)) (endpoint_id (slot_remote slot)) (sess_client s) \<noteq> None"
  shows "\<exists>result host' client'. peer_tick M True (Some ((sess_host s)\<lparr>peer_alloc := []\<rparr>)) dt = Some (result, Some host') \<and>
    mutual_queue host' = host_queue (peer_time_local (sess_host s) + dt) (sess_host s) \<and>
    session_step M s (s\<lparr>sess_host := host', sess_net := sess_net s \<union> set (tick_packets result)\<rparr>) \<and>
    session_step M (s\<lparr>sess_host := host', sess_net := sess_net s \<union> set (tick_packets result)\<rparr>)
      (s\<lparr>sess_host := host', sess_net := sess_net s \<union> set (tick_packets result), sess_client := client'\<rparr>) \<and>
    (\<forall>i. out_index slot \<le> int i \<or> queue_get (mutual_queue (sess_client s)) i \<noteq> None \<longrightarrow>
      queue_get (mutual_queue client') i = queue_get (mutual_queue host') i)"
  by (rule session_catches_up [OF assms])

theorem session_can_catch_up_witness:
  "\<exists>result host' client'. peer_tick example_mt64 True (Some ((sess_host joined_session)\<lparr>peer_alloc := []\<rparr>)) 7 = Some (result, Some host') \<and>
    mutual_queue host' = host_queue (peer_time_local (sess_host joined_session) + 7) (sess_host joined_session) \<and>
    session_step example_mt64 joined_session (joined_session\<lparr>sess_host := host', sess_net := sess_net joined_session \<union> set (tick_packets result)\<rparr>) \<and>
    session_step example_mt64 (joined_session\<lparr>sess_host := host', sess_net := sess_net joined_session \<union> set (tick_packets result)\<rparr>)
      (joined_session\<lparr>sess_host := host', sess_net := sess_net joined_session \<union> set (tick_packets result), sess_client := client'\<rparr>) \<and>
    (\<forall>i. out_index (peer_slots (sess_host joined_session) ! 1) \<le> int i \<or> queue_get (mutual_queue (sess_client joined_session)) i \<noteq> None \<longrightarrow>
      queue_get (mutual_queue client') i = queue_get (mutual_queue host') i)"
  by (rule session_can_catch_up [OF joined_start, where k = 1])
    (simp_all add: joined_defs route_def host_queue_def collected_def)

text \<open>C5. One tick through the network: when the packets of a host's tick reach a client in session, in any
  order and any number of times but each at least once, the client accepts them all. Its queue then
  agrees with the host's, and it holds every message the host had not sent to it before; so a client
  that held everything sent before has the whole mutual queue of the host.\<close>

theorem tick_reaches_client:
  assumes "peer_wf host" and "peer_mode host = PEER_HOST" and "alloc_ok (peer_alloc host)"
    and "0 \<le> dt" and "dt \<le> INT64_MAX - peer_time_local host"
    and "int (length (host_queue (peer_time_local host + dt) host)) \<le> INT64_MAX"
    and "\<forall>slot \<in> set (peer_slots host). endpoint_id (slot_local slot) \<noteq> - 1"
    and "1 \<le> k" and "k < length (peer_slots host)" and "slot_state (peer_slots host ! k) = PEER_SLOT_READY"
    and "peer_wf client" and "peer_mode client = PEER_CLIENT" and "alloc_ok (peer_alloc client)"
    and "route (endpoint_id (slot_local (peer_slots host ! k))) (endpoint_id (slot_remote (peer_slots host ! k))) client \<noteq> None"
    and "\<forall>i e. queue_get (mutual_queue client) i = Some e \<longrightarrow> host_log host i = Some e"
  shows "\<exists>result host'. peer_tick M True (Some host) dt = Some (result, Some host') \<and>
    (\<forall>js. set js = {..<length (tick_packets result)} \<longrightarrow>
      (\<exists>client'. peer_input nd (Some client) (map (\<lambda>j. tick_packets result ! j) js) = Some (KIT_OK, Some client') \<and>
        (\<forall>i e. queue_get (mutual_queue client') i = Some e \<longrightarrow> queue_get (mutual_queue host') i = Some e) \<and>
        (\<forall>i. out_index (peer_slots host ! k) \<le> int i \<or> queue_get (mutual_queue client) i \<noteq> None \<longrightarrow>
          queue_get (mutual_queue client') i = queue_get (mutual_queue host') i)))"
proof -
  have ne: "peer_slots host \<noteq> []" using assms(9) by auto
  obtain result host' xs where run: "peer_tick M True (Some host) dt = Some (result, Some host')"
    and queue: "mutual_queue host' = host_queue (peer_time_local host + dt) host"
    and log: "host_log host' = queue_get (mutual_queue host')" and mode: "peer_mode host' = PEER_HOST"
    and xs: "tick_packets result = map parcel_packet xs" "parcels_sound (host_log host') xs"
    and cover: "parcels_cover (mutual_queue host') (peer_slots host ! k) xs"
    using host_tick_parcels [OF assms(1-6) ne assms(7), of M] assms(8,9) by blast
  have "log_extends host host'" using peer_tick_host_log [OF assms(1-3) run] queue assms(6) by simp
  then have agrees: "queue_log.agrees (mutual_queue client) (host_log host')"
    using assms(15) by (simp add: queue_log.agrees_def log_extends_def)
  have actors: "u32_actor a = a" if "host_log host' i = Some (t, a, d)" for i t a d
    using host_log_actor [OF api_wf(3) [OF assms(1) run] mode that] .
  show ?thesis
    using run deliver_cover [OF _ cover assms(10) _ assms(11-14)] xs agrees actors unfolding log by auto
qed

theorem tick_reaches_client_witness:
  "\<exists>result host'. peer_tick example_mt64 True (Some joined_host) 7 = Some (result, Some host') \<and>
    (\<forall>js. set js = {..<length (tick_packets result)} \<longrightarrow>
      (\<exists>client'. peer_input False (Some (joined_client\<lparr>mutual_queue := [ready_message (0, 0, [1, 2])]\<rparr>))
          (map (\<lambda>j. tick_packets result ! j) js) = Some (KIT_OK, Some client') \<and>
        (\<forall>i e. queue_get (mutual_queue client') i = Some e \<longrightarrow> queue_get (mutual_queue host') i = Some e) \<and>
        (\<forall>i. out_index (peer_slots joined_host ! 1) \<le> int i \<or>
            queue_get (mutual_queue (joined_client\<lparr>mutual_queue := [ready_message (0, 0, [1, 2])]\<rparr>)) i \<noteq> None \<longrightarrow>
          queue_get (mutual_queue client') i = queue_get (mutual_queue host') i)))"
proof (rule tick_reaches_client [OF joined_wf(1)])
  show "peer_wf (joined_client\<lparr>mutual_queue := [ready_message (0, 0, [1, 2])]\<rparr>)"
    by (simp add: joined_defs peer_wf_def mode_slot_wf_def queue_wf_def wf_defs is_int64_def)
  show "\<forall>i e. queue_get (mutual_queue (joined_client\<lparr>mutual_queue := [ready_message (0, 0, [1, 2])]\<rparr>)) i = Some e \<longrightarrow>
      host_log joined_host i = Some e"
    by (auto simp: joined_defs host_log_def queue_get_def split: if_splits)
qed (simp_all add: joined_defs route_def host_queue_def collected_def)

end
