(* ===== verification/Peer_Nodes.thy ===== *)
theory Peer_Nodes
  imports Peer_Pool Peer_Session
begin

text \<open>
  The nodes of a socket pool as a directory of remote addresses. \<open>find_pool_node\<close> is shown to intern
  addresses: equal addresses get equal ids, and an id never changes its meaning. Resolving the
  endpoints of a peer's slots is shown to be a step of the address layer of a session
  (\<open>slot_resolved\<close>), and opening sockets to be all or nothing.
\<close>

subsection \<open>The nodes as a directory\<close>

text \<open>
  The contract of a directory that gives ids to keys: interning a key gives an id that stands for it,
  and keeps what every other id stands for. Inside, what a client of a directory relies on: an id
  never changes its meaning, a key that has been given an id gets the same one ever after, and
  different keys have different ids.
\<close>

locale directory =
  fixes meaning :: "'d \<Rightarrow> nat \<Rightarrow> 'k option"
    and intern :: "'d \<Rightarrow> 'k \<Rightarrow> nat \<times> 'd"
  assumes intern_meaning: "meaning (snd (intern d k)) (fst (intern d k)) = Some k"
    and intern_known: "meaning d i = Some k \<Longrightarrow> snd (intern d k) = d"
    and intern_other: "j \<noteq> fst (intern d k) \<Longrightarrow> meaning (snd (intern d k)) j = meaning d j"
    and intern_id: "meaning d (fst (intern d k)) = None \<or> snd (intern d k) = d"
begin

definition interns :: "'d \<Rightarrow> 'k list \<Rightarrow> 'd" where
  "interns d ks = fold (\<lambda>k d. snd (intern d k)) ks d"

definition unique :: "'d \<Rightarrow> bool" where
  "unique d \<longleftrightarrow> (\<forall>i j k. meaning d i = Some k \<and> meaning d j = Some k \<longrightarrow> i = j)"

lemma interns_simps [simp]: "interns d [] = d" "interns d (k # ks) = interns (snd (intern d k)) ks"
  by (simp_all add: interns_def)

lemma intern_keeps: "meaning d i = Some k' \<Longrightarrow> meaning (snd (intern d k)) i = Some k'"
  using intern_id [of d k] intern_other [of i d k] by (cases "i = fst (intern d k)") auto

lemma interns_keeps: "meaning d i = Some k' \<Longrightarrow> meaning (interns d ks) i = Some k'"
  by (induction ks arbitrary: d) (auto intro: intern_keeps)

lemma unique_intern:
  assumes "unique d"
  shows "unique (snd (intern d k))"
proof (cases "snd (intern d k) = d")
  case False
  have fresh: "meaning d i \<noteq> Some k" for i using False intern_known by blast
  show ?thesis
    unfolding unique_def
  proof (intro allI impI, elim conjE)
    fix i j k'
    assume "meaning (snd (intern d k)) i = Some k'" and "meaning (snd (intern d k)) j = Some k'"
    then show "i = j"
      using assms fresh intern_meaning [of d k] intern_other [of _ d k] unfolding unique_def by (metis option.inject)
  qed
qed (simp add: assms)

lemma unique_interns: "unique d \<Longrightarrow> unique (interns d ks)"
  by (induction ks arbitrary: d) (auto intro: unique_intern)

lemma intern_again:
  assumes "unique d" and "meaning d i = Some k"
  shows "intern (interns d ks) k = (i, interns d ks)"
proof -
  let ?d = "interns d ks"
  have i: "meaning ?d i = Some k" by (rule interns_keeps [OF assms(2)])
  then have "snd (intern ?d k) = ?d" by (rule intern_known)
  moreover from this have "meaning ?d (fst (intern ?d k)) = Some k" using intern_meaning [of ?d k] by simp
  then have "fst (intern ?d k) = i" using i unique_interns [OF assms(1)] unfolding unique_def by blast
  ultimately show ?thesis by (metis prod.collapse)
qed

end

text \<open>What a remote node stands for: protocol, port and address.\<close>

type_synonym node_key = "int \<times> port_t \<times> byte list"

definition remote_key :: "peer_node_t \<Rightarrow> node_key option" where
  "remote_key node =
     (if node_socket node = INVALID_SOCKET \<and> local_port node = PEER_ANY_PORT
      then Some (node_protocol node, remote_port node, take (nat (remote_address_size node)) (remote_address node))
      else None)"

definition node_key :: "peer_nodes_t \<Rightarrow> nat \<Rightarrow> node_key option" where
  "node_key nodes i = (if i < length nodes then remote_key (nodes ! i) else None)"

text \<open>The node that is made for an address, and the first node of one.\<close>

fun remote_node :: "node_key \<Rightarrow> peer_node_t" where
  "remote_node (protocol, port, bs) =
     \<lparr>node_socket = INVALID_SOCKET, node_protocol = protocol, local_port = PEER_ANY_PORT, remote_port = port,
      remote_address_size = int (length bs), remote_address = bs @ replicate (62 - length bs) 0\<rparr>"

fun key_index :: "node_key \<Rightarrow> nat \<Rightarrow> peer_nodes_t \<Rightarrow> nat option" where
  "key_index key i [] = None"
| "key_index key i (node # nodes) = (if remote_key node = Some key then Some i else key_index key (Suc i) nodes)"

definition intern_node :: "peer_nodes_t \<Rightarrow> node_key \<Rightarrow> nat \<times> peer_nodes_t" where
  "intern_node nodes key =
     (case key_index key 0 nodes of Some i \<Rightarrow> (i, nodes) | None \<Rightarrow> (length nodes, nodes @ [remote_node key]))"

lemma remote_key_node [simp]: "remote_key (remote_node key) = Some key"
  by (cases key) (simp add: remote_key_def)

lemma key_index_Some:
  "key_index key i nodes = Some j \<Longrightarrow> i \<le> j \<and> j < i + length nodes \<and> remote_key (nodes ! (j - i)) = Some key"
proof (induction nodes arbitrary: i)
  case (Cons node nodes)
  show ?case
  proof (cases "remote_key node = Some key")
    case False
    then have "key_index key (Suc i) nodes = Some j" using Cons.prems by simp
    from Cons.IH [OF this] show ?thesis by (cases "j - i") (auto simp: Suc_le_eq less_iff_Suc_add)
  qed (use Cons.prems in simp)
qed simp

lemma key_index_None: "key_index key i nodes = None \<longleftrightarrow> (\<forall>node \<in> set nodes. remote_key node \<noteq> Some key)"
  by (induction nodes arbitrary: i) auto

lemma intern_node_cases:
  "(\<exists>i. intern_node nodes key = (i, nodes) \<and> node_key nodes i = Some key) \<or>
   intern_node nodes key = (length nodes, nodes @ [remote_node key]) \<and> (\<forall>i. node_key nodes i \<noteq> Some key)"
proof (cases "key_index key 0 nodes")
  case None
  then have "\<forall>node \<in> set nodes. remote_key node \<noteq> Some key" by (simp add: key_index_None)
  then have "\<forall>i. node_key nodes i \<noteq> Some key" by (auto simp: node_key_def)
  then show ?thesis using None by (simp add: intern_node_def)
next
  case (Some i)
  then show ?thesis using key_index_Some [OF Some] by (auto simp: intern_node_def node_key_def)
qed

lemma node_key_append: "node_key (nodes @ new) i = (if i < length nodes then node_key nodes i else node_key new (i - length nodes))"
  by (auto simp: node_key_def nth_append)

interpretation nodes: directory node_key intern_node
proof
  fix nodes k
  show "node_key (snd (intern_node nodes k)) (fst (intern_node nodes k)) = Some k"
    using intern_node_cases [of nodes k] by (auto simp: node_key_append node_key_def split: if_splits)
  show "snd (intern_node nodes k) = nodes" if "node_key nodes i = Some k" for i
    using intern_node_cases [of nodes k] that by auto
  show "node_key (snd (intern_node nodes k)) j = node_key nodes j" if "j \<noteq> fst (intern_node nodes k)" for j
    using intern_node_cases [of nodes k] that by (auto simp: node_key_def nth_append)
  show "node_key nodes (fst (intern_node nodes k)) = None \<or> snd (intern_node nodes k) = nodes"
    using intern_node_cases [of nodes k] by (auto simp: node_key_def)
qed

subsection \<open>Finding a node is interning its address\<close>

definition node_wf :: "peer_node_t \<Rightarrow> bool" where
  "node_wf node \<longleftrightarrow> length (remote_address node) = 62 \<and> 0 \<le> remote_address_size node \<and> remote_address_size node \<le> 62 \<and>
     list_all (\<lambda>b. b = 0) (drop (nat (remote_address_size node)) (remote_address node))"

lemma remote_node_wf: "length bs \<le> 62 \<Longrightarrow> node_wf (remote_node (protocol, port, bs))"
  by (simp add: node_wf_def list_all_iff)

lemma node_matches_eq:
  assumes "node_wf node" and "0 \<le> n" and "n \<le> int (length bs)"
  shows "node_matches protocol port n bs node = Some (remote_key node = Some (protocol, port, take (nat n) bs))"
proof -
  have "take (nat (remote_address_size node)) (remote_address node) = take (nat n) bs \<Longrightarrow> remote_address_size node = n"
    using assms by (auto simp: node_wf_def dest!: arg_cong [where f = length])
  then show ?thesis
    using assms by (auto simp: node_matches_def ar_equal_def remote_key_def node_wf_def)
qed

lemma node_matches_outside:
  assumes "node_wf node" and "\<not> (0 \<le> n \<and> n \<le> int (length bs))" and "node_matches protocol port n bs node = Some b"
  shows "\<not> b"
  using assms by (auto simp: node_matches_def ar_equal_def node_wf_def split: if_splits)

lemma search_nodes_eq:
  assumes "list_all node_wf nodes" and "0 \<le> n" and "n \<le> int (length bs)"
  shows "search_nodes (node_matches protocol port n bs) i nodes = Some (key_index (protocol, port, take (nat n) bs) i nodes)"
  using assms(1) by (induction nodes arbitrary: i) (simp_all add: node_matches_eq [OF _ assms(2,3)])

lemma search_nodes_outside:
  assumes "list_all node_wf nodes" and "\<not> (0 \<le> n \<and> n \<le> int (length bs))"
    and "search_nodes (node_matches protocol port n bs) i nodes = Some r"
  shows "r = None"
  using assms(1,3)
  by (induction nodes arbitrary: i) (auto dest!: bind_eq_SomeD node_matches_outside [OF _ assms(2)] split: if_splits)

text \<open>The address of a new node: the copied characters, then the zeros of \<open>memset\<close>.\<close>

lemma memcpy_zero_node:
  "c_memcpy (remote_address zero_node) 0 bs 0 n =
    (if 0 \<le> n \<and> n \<le> 62 \<and> n \<le> int (length bs) then Some (take (nat n) bs @ replicate (62 - nat n) 0) else None)"
  by (auto simp: c_memcpy_def zero_node_def)

lemma find_pool_node_eq:
  assumes "list_all node_wf (pool_nodes pool)" and "0 < n" and "n \<le> 62"
    and "address_bytes (pool_nodes pool) addr = Some bs" and "n \<le> int (length bs)" and "alloc_ok (pool_alloc pool)"
    and "\<And>j. addr = In_node j \<Longrightarrow> \<not> da_moves os (length (pool_nodes pool) + 1)"
    and "intern_node (pool_nodes pool) (PEER_UDP_IPv4, port, take (nat n) bs) = (i, nodes')"
  shows "\<exists>al'. alloc_ok al' \<and> find_pool_node os nd pool PEER_UDP_IPv4 port n addr =
    Some (KIT_OK, Some (int i), pool\<lparr>pool_nodes := nodes', pool_alloc := al'\<rparr>)"
proof -
  let ?key = "(PEER_UDP_IPv4, port, take (nat n) bs)" and ?k = "length (pool_nodes pool)"
  have search: "search_nodes (node_matches PEER_UDP_IPv4 port n bs) 0 (pool_nodes pool) = Some (key_index ?key 0 (pool_nodes pool))"
    using assms(1,2,5) by (intro search_nodes_eq) simp_all
  show ?thesis
  proof (cases "key_index ?key 0 (pool_nodes pool)")
    case (Some j)
    then show ?thesis
      using assms(2,4,6,8) search
      by (intro exI [of _ "pool_alloc pool"]) (simp add: find_pool_node_def intern_node_def)
  next
    case None
    obtain f al' where al': "da_resize (\<lambda>_ _. zero_node) (?k + 1) (pool_nodes pool) (pool_alloc pool) =
        (pool_nodes pool @ map (\<lambda>_. zero_node) [?k..<?k + 1], al')" "alloc_ok al'"
      using assms(6) by (rule da_resize_ok [where fresh = "\<lambda>_ _. zero_node" and n = "?k + 1" and xs = "pool_nodes pool"]) auto
    moreover have "(case addr of In_node j \<Rightarrow> if da_moves os (?k + 1) then None else Some bs | In_buffer _ \<Rightarrow> Some bs) = Some bs"
      using assms(7) by (auto split: address_ptr.split)
    moreover have "i = ?k" "nodes' = pool_nodes pool @ [remote_node ?key]" using None assms(8) by (simp_all add: intern_node_def)
    ultimately show ?thesis
      using assms(2-5) search None
      by (intro exI [of _ al']) (simp add: find_pool_node_def memcpy_zero_node min_absorb2)
  qed
qed

text \<open>The second half of \<open>find_pool_node\<close>, when no node matches.\<close>

lemma find_pool_node_new:
  assumes "find_pool_node os nd pool PEER_UDP_IPv4 port n addr = Some (s, found, pool')"
    and "address_bytes (pool_nodes pool) addr = Some bs"
    and "search_nodes (node_matches PEER_UDP_IPv4 port n bs) 0 (pool_nodes pool) = Some None"
  shows "(s = PEER_ERROR_BAD_ALLOC \<and> pool_nodes pool' = pool_nodes pool) \<or>
    (s = KIT_OK \<and> 0 \<le> n \<and> n \<le> 62 \<and> n \<le> int (length bs) \<and> found = Some (int (length (pool_nodes pool))) \<and>
      pool_nodes pool' = pool_nodes pool @ [remote_node (PEER_UDP_IPv4, port, take (nat n) bs)])"
proof -
  let ?k = "length (pool_nodes pool)"
  obtain nodes1 al1 where res: "da_resize (\<lambda>_ _. zero_node) (?k + 1) (pool_nodes pool) (pool_alloc pool) = (nodes1, al1)"
    by fastforce
  show ?thesis
  proof (cases "length nodes1 = ?k + 1")
    case False
    then have "nodes1 = pool_nodes pool" using da_resize_cases [OF res] by auto
    then show ?thesis
      using assms False res by (auto simp: find_pool_node_def c_assert_bind Let_def split: if_splits)
  next
    case True
    then have "nodes1 = pool_nodes pool @ [zero_node]" using da_resize_cases [OF res] by auto
    then show ?thesis
      using assms res
      by (auto simp: find_pool_node_def c_assert_bind Let_def memcpy_zero_node min_absorb2
          split: if_splits address_ptr.splits dest!: bind_eq_SomeD)
  qed
qed

text \<open>Whatever the address, and also when memory runs out: an error leaves the nodes as they are, and success
  is interning.\<close>

lemma find_pool_node_cases:
  assumes "list_all node_wf (pool_nodes pool)" and "find_pool_node os nd pool protocol port n addr = Some (s, found, pool')"
  shows "(s \<noteq> KIT_OK \<and> pool_nodes pool' = pool_nodes pool) \<or>
    (s = KIT_OK \<and> protocol = PEER_UDP_IPv4 \<and> (\<exists>bs. address_bytes (pool_nodes pool) addr = Some bs \<and>
      0 \<le> n \<and> n \<le> 62 \<and> n \<le> int (length bs) \<and>
      found = Some (int (fst (intern_node (pool_nodes pool) (protocol, port, take (nat n) bs)))) \<and>
      pool_nodes pool' = snd (intern_node (pool_nodes pool) (protocol, port, take (nat n) bs))))"
proof (cases "protocol = PEER_UDP_IPv4")
  case False
  then show ?thesis using assms(2) by (auto simp: find_pool_node_def dest!: bind_eq_SomeD)
next
  case True
  obtain bs r where bs: "address_bytes (pool_nodes pool) addr = Some bs"
    and r: "search_nodes (node_matches protocol port n bs) 0 (pool_nodes pool) = Some r"
    using assms(2) True by (auto simp: find_pool_node_def dest!: bind_eq_SomeD)
  let ?key = "(protocol, port, take (nat n) bs)" and ?k = "length (pool_nodes pool)"
  show ?thesis
  proof (cases r)
    case (Some i)
    then have n: "0 \<le> n" "n \<le> int (length bs)" using search_nodes_outside [OF assms(1) _ r] by auto
    then have key: "key_index ?key 0 (pool_nodes pool) = Some i" using search_nodes_eq [OF assms(1) n] r Some by simp
    from key_index_Some [OF key] have i: "i < ?k" "remote_key (pool_nodes pool ! i) = Some ?key" by auto
    then have "node_wf (pool_nodes pool ! i)" using assms(1) by (simp add: list_all_length)
    then have "n \<le> 62"
      using i(2) n by (auto simp: remote_key_def node_wf_def split: if_splits dest!: arg_cong [where f = length])
    then show ?thesis using assms(2) bs r Some True n key by (auto simp: find_pool_node_def intern_node_def c_assert_bind split: if_splits)
  next
    case None
    have "intern_node (pool_nodes pool) ?key = (?k, pool_nodes pool @ [remote_node ?key])"
      if "0 \<le> n" "n \<le> int (length bs)"
      using search_nodes_eq [OF assms(1) that, of protocol port 0] r None by (simp add: intern_node_def)
    then show ?thesis using find_pool_node_new [OF assms(2) [unfolded True] bs] r None True bs by fastforce
  qed
qed

text \<open>A well-formed pool: every address fits its array, and no two nodes stand for the same address.\<close>

definition pool_wf :: "peer_nodes_t \<Rightarrow> bool" where
  "pool_wf nodes \<longleftrightarrow> list_all node_wf nodes \<and> nodes.unique nodes"

lemma intern_node_append: "\<exists>new. snd (intern_node nodes key) = nodes @ new \<and> (\<forall>node \<in> set new. node_socket node = - 1)"
  using intern_node_cases [of nodes key] by (cases key) auto

lemma intern_node_id: "fst (intern_node nodes key) < length (snd (intern_node nodes key))"
  using intern_node_cases [of nodes key] by (auto simp: node_key_def split: if_splits)

lemma find_pool_node_wf:
  assumes "pool_wf (pool_nodes pool)" and "find_pool_node os nd pool protocol port n addr = Some (s, found, pool')"
  shows "pool_wf (pool_nodes pool') \<and>
    (\<exists>new. pool_nodes pool' = pool_nodes pool @ new \<and> (\<forall>node \<in> set new. node_socket node = - 1)) \<and>
    (s = KIT_OK \<longrightarrow> (\<exists>i < length (pool_nodes pool'). found = Some (int i)))"
proof -
  have wf: "list_all node_wf (pool_nodes pool)" using assms(1) by (simp add: pool_wf_def)
  from find_pool_node_cases [OF wf assms(2)] show ?thesis
  proof (elim disjE conjE exE)
    assume "s \<noteq> KIT_OK" "pool_nodes pool' = pool_nodes pool"
    then show ?thesis using assms(1) by simp
  next
    fix bs :: "byte list"
    let ?key = "(protocol, port, take (nat n) bs)"
    assume "s = KIT_OK" and n: "0 \<le> n" "n \<le> 62" "n \<le> int (length bs)"
      and found: "found = Some (int (fst (intern_node (pool_nodes pool) ?key)))"
        "pool_nodes pool' = snd (intern_node (pool_nodes pool) ?key)"
    have "list_all node_wf (snd (intern_node (pool_nodes pool) ?key))"
      using intern_node_cases [of "pool_nodes pool" ?key] wf n remote_node_wf [of "take (nat n) bs"] by auto
    then have "pool_wf (pool_nodes pool')"
      using assms(1) nodes.unique_intern [of "pool_nodes pool" ?key] by (simp add: pool_wf_def found(2))
    then show ?thesis using found intern_node_append [of "pool_nodes pool" ?key] intern_node_id by auto
  qed
qed

subsection \<open>Resolving is a step of the address layer\<close>

lemma write_port_eq:
  assumes "3 \<le> length data"
  shows "write_port data protocol port = Some (word_of_int protocol # ucast port # ucast (drop_bit 8 port) # drop 3 data)"
proof -
  obtain b0 b1 b2 rest where "data = b0 # b1 # b2 # rest" using assms by (auto simp: numeral_3_eq_3 Suc_le_length_iff)
  then show ?thesis by (simp add: write_port_def c_store_def ucast_low_byte)
qed

lemma read_port_eq:
  "read_port (word_of_int protocol # ucast port # ucast (drop_bit 8 port) # rest) = Some (uint (word_of_int protocol :: byte), port)"
  by (simp add: read_port_def c_load_def word_join16)

lemma slot_resolved_refl: "endpoint_wf (slot_local slot) \<Longrightarrow> endpoint_wf (slot_remote slot) \<Longrightarrow> slot_resolved slot slot"
  unfolding slot_resolved_def by (rule exI [of _ "slot_local slot"], rule exI [of _ "slot_remote slot"]) simp

text \<open>Changing one endpoint.\<close>

lemma slot_resolved_local:
  "endpoint_wf l \<Longrightarrow> endpoint_wf (slot_remote slot) \<Longrightarrow> slot_resolved slot (slot\<lparr>slot_local := l\<rparr>)"
  unfolding slot_resolved_def by (rule exI [of _ l], rule exI [of _ "slot_remote slot"]) simp

lemma slot_resolved_remote:
  "endpoint_wf (slot_local slot) \<Longrightarrow> endpoint_wf r \<Longrightarrow> endpoint_id r \<noteq> PEER_UNDEFINED \<Longrightarrow>
    slot_resolved slot (slot\<lparr>slot_remote := r\<rparr>)"
  unfolding slot_resolved_def by (rule exI [of _ "slot_local slot"], rule exI [of _ r]) simp

lemma slot_resolved_wf: "slot_resolved slot slot' \<Longrightarrow> endpoint_wf (slot_local slot') \<and> endpoint_wf (slot_remote slot')"
  by (auto simp: slot_resolved_def)

lemma slot_resolved_trans: "slot_resolved s1 s2 \<Longrightarrow> slot_resolved s2 s3 \<Longrightarrow> slot_resolved s1 s3"
  by (force simp: slot_resolved_def)

lemma resolve_local_resolved:
  assumes "resolve_local nd nodes slot = Some (s, slot')" and "endpoint_wf (slot_local slot)" and "endpoint_wf (slot_remote slot)"
  shows "slot_resolved slot slot'"
proof (cases "slot' = slot")
  case False
  then obtain data where "slot' = slot\<lparr>slot_local := (slot_local slot)
      \<lparr>address_size := 3, address_data := data, is_address_resolved := True\<rparr>\<rparr>" "length data = 64"
    using assms by (auto simp: resolve_local_def Let_def c_assert_bind write_port_eq endpoint_wf_def
        split: if_splits dest!: bind_eq_SomeD)
  then show ?thesis
    using assms(2,3) by (auto simp: endpoint_wf_def intro!: slot_resolved_local)
qed (simp add: slot_resolved_refl assms)

lemma resolve_remote_resolved:
  assumes "resolve_remote nd nodes slot = Some (s, slot')" and "endpoint_wf (slot_local slot)" and "endpoint_wf (slot_remote slot)"
    and "list_all node_wf nodes"
  shows "slot_resolved slot slot'"
proof (cases "slot' = slot")
  case False
  let ?r = "slot_remote slot"
  obtain node data where node: "c_load nodes (endpoint_id ?r) = Some node" "endpoint_id ?r \<noteq> - 1"
    and slot': "slot' = slot\<lparr>slot_remote := ?r\<lparr>address_size := 3 + remote_address_size node, address_data := data,
      is_address_resolved := True\<rparr>\<rparr>"
    and data: "length data = 64" "remote_address_size node \<le> 61"
    using assms(1,3) False
    by (auto simp: resolve_remote_def Let_def c_assert_bind write_port_eq endpoint_wf_def c_memcpy_def
        split: if_splits dest!: bind_eq_SomeD)
  have "0 \<le> remote_address_size node" using node(1) assms(4) by (auto simp: c_load_eq_Some list_all_length node_wf_def)
  then show ?thesis
    using assms(2) data node(2) unfolding slot'
    by (auto simp: endpoint_wf_def intro!: slot_resolved_remote)
qed (simp add: slot_resolved_refl assms)

definition nodes_grow :: "peer_nodes_t \<Rightarrow> peer_nodes_t \<Rightarrow> bool" where
  "nodes_grow nodes nodes' \<longleftrightarrow> (\<exists>new. nodes' = nodes @ new \<and> (\<forall>node \<in> set new. node_socket node = INVALID_SOCKET))"

lemma nodes_grow_refl [simp]: "nodes_grow nodes nodes"
  by (simp add: nodes_grow_def)

lemma nodes_grow_trans: "nodes_grow n1 n2 \<Longrightarrow> nodes_grow n2 n3 \<Longrightarrow> nodes_grow n1 n3"
  by (fastforce simp: nodes_grow_def)

lemma resolve_id_resolved:
  assumes "resolve_id os nd n addr (pool, slot) = Some (s, pool', slot')" and "pool_wf (pool_nodes pool)"
    and "endpoint_wf (slot_local slot)" and "endpoint_wf (slot_remote slot)"
  shows "slot_resolved slot slot' \<and> pool_wf (pool_nodes pool') \<and> nodes_grow (pool_nodes pool) (pool_nodes pool')"
proof -
  obtain protocol port found where find: "find_pool_node os nd pool protocol port n addr = Some (s, found, pool')"
    and slot': "slot' = slot \<or> s = KIT_OK \<and> (\<exists>i. found = Some i \<and>
      slot' = slot\<lparr>slot_remote := (slot_remote slot)\<lparr>endpoint_id := i, is_id_resolved := True\<rparr>\<rparr>)"
    using assms(1) by (auto simp: resolve_id_def split: if_splits dest!: bind_eq_SomeD)
  note post = find_pool_node_wf [OF assms(2) find]
  have "slot_resolved slot slot'"
    using slot' post assms(3,4)
    by (auto simp: endpoint_wf_def intro!: slot_resolved_remote slot_resolved_refl)
  then show ?thesis using post by (auto simp: nodes_grow_def)
qed

lemma resolve_id_by_cases:
  assumes "resolve_id_by_port os nd (pool, slot) = Some (s, pool', slot') \<or>
    resolve_id_by_address os nd (pool, slot) = Some (s, pool', slot')"
  shows "(pool' = pool \<and> slot' = slot) \<or> (\<exists>n addr. resolve_id os nd n addr (pool, slot) = Some (s, pool', slot'))"
  using assms
  by (auto simp: resolve_id_by_port_def resolve_id_by_address_def Let_def c_assert_bind
      split: if_splits dest!: bind_eq_SomeD)

lemma resolve_id_by_resolved:
  assumes "resolve_id_by_port os nd (pool, slot) = Some (s, pool', slot') \<or>
    resolve_id_by_address os nd (pool, slot) = Some (s, pool', slot')"
    and "pool_wf (pool_nodes pool)" and "endpoint_wf (slot_local slot) \<and> endpoint_wf (slot_remote slot)"
  shows "slot_resolved slot slot' \<and> pool_wf (pool_nodes pool') \<and> nodes_grow (pool_nodes pool) (pool_nodes pool')"
  using resolve_id_by_cases [OF assms(1)]
proof (elim disjE exE conjE)
  assume "pool' = pool" "slot' = slot"
  then show ?thesis using assms(2,3) slot_resolved_refl by simp
next
  fix n addr
  assume "resolve_id os nd n addr (pool, slot) = Some (s, pool', slot')"
  then show ?thesis using resolve_id_resolved [OF _ assms(2)] assms(3) by blast
qed

lemma resolve_slot_resolved:
  assumes "resolve_slot os nd (pool, slot) = Some (s, pool', slot')" and "pool_wf (pool_nodes pool)"
    and "endpoint_wf (slot_local slot)" and "endpoint_wf (slot_remote slot)"
  shows "slot_resolved slot slot' \<and> pool_wf (pool_nodes pool') \<and> nodes_grow (pool_nodes pool) (pool_nodes pool')"
proof -
  obtain s1 slot1 s2 slot2 s3 pool3 slot3 s4 where
    1: "resolve_local nd (pool_nodes pool) slot = Some (s1, slot1)" and
    2: "resolve_remote nd (pool_nodes pool) slot1 = Some (s2, slot2)" and
    3: "resolve_id_by_port os nd (pool, slot2) = Some (s3, pool3, slot3)" and
    4: "resolve_id_by_address os nd (pool3, slot3) = Some (s4, pool', slot')"
    using assms(1) by (auto simp: resolve_slot_def dest!: bind_eq_SomeD)
  have r1: "slot_resolved slot slot1" by (rule resolve_local_resolved [OF 1 assms(3,4)])
  have r2: "slot_resolved slot1 slot2"
    using resolve_remote_resolved [OF 2] slot_resolved_wf [OF r1] assms(2) by (simp add: pool_wf_def)
  have r3: "slot_resolved slot2 slot3 \<and> pool_wf (pool_nodes pool3) \<and> nodes_grow (pool_nodes pool) (pool_nodes pool3)"
    using resolve_id_by_resolved [OF disjI1 [OF 3] assms(2) slot_resolved_wf [OF r2]] .
  then have "slot_resolved slot3 slot' \<and> pool_wf (pool_nodes pool') \<and> nodes_grow (pool_nodes pool3) (pool_nodes pool')"
    using resolve_id_by_resolved [OF disjI2 [OF 4]] slot_resolved_wf [of slot2 slot3] by blast
  then show ?thesis using r1 r2 r3 slot_resolved_trans nodes_grow_trans by blast
qed

lemma resolve_slots_resolved:
  assumes "resolve_slots os nd slots (status, pool) = Some (s, pool', slots')" and "pool_wf (pool_nodes pool)"
    and "\<forall>slot \<in> set slots. endpoint_wf (slot_local slot) \<and> endpoint_wf (slot_remote slot)"
  shows "list_all2 slot_resolved slots slots' \<and> pool_wf (pool_nodes pool') \<and> nodes_grow (pool_nodes pool) (pool_nodes pool')"
  using assms
proof (induction slots arbitrary: status pool slots')
  case (Cons slot slots)
  then obtain s1 pool1 slot1 slots1 where one: "resolve_slot os nd (pool, slot) = Some (s1, pool1, slot1)"
    and rest: "resolve_slots os nd slots (status OR s1, pool1) = Some (s, pool', slots1)" and slots': "slots' = slot1 # slots1"
    by (auto dest!: bind_eq_SomeD)
  have "slot_resolved slot slot1 \<and> pool_wf (pool_nodes pool1) \<and> nodes_grow (pool_nodes pool) (pool_nodes pool1)"
    using resolve_slot_resolved [OF one] Cons.prems(2,3) by simp
  then show ?case using Cons.IH [OF rest] Cons.prems(3) slots' nodes_grow_trans by auto
qed simp

lemma peer_wf_endpoints:
  "peer_wf peer \<Longrightarrow> \<forall>slot \<in> set (peer_slots peer). endpoint_wf (slot_local slot) \<and> endpoint_wf (slot_remote slot)"
  by (simp add: peer_wf_def list_all_iff mode_slot_wf_def slot_wf_def)

lemma resolve_resolved:
  assumes "resolve_address_and_id os nd pool peer = Some (status, pool', peer')" and "pool_wf (pool_nodes pool)"
    and "peer_wf peer"
  shows "peer_wf peer' \<and> pool_wf (pool_nodes pool') \<and> nodes_grow (pool_nodes pool) (pool_nodes pool') \<and>
    (\<exists>slots. peer' = peer\<lparr>peer_slots := slots\<rparr> \<and> list_all2 slot_resolved (peer_slots peer) slots)"
proof -
  obtain slots where run: "resolve_slots os nd (peer_slots peer) (KIT_OK, pool) = Some (status, pool', slots)"
    and peer': "peer' = peer\<lparr>peer_slots := slots\<rparr>"
    using assms(1) by (auto simp: resolve_address_and_id_def dest!: bind_eq_SomeD)
  have "list_all2 slot_resolved (peer_slots peer) slots \<and> pool_wf (pool_nodes pool') \<and>
      nodes_grow (pool_nodes pool) (pool_nodes pool')"
    by (rule resolve_slots_resolved [OF run assms(2) peer_wf_endpoints [OF assms(3)]])
  then show ?thesis using slots_resolved_wf [OF assms(3)] peer' by auto
qed

subsection \<open>Known addresses\<close>

lemma node_key_Some:
  assumes "node_key nodes i = Some (protocol, port, bs)" and "list_all node_wf nodes"
  shows "i < length nodes" and "node_protocol (nodes ! i) = protocol" and "remote_port (nodes ! i) = port"
    and "remote_address_size (nodes ! i) = int (length bs)" and "take (length bs) (remote_address (nodes ! i)) = bs"
    and "length (remote_address (nodes ! i)) = 62" and "length bs \<le> 62"
proof -
  show i: "i < length nodes" using assms(1) by (simp add: node_key_def split: if_splits)
  then have wf: "node_wf (nodes ! i)" using assms(2) by (simp add: list_all_length)
  have key: "remote_key (nodes ! i) = Some (protocol, port, bs)" using assms(1) i by (simp add: node_key_def)
  then show "node_protocol (nodes ! i) = protocol" "remote_port (nodes ! i) = port"
    by (auto simp: remote_key_def split: if_splits)
  have bs: "bs = take (nat (remote_address_size (nodes ! i))) (remote_address (nodes ! i))"
    using key by (auto simp: remote_key_def split: if_splits)
  then show "remote_address_size (nodes ! i) = int (length bs)" "length bs \<le> 62"
    and "length (remote_address (nodes ! i)) = 62" "take (length bs) (remote_address (nodes ! i)) = bs"
    using wf by (auto simp: node_wf_def)
qed

lemma intern_node_known:
  assumes "pool_wf nodes" and "node_key nodes i = Some key"
  shows "intern_node nodes key = (i, nodes)"
  using nodes.intern_again [of nodes i key "[]"] assms by (simp add: pool_wf_def)

lemma find_pool_node_known:
  assumes "pool_wf (pool_nodes pool)" and "node_key (pool_nodes pool) i = Some (PEER_UDP_IPv4, port, take (nat n) bs)"
    and "0 < n" and "n \<le> int (length bs)" and "address_bytes (pool_nodes pool) addr = Some bs"
  shows "find_pool_node os nd pool PEER_UDP_IPv4 port n addr = Some (KIT_OK, Some (int i), pool)"
proof -
  have wf: "list_all node_wf (pool_nodes pool)" using assms(1) by (simp add: pool_wf_def)
  let ?key = "(PEER_UDP_IPv4, port, take (nat n) bs)"
  have "key_index ?key 0 (pool_nodes pool) = Some i"
    using intern_node_known [OF assms(1,2)] node_key_Some(1) [OF assms(2) wf]
    by (auto simp: intern_node_def split: option.splits)
  then have "search_nodes (node_matches PEER_UDP_IPv4 port n bs) 0 (pool_nodes pool) = Some (Some i)"
    using search_nodes_eq [OF wf, of n bs] assms(3,4) by simp
  then show ?thesis using assms(3,5) by (simp add: find_pool_node_def)
qed

text \<open>Looking for the address of node \<open>i\<close> under another port, with a pointer into the node.\<close>

lemma find_by_node:
  assumes "pool_wf (pool_nodes pool)" and "alloc_ok (pool_alloc pool)"
    and "node_key (pool_nodes pool) i = Some (PEER_UDP_IPv4, old_port, bs)" and "0 < length bs"
    and "intern_node (pool_nodes pool) (PEER_UDP_IPv4, port, bs) = (j, nodes')"
  shows "if da_moves os (length (pool_nodes pool) + 1) \<and> nodes' \<noteq> pool_nodes pool
    then find_pool_node os nd pool PEER_UDP_IPv4 port (int (length bs)) (In_node i) = None
    else \<exists>al'. find_pool_node os nd pool PEER_UDP_IPv4 port (int (length bs)) (In_node i) =
      Some (KIT_OK, Some (int j), pool\<lparr>pool_nodes := nodes', pool_alloc := al'\<rparr>)"
proof -
  have wf: "list_all node_wf (pool_nodes pool)" using assms(1) by (simp add: pool_wf_def)
  note node = node_key_Some [OF assms(3) wf]
  let ?key = "(PEER_UDP_IPv4, port, bs)" and ?k = "length (pool_nodes pool)" and ?bs = "remote_address (pool_nodes pool ! i)"
  have addr: "address_bytes (pool_nodes pool) (In_node i) = Some ?bs" using node(1) by (simp add: address_bytes_def)
  have len: "int (length bs) \<le> int (length ?bs)" using node(6,7) by simp
  have take: "take (nat (int (length bs))) ?bs = bs" using node(5) by simp
  have cases: "nodes' = pool_nodes pool \<and> node_key (pool_nodes pool) j = Some ?key \<or> nodes' \<noteq> pool_nodes pool \<and> key_index ?key 0 (pool_nodes pool) = None"
    using intern_node_cases [of "pool_nodes pool" ?key] assms(5) by (auto simp: intern_node_def split: option.splits)
  show ?thesis
  proof (cases "da_moves os (?k + 1)")
    case False
    then show ?thesis
      using find_pool_node_eq [OF wf _ _ addr len assms(2), of os port j nodes' nd] take assms(4,5) node(7) by auto
  next
    case True
    show ?thesis
    proof (cases "nodes' = pool_nodes pool")
      case known: True
      then have "node_key (pool_nodes pool) j = Some ?key" using cases by blast
      then show ?thesis
        using find_pool_node_known [OF assms(1) _ _ len addr, of j port os nd] take assms(4) known
        by (auto intro: exI [of _ "pool_alloc pool"])
    next
      case new: False
      then have "search_nodes (node_matches PEER_UDP_IPv4 port (int (length bs)) ?bs) 0 (pool_nodes pool) = Some None"
        using search_nodes_eq [OF wf _ len] take cases by simp
      moreover obtain f al' where "da_resize (\<lambda>_ _. zero_node) (?k + 1) (pool_nodes pool) (pool_alloc pool) =
          (pool_nodes pool @ map (\<lambda>_. zero_node) [?k..<?k + 1], al')" "alloc_ok al'"
        using assms(2) by (rule da_resize_ok [where fresh = "\<lambda>_ _. zero_node" and xs = "pool_nodes pool" and n = "?k + 1"]) auto
      ultimately show ?thesis using addr assms(4) True new by (simp add: find_pool_node_def)
    qed
  qed
qed

text \<open>An address of \<open>n\<close> characters, encoded with protocol and port.\<close>

lemma resolve_remote_eq:
  assumes "list_all node_wf nodes" and "node_key nodes i = Some (protocol, port, bs)" and "endpoint_wf (slot_remote slot)"
    and "endpoint_id (slot_remote slot) = int i" and "\<not> is_address_resolved (slot_remote slot)"
  shows "resolve_remote nd nodes slot =
    (if length bs \<le> 61
     then Some (KIT_OK, slot\<lparr>slot_remote := (slot_remote slot)\<lparr>address_size := 3 + int (length bs),
       address_data := word_of_int protocol # ucast port # ucast (drop_bit 8 port) # bs @
         drop (3 + length bs) (address_data (slot_remote slot)), is_address_resolved := True\<rparr>\<rparr>)
     else None)"
proof -
  note node = node_key_Some [OF assms(2,1)]
  have "take (nat (int (length bs))) (drop (nat 0) (remote_address (nodes ! i))) = bs" using node(5) by simp
  then show ?thesis
    using assms(3-5) node(1-4,6,7)
    by (auto simp: resolve_remote_def Let_def c_load_def write_port_eq endpoint_wf_def c_memcpy_def nat_add_distrib
        drop_Cons' numeral_3_eq_3 add.commute)
qed

subsection \<open>Opening sockets, all or nothing\<close>

definition opened_node :: "peer_node_t \<Rightarrow> bool" where
  "opened_node node \<longleftrightarrow> node_socket node \<noteq> INVALID_SOCKET \<and> node_protocol node = PEER_UDP_IPv4 \<and>
     remote_port node = PEER_ANY_PORT \<and> remote_address_size node = 0 \<and> remote_address node = replicate 62 0"

lemma open_node_total: "\<exists>s node' w'. open_node os True port node w = Some (s, node', w')"
  by (simp add: open_node_def Let_def split: prod.split option.split)

lemma open_node_ok:
  assumes "open_node os nd port zero_node w = Some (KIT_OK, node', w')"
  shows "opened_node node'"
  using assms
  by (auto simp: open_node_def Let_def c_assert_bind opened_node_def zero_node_def
      split: prod.splits option.splits if_splits)

lemma open_nodes_total:
  "\<exists>s nodes' w'. open_nodes os True port nodes w = Some (s, nodes', w') \<and> length nodes' = length nodes"
proof (induction nodes arbitrary: w)
  case (Cons node nodes)
  obtain s node' w1 where one: "open_node os True port node w = Some (s, node', w1)" using open_node_total [of os port node w] by blast
  obtain s' nodes' w2 where "open_nodes os True port nodes w1 = Some (s', nodes', w2)" "length nodes' = length nodes"
    using Cons.IH [of w1] by blast
  then show ?case by (simp add: one)
qed simp

lemma open_nodes_ok:
  "open_nodes os nd port (replicate k zero_node) w = Some (KIT_OK, nodes', w') \<Longrightarrow>
    length nodes' = k \<and> list_all opened_node nodes'"
proof (induction k arbitrary: w nodes')
  case (Suc k)
  then obtain node' w1 nodes1 where "open_node os nd port zero_node w = Some (KIT_OK, node', w1)"
    and "open_nodes os nd port (replicate k zero_node) w1 = Some (KIT_OK, nodes1, w')" and "nodes' = node' # nodes1"
    by (auto split: if_splits dest!: bind_eq_SomeD)
  then show ?case using Suc.IH open_node_ok by auto
qed simp

lemma open_protocol_total:
  "\<exists>s pool' w'. open_protocol os True protocol port count pool w = Some (s, pool', w') \<and>
    (\<exists>new. pool_nodes pool' = pool_nodes pool @ new \<and>
      (s = KIT_OK \<longrightarrow> protocol = PEER_UDP_IPv4 \<and> length new = count \<and> list_all opened_node new))"
proof (cases "protocol = PEER_UDP_IPv4")
  case True
  let ?n = "length (pool_nodes pool)"
  obtain nodes1 al1 where res: "da_resize (\<lambda>_ _. zero_node) (?n + count) (pool_nodes pool) (pool_alloc pool) = (nodes1, al1)"
    by fastforce
  obtain s new w' where open': "open_nodes os True port (replicate count zero_node) w = Some (s, new, w')"
    using open_nodes_total [of os port "replicate count zero_node" w] by blast
  show ?thesis
  proof (cases "length nodes1 = ?n + count")
    case False
    then have "nodes1 = pool_nodes pool" using da_resize_cases [OF res] by auto
    then show ?thesis using res False True by (simp add: open_protocol_def da_resize_def)
  next
    case grown: True
    then have "take ?n nodes1 = pool_nodes pool" using da_resize_cases [OF res] by auto
    then show ?thesis
      using res grown True open' open_nodes_ok [of os True port count w new w'] by (auto simp: open_protocol_def)
  qed
qed (auto simp: open_protocol_def)

lemma open_peer_slots_total:
  assumes "0 < count"
  shows "\<exists>s pool' peer'. open_peer_slots True n count pool peer = Some (s, pool', peer') \<and>
    pool_nodes pool' = pool_nodes pool \<and>
    (s = KIT_OK \<and> (\<exists>al. peer' = peer\<lparr>peer_slots := peer_slots peer @
        new_slots (peer_mode peer) (map (\<lambda>i. int (n + i)) [0..<count]), peer_alloc := al\<rparr>) \<or>
     s = PEER_ERROR_BAD_ALLOC \<and> (\<exists>al. peer' = peer\<lparr>peer_alloc := al\<rparr>))"
proof -
  obtain ids al where ids: "da_init (0 :: ptrdiff_t) count (pool_alloc pool) = (ids, al)" by fastforce
  let ?ids = "map (\<lambda>i. int (n + i)) [0..<count]"
  have "\<exists>s peer'. peer_open True (Some peer) (ids_ref ?ids) = Some (s, Some peer') \<and>
      (s = KIT_OK \<and> (\<exists>al. peer' = peer\<lparr>peer_slots := peer_slots peer @ new_slots (peer_mode peer) ?ids, peer_alloc := al\<rparr>) \<or>
       s = PEER_ERROR_BAD_ALLOC \<and> (\<exists>al. peer' = peer\<lparr>peer_alloc := al\<rparr>))"
    using assms by (auto simp: peer_open_def with_peer_def peer_open_body_eq split: prod.split option.split)
  then show ?thesis
    using ids by (cases "length ids = count") (auto simp: open_peer_slots_def Let_def intro: exI [of _ "peer_alloc peer"])
qed

lemma peer_pool_open_cases:
  "\<exists>s pool' peer' w'. peer_pool_open_body os True protocol port count pool peer w = Some (s, pool', peer', w') \<and>
    (s = KIT_OK \<and> protocol = PEER_UDP_IPv4 \<and> 0 < count \<and>
       (\<exists>new. pool_nodes pool' = pool_nodes pool @ new \<and> length new = nat count \<and> list_all opened_node new) \<and>
       (\<exists>al. peer' = peer\<lparr>peer_slots := peer_slots peer @
          new_slots (peer_mode peer) (map (\<lambda>i. int (length (pool_nodes pool) + i)) [0..<nat count]), peer_alloc := al\<rparr>) \<or>
     s \<noteq> KIT_OK \<and> pool_nodes pool' = pool_nodes pool \<and> (\<exists>al. peer' = peer\<lparr>peer_alloc := al\<rparr>))"
proof (cases "0 < count")
  case False
  then show ?thesis by (auto simp: peer_pool_open_body_def intro: exI [of _ "peer_alloc peer"])
next
  case True
  let ?n = "length (pool_nodes pool)"
  have pos: "0 < nat count" using True by simp
  obtain s1 pool1 w1 new where p1: "open_protocol os True protocol port (nat count) pool w = Some (s1, pool1, w1)"
    "pool_nodes pool1 = pool_nodes pool @ new"
    "s1 = KIT_OK \<longrightarrow> protocol = PEER_UDP_IPv4 \<and> length new = nat count \<and> list_all opened_node new"
    using open_protocol_total [of os protocol port "nat count" pool w] by blast
  obtain s2 pool2 peer2 where p2: "open_peer_slots True ?n (nat count) pool1 peer = Some (s2, pool2, peer2)"
    "pool_nodes pool2 = pool_nodes pool1"
    "s2 = KIT_OK \<and> (\<exists>al. peer2 = peer\<lparr>peer_slots := peer_slots peer @
        new_slots (peer_mode peer) (map (\<lambda>i. int (?n + i)) [0..<nat count]), peer_alloc := al\<rparr>) \<or>
     s2 = PEER_ERROR_BAD_ALLOC \<and> (\<exists>al. peer2 = peer\<lparr>peer_alloc := al\<rparr>)"
    using open_peer_slots_total [OF pos, of ?n pool1 peer] by blast
  show ?thesis
  proof (cases "s1 = KIT_OK \<and> s2 = KIT_OK")
    case ok: True
    then show ?thesis using True p1 p2 by (auto simp: peer_pool_open_body_def)
  next
    case False
    then show ?thesis
      using True p1 p2
      by (auto simp: peer_pool_open_body_def da_resize_def Let_def intro: exI [of _ "peer_alloc peer"])
  qed
qed

lemma opened_pool_wf:
  assumes "pool_wf nodes" and "list_all opened_node new"
  shows "pool_wf (nodes @ new)"
proof -
  have "node_wf node" "remote_key node = None" if "node \<in> set new" for node
    using assms(2) that by (auto simp: list_all_iff opened_node_def node_wf_def remote_key_def)
  then have "list_all node_wf new" "node_key new i = None" for i by (auto simp: list_all_iff node_key_def)
  then show ?thesis
    using assms(1) by (auto simp: pool_wf_def nodes.unique_def node_key_append split: if_splits)
qed

lemma peer_pool_open_wf:
  assumes "peer_pool_open_body os True protocol port count pool peer w = Some (s, pool', peer', w')"
    and "pool_wf (pool_nodes pool)" and "peer_wf peer" and "int (length (peer_slots peer)) + count \<le> 0xffffffff"
  shows "pool_wf (pool_nodes pool') \<and> peer_wf peer'"
proof -
  from peer_pool_open_cases [of os protocol port count pool peer w] assms(1)
  consider (ok) new al where "0 < count" "pool_nodes pool' = pool_nodes pool @ new" "list_all opened_node new"
      "peer' = peer\<lparr>peer_slots := peer_slots peer @
        new_slots (peer_mode peer) (map (\<lambda>i. int (length (pool_nodes pool) + i)) [0..<nat count]), peer_alloc := al\<rparr>"
    | (error) al where "pool_nodes pool' = pool_nodes pool" "peer' = peer\<lparr>peer_alloc := al\<rparr>" by fastforce
  then show ?thesis
  proof cases
    case ok
    let ?ids = "map (\<lambda>i. int (length (pool_nodes pool) + i)) [0..<nat count]"
    have "list_all (mode_slot_wf (peer_mode peer) (mutual_queue peer)) (peer_slots peer @ new_slots (peer_mode peer) ?ids)"
      using assms(3,4) new_slots_wf [of ?ids] by (simp add: peer_wf_def)
    moreover have "int (length (peer_slots peer @ new_slots (peer_mode peer) ?ids)) \<le> 0xffffffff"
      using assms(4) ok(1) by (simp add: new_slots_def)
    ultimately have "peer_wf (peer\<lparr>peer_slots := peer_slots peer @ new_slots (peer_mode peer) ?ids\<rparr>)"
      by (rule peer_wf_slots [OF assms(3)])
    then show ?thesis using ok opened_pool_wf [OF assms(2)] by (simp add: peer_wf_def)
  qed (use assms(2,3) in simp)
qed

text \<open>When the system refuses the first of several sockets, the nodes after it still hold the zero of
  \<open>memset\<close>, which is not \<open>INVALID_SOCKET\<close>.\<close>

lemma open_nodes_refused:
  assumes "os_socket os w = (INVALID_SOCKET, w1)"
  shows "open_nodes os True port (replicate (Suc k) zero_node) w =
    Some (PEER_ERROR_CREATE_SOCKET_FAILED, zero_node\<lparr>node_socket := INVALID_SOCKET\<rparr> # replicate k zero_node, w1)"
  using assms by (simp add: open_node_def)

lemma close_zero_nodes: "close_nodes os (replicate k zero_node) w = (os_close os 0 ^^ k) w"
  by (induction k arbitrary: w) (simp_all add: close_nodes_def zero_node_def funpow_swap1)

subsection \<open>Properties\<close>

text \<open>C22. Ids of remote addresses are stable: when the pool has found an id for an address, then after any
  number of other addresses have been looked up the same address has the same id and adds no node;
  what the ids given before stand for has not changed, and no two ids stand for the same address.\<close>

theorem pool_ids_stable:
  assumes "pool_wf (pool_nodes pool)"
    and "find_pool_node os nd pool protocol port n (In_buffer bs) = Some (KIT_OK, Some i, pool')"
  shows "pool_wf (pool_nodes pool') \<and>
    node_key (pool_nodes pool') (nat i) = Some (protocol, port, take (nat n) bs) \<and>
    (\<forall>j k. node_key (pool_nodes pool) j = Some k \<longrightarrow> node_key (pool_nodes pool') j = Some k) \<and>
    (\<forall>keys. intern_node (nodes.interns (pool_nodes pool') keys) (protocol, port, take (nat n) bs) =
      (nat i, nodes.interns (pool_nodes pool') keys))"
proof -
  let ?key = "(protocol, port, take (nat n) bs)"
  have wf: "pool_wf (pool_nodes pool')" using find_pool_node_wf [OF assms] by simp
  have i: "nat i = fst (intern_node (pool_nodes pool) ?key)" "pool_nodes pool' = snd (intern_node (pool_nodes pool) ?key)"
    using find_pool_node_cases [OF _ assms(2)] assms(1) by (auto simp: pool_wf_def address_bytes_def)
  have key: "node_key (pool_nodes pool') (nat i) = Some ?key" unfolding i by (rule nodes.intern_meaning)
  moreover have "node_key (pool_nodes pool') j = Some k" if "node_key (pool_nodes pool) j = Some k" for j k
    unfolding i(2) by (rule nodes.intern_keeps [OF that])
  moreover have "intern_node (nodes.interns (pool_nodes pool') keys) ?key = (nat i, nodes.interns (pool_nodes pool') keys)" for keys
    by (rule nodes.intern_again [OF _ key]) (use wf in \<open>simp add: pool_wf_def\<close>)
  ultimately show ?thesis using wf by blast
qed

text \<open>A system for the examples: its state counts the sockets it has made (from 3 on) and lists the sockets
  it closed and the datagrams it sent.\<close>

type_synonym example_world = "nat \<times> socket_t list \<times> (byte list \<times> 32 word \<times> port_t) list"

definition example_os :: "example_world os_ops" where
  "example_os = \<lparr>
     os_socket = (\<lambda>(k, closed, sent). (int k + 3, Suc k, closed, sent)),
     os_getfl = (\<lambda>s w. (2, w)), os_setfl = (\<lambda>s flags w. (0, w)), os_bind = (\<lambda>s port w. (0, w)),
     os_getsockname = (\<lambda>s w. (Some 7000, w)),
     os_close = (\<lambda>s (k, closed, sent). (k, closed @ [s], sent)),
     os_recvfrom = (\<lambda>s w. (if s = 3 then Datagram [1, 2, 3] 5 9000 else Recv_failed, w)),
     os_sendto = (\<lambda>s bs addr port (k, closed, sent). (int (length bs), k, closed, sent @ [(bs, addr, port)])),
     os_errno = (\<lambda>w. 11), os_ignore_sigpipe = (\<lambda>w. w),
     inet_ntop = (\<lambda>a. [48 + ucast a]), inet_pton = (\<lambda>bs. (1, if bs = [] then 0 else ucast (hd bs) - 48)),
     da_moves = (\<lambda>n. n = 2), O_NONBLOCK = 2048, EAGAIN = 11, EWOULDBLOCK = 11, EMSGSIZE = 90, ECONNRESET = 104\<rparr>"

definition example_pool :: peer_socket_pool_t where
  "example_pool = \<lparr>pool_alloc = [], pool_nodes = [remote_node (PEER_UDP_IPv4, 9000, [53])]\<rparr>"

lemma example_pool_wf: "pool_wf (pool_nodes example_pool)"
  by (simp add: example_pool_def pool_wf_def node_wf_def nodes.unique_def node_key_def list_all_iff)

theorem pool_ids_stable_witness:
  "\<exists>pool'. find_pool_node example_os False example_pool PEER_UDP_IPv4 9001 1 (In_buffer [53]) = Some (KIT_OK, Some 1, pool') \<and>
    pool_wf (pool_nodes pool') \<and>
    node_key (pool_nodes pool') (nat 1) = Some (PEER_UDP_IPv4, 9001, take (nat 1) [53]) \<and>
    (\<forall>j k. node_key (pool_nodes example_pool) j = Some k \<longrightarrow> node_key (pool_nodes pool') j = Some k) \<and>
    (\<forall>keys. intern_node (nodes.interns (pool_nodes pool') keys) (PEER_UDP_IPv4, 9001, take (nat 1) [53]) =
      (nat 1, nodes.interns (pool_nodes pool') keys))"
proof -
  have "find_pool_node example_os False example_pool PEER_UDP_IPv4 9001 1 (In_buffer [53]) =
      Some (KIT_OK, Some 1, \<lparr>pool_alloc = [], pool_nodes = [remote_node (PEER_UDP_IPv4, 9000, [53]), remote_node (PEER_UDP_IPv4, 9001, [53])]\<rparr>)"
    by (simp add: find_pool_node_def example_pool_def node_matches_def ar_equal_def address_bytes_def da_resize_def
        memcpy_zero_node c_store_def)
  from pool_ids_stable [OF example_pool_wf this] this show ?thesis by blast
qed

text \<open>C21. Resolving addresses and ids is a step of the address layer of a session: whatever it is given and
  whatever the allocator answers, it changes the endpoints of the slots only, keeps them within the
  address array, never makes a slot free, and keeps peer and pool well-formed; the nodes it adds are
  remote ones, after those there were.\<close>

theorem resolve_refines_session:
  assumes "resolve_address_and_id os nd pool peer = Some (status, pool', peer')"
    and "pool_wf (pool_nodes pool)" and "peer_wf peer"
  shows "peer_wf peer' \<and> pool_wf (pool_nodes pool') \<and> nodes_grow (pool_nodes pool) (pool_nodes pool') \<and>
    (\<exists>slots. peer' = peer\<lparr>peer_slots := slots\<rparr> \<and> list_all2 slot_resolved (peer_slots peer) slots)"
  using resolve_resolved [OF assms] .

text \<open>A client whose slot is connected to the address of the example pool.\<close>

definition connected_client :: "unit peer_t" where
  "connected_client = example_client\<lparr>peer_slots := [(hd (peer_slots example_client))
     \<lparr>slot_local := (slot_local (hd (peer_slots example_client)))\<lparr>is_address_resolved := True\<rparr>,
      slot_remote := zero_endpoint\<lparr>endpoint_id := 0, is_id_resolved := True\<rparr>\<rparr>]\<rparr>"

lemma connected_client_wf: "peer_wf connected_client"
  by (simp add: connected_client_def example_defs peer_wf_def mode_slot_wf_def queue_wf_def wf_defs is_int64_def)

text \<open>The remote endpoint of the slot once resolved.\<close>

definition resolved_endpoint :: peer_endpoint_t where
  "resolved_endpoint = \<lparr>endpoint_id = 0, is_id_resolved = True, is_address_resolved = True, address_size = 4,
     address_data = [1, 40, 35, 53] @ replicate 60 0\<rparr>"

lemma connected_client_resolves:
  "resolve_address_and_id example_os False example_pool connected_client = Some (KIT_OK, example_pool,
     connected_client\<lparr>peer_slots := [(hd (peer_slots connected_client))\<lparr>slot_remote := resolved_endpoint\<rparr>]\<rparr>)"
  by (simp add: resolve_address_and_id_def resolve_slot_def connected_client_def example_defs resolve_local_def
      resolve_remote_def resolve_id_by_port_def resolve_id_by_address_def example_pool_def c_load_def write_port_eq
      c_memcpy_def resolved_endpoint_def Let_def)

theorem resolve_refines_session_witness:
  "\<exists>peer'. resolve_address_and_id example_os False example_pool connected_client = Some (KIT_OK, example_pool, peer') \<and>
    peer_wf peer' \<and> pool_wf (pool_nodes example_pool) \<and> nodes_grow (pool_nodes example_pool) (pool_nodes example_pool) \<and>
    (\<exists>slots. peer' = connected_client\<lparr>peer_slots := slots\<rparr> \<and> list_all2 slot_resolved (peer_slots connected_client) slots)"
  using resolve_refines_session [OF connected_client_resolves example_pool_wf connected_client_wf]
    connected_client_resolves by blast

text \<open>C33. Addresses and ids are inverse to each other: the address a slot gets for the id of a remote node,
  when an id is looked for by that address, gives the same id and adds no node.\<close>

theorem address_id_roundtrip:
  assumes "pool_wf (pool_nodes pool)" and "node_key (pool_nodes pool) i = Some (PEER_UDP_IPv4, port, bs)"
    and "0 < length bs" and "length bs \<le> 61" and "endpoint_wf (slot_remote slot)"
    and "endpoint_id (slot_remote slot) = int i" and "\<not> is_address_resolved (slot_remote slot)"
  shows "\<exists>r. resolve_remote nd (pool_nodes pool) slot = Some (KIT_OK, slot\<lparr>slot_remote := r\<rparr>) \<and>
    is_address_resolved r \<and> address_size r = 3 + int (length bs) \<and>
    resolve_id_by_address os nd (pool, slot\<lparr>slot_remote := r\<lparr>endpoint_id := x, is_id_resolved := False\<rparr>\<rparr>) =
      Some (KIT_OK, pool, slot\<lparr>slot_remote := r\<lparr>endpoint_id := int i, is_id_resolved := True\<rparr>\<rparr>)"
proof -
  have wf: "list_all node_wf (pool_nodes pool)" using assms(1) by (simp add: pool_wf_def)
  let ?rest = "drop (3 + length bs) (address_data (slot_remote slot))"
  let ?data = "word_of_int 1 # ucast port # ucast (drop_bit 8 port) # bs @ ?rest"
  let ?r = "(slot_remote slot)\<lparr>address_size := 3 + int (length bs), address_data := ?data, is_address_resolved := True\<rparr>"
  have "resolve_remote nd (pool_nodes pool) slot = Some (KIT_OK, slot\<lparr>slot_remote := ?r\<rparr>)"
    using resolve_remote_eq [OF wf assms(2,5-7)] assms(4) by simp
  moreover have "find_pool_node os nd pool PEER_UDP_IPv4 port (int (length bs)) (In_buffer (bs @ ?rest)) =
      Some (KIT_OK, Some (int i), pool)"
    using assms(2,3) by (intro find_pool_node_known [OF assms(1)]) (auto simp: address_bytes_def)
  then have "resolve_id_by_address os nd (pool, slot\<lparr>slot_remote := ?r\<lparr>endpoint_id := x, is_id_resolved := False\<rparr>\<rparr>) =
      Some (KIT_OK, pool, slot\<lparr>slot_remote := ?r\<lparr>endpoint_id := int i, is_id_resolved := True\<rparr>\<rparr>)"
    using assms(3) read_port_eq [of 1 port "bs @ ?rest"]
    by (simp add: resolve_id_by_address_def resolve_id_def Let_def)
  ultimately show ?thesis by (intro exI [of _ ?r]) simp
qed

theorem address_id_roundtrip_witness:
  "\<exists>r. resolve_remote False (pool_nodes example_pool) (hd (peer_slots connected_client)) =
      Some (KIT_OK, (hd (peer_slots connected_client))\<lparr>slot_remote := r\<rparr>) \<and>
    is_address_resolved r \<and> address_size r = 3 + int (length [53 :: byte]) \<and>
    resolve_id_by_address example_os False (example_pool,
        (hd (peer_slots connected_client))\<lparr>slot_remote := r\<lparr>endpoint_id := 17, is_id_resolved := False\<rparr>\<rparr>) =
      Some (KIT_OK, example_pool,
        (hd (peer_slots connected_client))\<lparr>slot_remote := r\<lparr>endpoint_id := int 0, is_id_resolved := True\<rparr>\<rparr>)"
proof (rule address_id_roundtrip [OF example_pool_wf])
  show "node_key (pool_nodes example_pool) 0 = Some (PEER_UDP_IPv4, 9000, [53])"
    by (simp add: example_pool_def node_key_def remote_key_def)
qed (simp_all add: connected_client_def example_defs endpoint_wf_def)

text \<open>C32. A session response moves a client to another port of the same host: the slot gets the id of the
  address it was connected to with the new port, known or new. When the id is new and growing the
  array of nodes moves it, the address is copied from the array that was released: a fault.\<close>

theorem redirect_to_port:
  assumes "pool_wf (pool_nodes pool)" and "alloc_ok (pool_alloc pool)"
    and "node_key (pool_nodes pool) i = Some (PEER_UDP_IPv4, old_port, bs)" and "0 < length bs"
    and "endpoint_id (slot_remote slot) = int i" and "\<not> is_id_resolved (slot_remote slot)"
    and "address_size (slot_remote slot) = 3" and "read_port (address_data (slot_remote slot)) = Some (PEER_UDP_IPv4, port)"
  shows "(if da_moves os (length (pool_nodes pool) + 1) \<and> (\<forall>j. node_key (pool_nodes pool) j \<noteq> Some (PEER_UDP_IPv4, port, bs))
    then resolve_id_by_port os nd (pool, slot) = None
    else \<exists>j pool'. resolve_id_by_port os nd (pool, slot) =
        Some (KIT_OK, pool', slot\<lparr>slot_remote := (slot_remote slot)\<lparr>endpoint_id := int j, is_id_resolved := True\<rparr>\<rparr>) \<and>
      node_key (pool_nodes pool') j = Some (PEER_UDP_IPv4, port, bs) \<and> nodes_grow (pool_nodes pool) (pool_nodes pool'))"
proof -
  have wf: "list_all node_wf (pool_nodes pool)" using assms(1) by (simp add: pool_wf_def)
  note node = node_key_Some [OF assms(3) wf]
  let ?key = "(PEER_UDP_IPv4, port, bs)"
  have run: "resolve_id_by_port os nd (pool, slot) = resolve_id os nd (int (length bs)) (In_node i) (pool, slot)"
    using assms(5-7) node(1,4) by (simp add: resolve_id_by_port_def Let_def)
  obtain j nodes' where j: "intern_node (pool_nodes pool) ?key = (j, nodes')" by fastforce
  have new: "nodes' \<noteq> pool_nodes pool \<longleftrightarrow> (\<forall>j. node_key (pool_nodes pool) j \<noteq> Some ?key)"
    using intern_node_cases [of "pool_nodes pool" ?key] j by auto
  have "node_key nodes' j = Some ?key" "nodes_grow (pool_nodes pool) nodes'"
    using nodes.intern_meaning [of "pool_nodes pool" ?key] intern_node_append [of "pool_nodes pool" ?key] j
    by (simp_all add: nodes_grow_def)
  then show ?thesis
    using find_by_node [OF assms(1-4) j, of os nd] run assms(8) unfolding new
    by (auto simp: resolve_id_def intro!: exI [of _ j] split: if_splits)
qed

text \<open>The slot of the connected client after a session response that names port 9001.\<close>

definition redirected_slot :: peer_slot_t where
  "redirected_slot = (hd (peer_slots connected_client))
     \<lparr>slot_remote := resolved_endpoint\<lparr>is_id_resolved := False, address_size := 3, address_data := [1, 41, 35, 53] @ replicate 60 0\<rparr>\<rparr>"

theorem redirect_to_port_witness:
  "(\<exists>j pool'. resolve_id_by_port (example_os\<lparr>da_moves := (\<lambda>_. False)\<rparr>) False (example_pool, redirected_slot) =
        Some (KIT_OK, pool', redirected_slot\<lparr>slot_remote := (slot_remote redirected_slot)
          \<lparr>endpoint_id := int j, is_id_resolved := True\<rparr>\<rparr>) \<and>
      node_key (pool_nodes pool') j = Some (PEER_UDP_IPv4, 9001, [53]) \<and>
      nodes_grow (pool_nodes example_pool) (pool_nodes pool')) \<and>
    resolve_id_by_port example_os False (example_pool, redirected_slot) = None"
proof -
  have key: "node_key (pool_nodes example_pool) 0 = Some (PEER_UDP_IPv4, 9000, [53])"
    and new: "\<forall>j. node_key (pool_nodes example_pool) j \<noteq> Some (PEER_UDP_IPv4, 9001, [53])"
    by (auto simp: example_pool_def node_key_def remote_key_def)
  have pre: "alloc_ok (pool_alloc example_pool)" "0 < length [53 :: byte]" "endpoint_id (slot_remote redirected_slot) = int 0"
    "\<not> is_id_resolved (slot_remote redirected_slot)" "address_size (slot_remote redirected_slot) = 3"
    "read_port (address_data (slot_remote redirected_slot)) = Some (PEER_UDP_IPv4, 9001)"
    by (simp_all add: example_pool_def redirected_slot_def resolved_endpoint_def read_port_def c_load_def)
  note use = redirect_to_port [OF example_pool_wf pre(1) key pre(2-6)]
  have "da_moves example_os (length (pool_nodes example_pool) + 1)" by (simp add: example_os_def example_pool_def)
  then show ?thesis
    using use [of "example_os\<lparr>da_moves := (\<lambda>_. False)\<rparr>" False] use [of example_os False] new by simp
qed

text \<open>C30. Opening sockets is all or nothing (assertions off): either every socket was made, the pool has as many
  new nodes with sockets, and the peer one new slot for each, with the node's id; or an error is
  reported, and the nodes of the pool and the slots of the peer are as before. The call always returns.\<close>

theorem pool_open_all_or_nothing:
  "\<exists>s pool' peer' w'. peer_pool_open os True (Some pool) (Some peer) protocol port count w =
      Some (s, Some pool', Some peer', w') \<and>
    (s = KIT_OK \<and> protocol = PEER_UDP_IPv4 \<and> 0 < count \<and>
       (\<exists>new. pool_nodes pool' = pool_nodes pool @ new \<and> length new = nat count \<and> list_all opened_node new) \<and>
       peer_slots peer' = peer_slots peer @
         new_slots (peer_mode peer) (map (\<lambda>i. int (length (pool_nodes pool) + i)) [0..<nat count]) \<or>
     s \<noteq> KIT_OK \<and> pool_nodes pool' = pool_nodes pool \<and> peer_slots peer' = peer_slots peer)"
proof -
  obtain s pool' peer' w' where run: "peer_pool_open_body os True protocol port count pool peer w = Some (s, pool', peer', w')"
    and cases: "s = KIT_OK \<and> protocol = PEER_UDP_IPv4 \<and> 0 < count \<and>
       (\<exists>new. pool_nodes pool' = pool_nodes pool @ new \<and> length new = nat count \<and> list_all opened_node new) \<and>
       (\<exists>al. peer' = peer\<lparr>peer_slots := peer_slots peer @
          new_slots (peer_mode peer) (map (\<lambda>i. int (length (pool_nodes pool) + i)) [0..<nat count]), peer_alloc := al\<rparr>) \<or>
     s \<noteq> KIT_OK \<and> pool_nodes pool' = pool_nodes pool \<and> (\<exists>al. peer' = peer\<lparr>peer_alloc := al\<rparr>)"
    using peer_pool_open_cases [of os protocol port count pool peer w] by blast
  have "peer_pool_open os True (Some pool) (Some peer) protocol port count w = Some (s, Some pool', Some peer', w')"
    using run by (simp add: peer_pool_open_def with_pool_def)
  with cases show ?thesis by auto
qed

text \<open>C38. When the system refuses the first of several sockets, the clean-up closes descriptor 0 once for every
  socket that was not tried (assertions off): their nodes hold the zero of \<open>memset\<close>, not
  \<open>INVALID_SOCKET\<close>.\<close>

theorem pool_open_closes_descriptor_zero:
  assumes "os_socket os w = (INVALID_SOCKET, w1)" and "alloc_ok (pool_alloc pool)"
  shows "\<exists>al. peer_pool_open os True (Some pool) (Some peer) PEER_UDP_IPv4 port (int (Suc k)) w =
    Some (PEER_ERROR_CREATE_SOCKET_FAILED, Some (pool\<lparr>pool_alloc := al\<rparr>), Some peer, (os_close os 0 ^^ k) w1)"
proof -
  let ?n = "length (pool_nodes pool)"
  obtain f al where "da_resize (\<lambda>_ _. zero_node) (?n + Suc k) (pool_nodes pool) (pool_alloc pool) =
      (pool_nodes pool @ map (\<lambda>_. zero_node) [?n..<?n + Suc k], al)" "alloc_ok al"
    using assms(2) by (rule da_resize_ok [where fresh = "\<lambda>_ _. zero_node" and xs = "pool_nodes pool" and n = "?n + Suc k"]) auto
  then have "open_protocol os True PEER_UDP_IPv4 port (Suc k) pool w = Some (PEER_ERROR_CREATE_SOCKET_FAILED,
      pool\<lparr>pool_nodes := pool_nodes pool @ zero_node\<lparr>node_socket := INVALID_SOCKET\<rparr> # replicate k zero_node, pool_alloc := al\<rparr>, w1)"
    using open_nodes_refused [OF assms(1), of port k] by (simp add: open_protocol_def)
  moreover have "close_nodes os (zero_node\<lparr>node_socket := INVALID_SOCKET\<rparr> # replicate k zero_node) w1 = (os_close os 0 ^^ k) w1"
    using close_zero_nodes [of os k w1] by (simp add: close_nodes_def)
  ultimately show ?thesis
    by (auto simp: peer_pool_open_def with_pool_def peer_pool_open_body_def da_resize_def nat_add_distrib)
qed

theorem pool_open_closes_descriptor_zero_witness:
  "\<exists>al. peer_pool_open (example_os\<lparr>os_socket := (\<lambda>w. (INVALID_SOCKET, w))\<rparr>) True (Some example_pool) (Some connected_client)
      PEER_UDP_IPv4 0 (int (Suc 2)) (0, [], []) =
    Some (PEER_ERROR_CREATE_SOCKET_FAILED, Some (example_pool\<lparr>pool_alloc := al\<rparr>), Some connected_client,
      (os_close (example_os\<lparr>os_socket := (\<lambda>w. (INVALID_SOCKET, w))\<rparr>) 0 ^^ 2) (0, [], []))"
  by (rule pool_open_closes_descriptor_zero) (simp_all add: example_pool_def)

text \<open>C34. \<open>peer_pool_connect\<close> accepts addresses of up to 62 characters, but the address of a slot has room for 61
  after protocol and port: with 62 characters the next look at the slot writes past the array, in every
  build; with fewer it does not.\<close>

theorem address_size_bound:
  assumes "pool_wf (pool_nodes pool)" and "node_key (pool_nodes pool) i = Some (PEER_UDP_IPv4, port, bs)"
    and "endpoint_wf (slot_remote slot)" and "endpoint_id (slot_remote slot) = int i"
    and "\<not> is_address_resolved (slot_remote slot)"
  shows "resolve_remote nd (pool_nodes pool) slot = None \<longleftrightarrow> length bs = 62"
proof -
  have "list_all node_wf (pool_nodes pool)" using assms(1) by (simp add: pool_wf_def)
  then show ?thesis
    using resolve_remote_eq [OF _ assms(2-5), of nd] node_key_Some(7) [OF assms(2)] by auto
qed

theorem address_size_bound_witness:
  "resolve_remote True [remote_node (PEER_UDP_IPv4, 9000, replicate 62 53)] (hd (peer_slots connected_client)) = None"
proof -
  let ?pool = "\<lparr>pool_alloc = [], pool_nodes = [remote_node (PEER_UDP_IPv4, 9000, replicate 62 53)]\<rparr>"
  have "pool_wf (pool_nodes ?pool)" by (simp add: pool_wf_def node_wf_def nodes.unique_def node_key_def list_all_iff)
  moreover have "node_key (pool_nodes ?pool) 0 = Some (PEER_UDP_IPv4, 9000, replicate 62 53)"
    by (simp add: node_key_def remote_key_def)
  ultimately show ?thesis
    using address_size_bound [of ?pool 0 9000 "replicate 62 53" "hd (peer_slots connected_client)" True]
    by (simp add: connected_client_def example_defs endpoint_wf_def)
qed

end
