(* ===== verification/Peer_Pool_Tick.thy ===== *)
theory Peer_Pool_Tick
  imports Peer_Nodes
begin

text \<open>
  A tick of a socket pool. The receiving loop, whose bound grows while it runs, is shown equal to one
  pass over the nodes there were at its start. The operations of the pool keep peer and pool
  well-formed whatever the system does. A packet of protocol messages that one pool sends and
  another receives is the same packet, with the ids of the receiver.
\<close>

subsection \<open>The receiving loop\<close>

text \<open>One pass over a list of numbered nodes.\<close>

fun receive_each ::
  "'w os_ops \<Rightarrow> bool \<Rightarrow> (nat \<times> peer_node_t) list \<Rightarrow> 'w recv_state \<Rightarrow> 'w recv_state option" where
  "receive_each os nd [] st = Some st"
| "receive_each os nd ((i, node) # nodes) st = do {
     st' \<leftarrow> receive_node os nd i node st;
     receive_each os nd nodes st'
   }"

lemma receive_each_append:
  "receive_each os nd (xs @ ys) st = Option.bind (receive_each os nd xs st) (receive_each os nd ys)"
  by (induction os nd xs st rule: receive_each.induct) (auto cong: option_bind_cong)

lemma receive_node_remote:
  "node_socket node = INVALID_SOCKET \<Longrightarrow> receive_node os nd i node st = Some st"
  by (cases st) (simp add: receive_node_def)

lemma receive_each_remote:
  "\<forall>(i, node) \<in> set xs. node_socket node = INVALID_SOCKET \<Longrightarrow> receive_each os nd xs st = Some st"
  by (induction os nd xs st rule: receive_each.induct) (simp_all add: receive_node_remote)

lemma receive_nodes_each:
  "receive_nodes os nd i (status, pool, packets, w) =
    receive_each os nd (zip [i..<length (pool_nodes pool)] (drop i (pool_nodes pool))) (status, pool, packets, w)"
proof (induction os nd i "(status, pool, packets, w)" arbitrary: status pool packets w rule: receive_nodes.induct)
  case (1 os nd i status pool packets w)
  let ?nodes = "pool_nodes pool"
  show ?case
  proof (cases "i < length ?nodes")
    case True
    have split: "zip [i..<length ?nodes] (drop i ?nodes) =
        (i, ?nodes ! i) # zip [Suc i..<length ?nodes] (drop (Suc i) ?nodes)"
      using True by (simp add: upt_conv_Cons Cons_nth_drop_Suc [symmetric])
    show ?thesis
    proof (cases "receive_node os nd i (?nodes ! i) (status, pool, packets, w)")
      case None
      then show ?thesis using True split by (simp add: receive_nodes.simps)
    next
      case (Some st)
      obtain status' pool' packets' w' where st: "st = (status', pool', packets', w')" by (cases st)
      obtain new where new: "pool_nodes pool' = ?nodes @ new" "\<forall>node \<in> set new. node_socket node = INVALID_SOCKET"
        using receive_node_grows [OF Some [unfolded st]] by blast
      let ?old = "zip [Suc i..<length ?nodes] (drop (Suc i) ?nodes)"
      let ?new = "zip [length ?nodes..<length ?nodes + length new] new"
      have "zip [Suc i..<length (pool_nodes pool')] (drop (Suc i) (pool_nodes pool')) = ?old @ ?new"
        using True by (simp add: new(1) upt_add_eq_append [of "Suc i"] zip_append)
      moreover have "receive_each os nd ?new = Some"
        using new(2) by (intro ext receive_each_remote) (auto dest: set_zip_rightD)
      ultimately have "receive_nodes os nd (Suc i) st = receive_each os nd ?old st"
        using 1(1) [OF True Some [unfolded st]] by (simp add: st receive_each_append)
      then show ?thesis using True Some split by (simp add: receive_nodes.simps [of os nd i])
    qed
  qed (simp add: receive_nodes.simps)
qed

subsection \<open>Received packets\<close>

lemma append_packet_eq:
  assumes "alloc_ok (pool_alloc pool)" and "length buf \<le> 400"
  shows "\<exists>al. alloc_ok al \<and> append_packet nd i sid buf (status, pool, packets, w) = Some (status, pool\<lparr>pool_alloc := al\<rparr>,
    packets @ [\<lparr>source_id = sid, destination_id = int i, packet_size = int (length buf),
      packet_data = buf @ replicate (400 - length buf) 0\<rparr>], w)"
proof -
  obtain f al where "da_resize (\<lambda>_ _. zero_packet) (length packets + 1) packets (pool_alloc pool) =
      (packets @ map (\<lambda>_. zero_packet) [length packets..<length packets + 1], al)" "alloc_ok al"
    using assms(1) by (rule da_resize_ok [where fresh = "\<lambda>_ _. zero_packet" and xs = packets and n = "length packets + 1"]) auto
  then show ?thesis
    using assms(2) by (intro exI [of _ al]) (simp add: append_packet_def Let_def c_memcpy_def zero_packet_def)
qed

text \<open>What can be said of a received packet without knowing the system: its data has the size of a packet, and
  its ids are positions of nodes.\<close>

definition received_ok :: "peer_nodes_t \<Rightarrow> peer_packet_t \<Rightarrow> bool" where
  "received_ok nodes p \<longleftrightarrow> length (packet_data p) = 400 \<and> 0 \<le> source_id p \<and> source_id p < int (length nodes) \<and>
     0 \<le> packet_size p \<and> packet_size p \<le> 400"

lemma received_ok_grow: "received_ok nodes p \<Longrightarrow> nodes_grow nodes nodes' \<Longrightarrow> received_ok nodes' p"
  by (auto simp: received_ok_def nodes_grow_def)

lemma append_packet_ok:
  assumes "append_packet nd i sid buf (status, pool, packets, w) = Some (status', pool', packets', w')"
    and "0 \<le> sid" and "sid < int (length nodes)" and "list_all (received_ok nodes) packets"
  shows "list_all (received_ok nodes) packets'"
proof -
  obtain packets1 al where res: "da_resize (\<lambda>_ _. zero_packet) (length packets + 1) packets (pool_alloc pool) = (packets1, al)"
    by fastforce
  have "packets1 = packets \<or> packets1 = packets @ [zero_packet]" using da_resize_cases [OF res] by auto
  then show ?thesis
    using assms res
    by (auto simp: append_packet_def Let_def c_assert_bind c_memcpy_def zero_packet_def received_ok_def
        split: if_splits dest!: bind_eq_SomeD)
qed

lemma receive_node_wf:
  assumes "receive_node os nd i node (status, pool, packets, w) = Some (status', pool', packets', w')"
    and "pool_wf (pool_nodes pool)" and "list_all (received_ok (pool_nodes pool)) packets"
  shows "pool_wf (pool_nodes pool') \<and> nodes_grow (pool_nodes pool) (pool_nodes pool') \<and>
    list_all (received_ok (pool_nodes pool')) packets'"
proof (cases "pool' = pool \<and> packets' = packets")
  case True
  then show ?thesis using assms(2,3) by simp
next
  case False
  then obtain protocol port n addr s found pool1 buf w1 where
    find: "find_pool_node os nd pool protocol port n addr = Some (s, found, pool1)"
    and rest: "(s \<noteq> KIT_OK \<and> pool' = pool1 \<and> packets' = packets) \<or>
      (s = KIT_OK \<and> (\<exists>sid. found = Some sid \<and> append_packet nd i sid buf (status, pool1, packets, w1) = Some (status', pool', packets', w')))"
    using assms(1)
    by (auto simp: receive_node_def Let_def c_assert_bind split: if_splits prod.splits recv_result.splits
        dest!: bind_eq_SomeD)
  note post = find_pool_node_wf [OF assms(2) find]
  have grow: "nodes_grow (pool_nodes pool) (pool_nodes pool1)" using post by (auto simp: nodes_grow_def)
  then have old: "list_all (received_ok (pool_nodes pool1)) packets"
    using assms(3) received_ok_grow by (auto simp: list_all_iff)
  from rest show ?thesis
  proof (elim disjE conjE exE)
    fix sid
    assume "s = KIT_OK" "found = Some sid"
      and app: "append_packet nd i sid buf (status, pool1, packets, w1) = Some (status', pool', packets', w')"
    then have "0 \<le> sid" "sid < int (length (pool_nodes pool1))" using post by auto
    then show ?thesis using append_packet_ok [OF app _ _ old] append_packet_pool [OF app] post grow by simp
  qed (use post grow old in simp)
qed

lemma receive_nodes_wf:
  assumes "receive_nodes os nd i (status, pool, packets, w) = Some (status', pool', packets', w')"
    and "pool_wf (pool_nodes pool)" and "list_all (received_ok (pool_nodes pool)) packets"
  shows "pool_wf (pool_nodes pool') \<and> nodes_grow (pool_nodes pool) (pool_nodes pool') \<and>
    list_all (received_ok (pool_nodes pool')) packets'"
  using assms
proof (induction os nd i "(status, pool, packets, w)" arbitrary: status pool packets w rule: receive_nodes.induct)
  case (1 os nd i status pool packets w)
  show ?case
  proof (cases "i < length (pool_nodes pool)")
    case True
    then obtain s1 pool1 packets1 w1 where
      one: "receive_node os nd i (pool_nodes pool ! i) (status, pool, packets, w) = Some (s1, pool1, packets1, w1)"
      and rest: "receive_nodes os nd (Suc i) (s1, pool1, packets1, w1) = Some (status', pool', packets', w')"
      using 1(2) by (auto simp: receive_nodes.simps [of os nd i] dest!: bind_eq_SomeD)
    show ?thesis
      using receive_node_wf [OF one 1(3,4)] 1(1) [OF True one rest] nodes_grow_trans by blast
  next
    case False
    then show ?thesis using 1(2-4) by (simp add: receive_nodes.simps)
  qed
qed

subsection \<open>The tick keeps peer and pool well-formed\<close>

text \<open>The parts of a tick that returns.\<close>

lemma peer_pool_tick_parts:
  assumes "peer_pool_tick_body M os nd dt pool peer w = Some (s, pool', peer', w')"
  obtains (refused) "pool' = pool" and "peer' = peer" and "w' = w"
  | (parts) s1 pool1 peer1 s2 packets w2 s3 peer3 tick s5 where
    "resolve_address_and_id os nd pool peer = Some (s1, pool1, peer1)"
    and "receive_nodes os nd 0 (s1, pool1, [], w) = Some (s2, pool', packets, w2)"
    and "peer_input nd (Some peer1) packets = Some (s3, Some peer3)"
    and "peer_tick M nd (Some peer3) dt = Some (tick, Some peer')"
    and "send_packets os nd (pool_nodes pool') (tick_packets tick) (s2 OR s3, w2) = Some (s5, w')"
  using assms
  by (cases "dt < 0") (auto simp: peer_pool_tick_body_def c_assert_bind split: if_splits dest!: bind_eq_SomeD)

lemma peer_pool_tick_wf:
  assumes "peer_pool_tick_body M os nd dt pool peer w = Some (s, pool', peer', w')"
    and "pool_wf (pool_nodes pool)" and "peer_wf peer"
  shows "pool_wf (pool_nodes pool') \<and> peer_wf peer' \<and> nodes_grow (pool_nodes pool) (pool_nodes pool')"
  using assms(1)
proof (cases rule: peer_pool_tick_parts)
  case refused
  then show ?thesis using assms(2,3) by simp
next
  case (parts s1 pool1 peer1 s2 packets w2 s3 peer3 tick s5)
  note 1 = resolve_resolved [OF parts(1) assms(2,3)]
  have 2: "pool_wf (pool_nodes pool') \<and> nodes_grow (pool_nodes pool1) (pool_nodes pool') \<and>
      list_all (received_ok (pool_nodes pool')) packets"
    using receive_nodes_wf [OF parts(2)] 1 by simp
  then have "\<forall>q \<in> set packets. length (packet_data q) = 400 \<and> source_id q \<noteq> - 1"
    by (auto simp: list_all_iff received_ok_def)
  then have "peer_wf peer3" using api_wf(2) [OF _ _ parts(3)] 1 by blast
  then show ?thesis using api_wf(3) [OF _ parts(4)] 1 2 nodes_grow_trans by blast
qed

subsection \<open>Connecting\<close>

text \<open>\<open>peer_connect\<close> in terms of the first free slot.\<close>

definition connected :: "ptrdiff_t \<Rightarrow> peer_slot_t \<Rightarrow> peer_slot_t" where
  "connected server_id slot = slot\<lparr>slot_remote := (slot_remote slot)
     \<lparr>endpoint_id := server_id, is_id_resolved := True, address_size := 0\<rparr>\<rparr>"

lemma connect_slots_first:
  "connect_slots server_id slots = (case find_slot (\<lambda>slot. endpoint_id (slot_remote slot) = PEER_UNDEFINED) 0 slots of
     Some k \<Rightarrow> Some (slots[k := connected server_id (slots ! k)]) | None \<Rightarrow> None)"
proof -
  have "connect_slots server_id slots = (case find_slot (\<lambda>slot. endpoint_id (slot_remote slot) = PEER_UNDEFINED) i slots of
     Some k \<Rightarrow> Some (slots[k - i := connected server_id (slots ! (k - i))]) | None \<Rightarrow> None)" for i
  proof (induction slots arbitrary: i)
    case (Cons slot slots)
    show ?case
    proof (cases "endpoint_id (slot_remote slot) = PEER_UNDEFINED")
      case True
      then show ?thesis by (simp add: connected_def)
    next
      case False
      show ?thesis
      proof (cases "find_slot (\<lambda>slot. endpoint_id (slot_remote slot) = PEER_UNDEFINED) (Suc i) slots")
        case None
        then show ?thesis using False Cons.IH [of "Suc i"] by simp
      next
        case (Some k)
        then have "k - i = Suc (k - Suc i)" using find_slot_Some [OF Some] by linarith
        then show ?thesis using False Some Cons.IH [of "Suc i"] by simp
      qed
    qed
  qed simp
  from this [of 0] show ?thesis by (simp split: option.split)
qed

lemma find_slot_append:
  "find_slot P i (slots @ slots') = (case find_slot P i slots of Some k \<Rightarrow> Some k | None \<Rightarrow> find_slot P (i + length slots) slots')"
  by (induction slots arbitrary: i) (auto split: option.split)

text \<open>The body of \<open>peer_pool_connect\<close> for a valid address.\<close>

lemma peer_pool_connect_found:
  assumes "pool_wf (pool_nodes pool)" and "alloc_ok (pool_alloc pool)" and "0 < n" and "n \<le> 62"
    and "n \<le> int (length address)" and "port \<noteq> PEER_ANY_PORT"
    and "intern_node (pool_nodes pool) (PEER_UDP_IPv4, port, take (nat n) address) = (j, nodes')"
  shows "\<exists>al. alloc_ok al \<and> peer_pool_connect_body os True PEER_UDP_IPv4 n address port pool peer w =
    (case find_slot (\<lambda>slot. endpoint_id (slot_remote slot) = PEER_UNDEFINED) 0 (peer_slots peer) of
      Some k \<Rightarrow> Some (KIT_OK, pool\<lparr>pool_nodes := nodes', pool_alloc := al\<rparr>,
        peer\<lparr>peer_slots := (peer_slots peer)[k := connected (int j) (peer_slots peer ! k)]\<rparr>, w)
    | None \<Rightarrow> do {
        (s, pool2, peer2, w2) \<leftarrow> peer_pool_open_body os True PEER_UDP_IPv4 PEER_ANY_PORT 1
          (pool\<lparr>pool_nodes := nodes', pool_alloc := al\<rparr>) peer w;
        if s \<noteq> KIT_OK then Some (s, pool2, peer2, w2)
        else do {
          (s3, p3) \<leftarrow> peer_connect True (Some peer2) (int j);
          peer3 \<leftarrow> p3;
          Some (s3, pool2, peer3, w2)
        }
      })"
proof -
  have wf: "list_all node_wf (pool_nodes pool)" using assms(1) by (simp add: pool_wf_def)
  obtain al where al: "alloc_ok al" "find_pool_node os True pool PEER_UDP_IPv4 port n (In_buffer address) =
      Some (KIT_OK, Some (int j), pool\<lparr>pool_nodes := nodes', pool_alloc := al\<rparr>)"
    using find_pool_node_eq [OF wf assms(3,4) _ assms(5,2) _ assms(7), of "In_buffer address" os True]
    by (auto simp: address_bytes_def)
  then show ?thesis
    using assms(3,4,6)
    by (intro exI [of _ al]) (auto simp: peer_pool_connect_body_def peer_connect_def with_peer_def peer_connect_body_def
        connect_slots_first split: option.split)
qed

subsection \<open>Datagrams\<close>

text \<open>The bytes of a packet that are sent.\<close>

definition payload :: "wire_message list \<Rightarrow> byte list" where
  "payload ms = replicate 12 0 @ PEER_PACKET_MODE_PLAIN #
     le16 (word_of_int (15 + int (length (concat (map wire_bytes ms))))) @ concat (map wire_bytes ms)"

lemma payload_length: "length (payload ms) = 15 + length (concat (map wire_bytes ms))"
  by (simp add: payload_def)

lemma wire_packet_payload:
  assumes "packet_ok ms"
  shows "wire_packet src dst ms = \<lparr>source_id = src, destination_id = dst, packet_size = int (length (payload ms)),
    packet_data = payload ms @ replicate (400 - length (payload ms)) 0\<rparr>"
  using assms by (simp add: wire_packet_def closed_packet_def payload_def packet_ok_def)

lemma payload_size: "packet_ok ms \<Longrightarrow> length (payload ms) \<le> 400"
  by (simp add: payload_length packet_ok_def)

lemma payload_not_Nil: "payload ms \<noteq> []"
  by (simp add: payload_def)

text \<open>A remote address without zeros, of less than 62 characters, is read back as a C string.\<close>

lemma node_address_string:
  assumes "list_all node_wf nodes" and "node_key nodes i = Some (protocol, port, name)" and "length name \<le> 61" and "0 \<notin> set name"
  shows "c_string (remote_address (nodes ! i)) = Some name"
proof -
  note node = node_key_Some [OF assms(2,1)]
  have "node_wf (nodes ! i)" using assms(1) node(1) by (simp add: list_all_length)
  then have "\<forall>b \<in> set (drop (length name) (remote_address (nodes ! i))). b = 0"
    using node(4) by (simp add: node_wf_def list_all_iff)
  then obtain zs where zs: "remote_address (nodes ! i) = name @ zs" "\<forall>b \<in> set zs. b = 0"
    using node(5) by (metis append_take_drop_id)
  then have "zs \<noteq> []" using node(6) assms(3) by auto
  then obtain z zs' where "zs = 0 # zs'" using zs(2) by (cases zs) auto
  then show ?thesis using zs(1) assms(4) by (auto simp: c_string_def takeWhile_tail takeWhile_eq_all_conv)
qed

lemma send_packet_eq:
  assumes "list_all node_wf nodes" and "packet_ok ms" and "i < length nodes" and "node_socket (nodes ! i) \<noteq> INVALID_SOCKET"
    and "node_protocol (nodes ! i) = PEER_UDP_IPv4" and "node_key nodes j = Some (PEER_UDP_IPv4, port, name)"
    and "length name \<le> 61" and "0 \<notin> set name" and "inet_pton os name = (1, addr)"
    and "os_sendto os (node_socket (nodes ! i)) (payload ms) addr port w = (int (length (payload ms)), w')"
  shows "send_packet os nd nodes (wire_packet (int i) (int j) ms) (status, w) = Some (status, w')"
  using assms node_address_string [OF assms(1,6-8)] node_key_Some(1-3) [OF assms(6,1)]
  by (simp add: send_packet_def wire_packet_payload node_target_def)

lemma receive_node_eq:
  assumes "pool_wf (pool_nodes pool)" and "alloc_ok (pool_alloc pool)" and "packet_ok ms"
    and "node_socket node \<noteq> INVALID_SOCKET" and "node_protocol node = PEER_UDP_IPv4"
    and "os_recvfrom os (node_socket node) w = (Datagram (payload ms) addr port, w')"
    and "0 < length (inet_ntop os addr)" and "length (inet_ntop os addr) \<le> 62"
    and "intern_node (pool_nodes pool) (PEER_UDP_IPv4, port, inet_ntop os addr) = (j, nodes')"
  shows "\<exists>al. alloc_ok al \<and> receive_node os nd i node (status, pool, packets, w) =
    Some (status, pool\<lparr>pool_nodes := nodes', pool_alloc := al\<rparr>, packets @ [wire_packet (int j) (int i) ms], w')"
proof -
  have wf: "list_all node_wf (pool_nodes pool)" using assms(1) by (simp add: pool_wf_def)
  obtain al where al: "alloc_ok al" "find_pool_node os nd pool PEER_UDP_IPv4 port (int (length (inet_ntop os addr)))
      (In_buffer (inet_ntop os addr)) = Some (KIT_OK, Some (int j), pool\<lparr>pool_nodes := nodes', pool_alloc := al\<rparr>)"
    using find_pool_node_eq [OF wf _ _ _ _ assms(2), of "int (length (inet_ntop os addr))" "In_buffer (inet_ntop os addr)"
        "inet_ntop os addr" os port j nodes' nd] assms(7-9) by (auto simp: address_bytes_def)
  obtain al' where "alloc_ok al'" "append_packet nd i (int j) (payload ms) (status, pool\<lparr>pool_nodes := nodes', pool_alloc := al\<rparr>, packets, w') =
      Some (status, pool\<lparr>pool_nodes := nodes', pool_alloc := al'\<rparr>, packets @ [wire_packet (int j) (int i) ms], w')"
    using append_packet_eq [of "pool\<lparr>pool_nodes := nodes', pool_alloc := al\<rparr>" "payload ms" nd i "int j" status packets w']
      al(1) payload_size [OF assms(3)] by (auto simp: wire_packet_payload [OF assms(3)])
  then show ?thesis
    using al(2) assms(4-6) payload_not_Nil by (auto simp: receive_node_def)
qed

subsection \<open>Properties\<close>

text \<open>C24. The receiving loop of \<open>peer_pool_tick\<close> looks at every node there was at its start exactly once, in
  order, and at no node that it adds itself, although its bound is the current number of nodes.\<close>

theorem receive_loop_one_pass:
  "receive_nodes os nd 0 (status, pool, packets, w) =
    receive_each os nd (zip [0..<length (pool_nodes pool)] (pool_nodes pool)) (status, pool, packets, w)"
  using receive_nodes_each [of os nd 0 status pool packets w] by simp

text \<open>C23. A tick of the pool keeps peer and pool well-formed, whatever the system delivers or refuses and
  whatever the allocators answer; nodes are only added, at the end, and they are remote ones.\<close>

theorem pool_tick_preserves_wf:
  assumes "peer_pool_tick M os nd (Some pool) (Some peer) dt w = Some (s, Some pool', Some peer', w')"
    and "pool_wf (pool_nodes pool)" and "peer_wf peer"
  shows "pool_wf (pool_nodes pool') \<and> peer_wf peer' \<and> nodes_grow (pool_nodes pool) (pool_nodes pool')"
proof -
  have "peer_pool_tick_body M os nd dt pool peer w = Some (s, pool', peer', w')"
    using assms(1) by (auto simp: peer_pool_tick_def with_pool_def dest!: bind_eq_SomeD)
  from peer_pool_tick_wf [OF this assms(2,3)] show ?thesis .
qed

text \<open>A client with one socket, whose slot is connected to the node of a remote address.\<close>

definition tick_pool :: peer_socket_pool_t where
  "tick_pool = \<lparr>pool_alloc = [], pool_nodes = [remote_node (PEER_UDP_IPv4, 9000, [53]),
     zero_node\<lparr>node_socket := 3, node_protocol := PEER_UDP_IPv4, local_port := 7000\<rparr>]\<rparr>"

lemma tick_pool_wf: "pool_wf (pool_nodes tick_pool)"
  by (auto simp: tick_pool_def pool_wf_def node_wf_def nodes.unique_def node_key_def remote_key_def zero_node_def
      list_all_iff less_Suc_eq nth_Cons' split: if_splits)

definition tick_client :: "unit peer_t" where
  "tick_client = connected_client\<lparr>peer_slots := [(hd (peer_slots connected_client))
     \<lparr>slot_local := (slot_local (hd (peer_slots connected_client)))\<lparr>endpoint_id := 1\<rparr>,
      slot_queue := [], clock_heartbeat := 20\<rparr>]\<rparr>"

lemma tick_client_wf: "peer_wf tick_client"
  by (simp add: tick_client_def connected_client_def example_defs peer_wf_def mode_slot_wf_def queue_wf_def wf_defs
      is_int64_def)

lemma tick_client_ticks:
  "\<exists>s pool' peer' w'. peer_pool_tick example_mt64 example_os True (Some tick_pool) (Some tick_client) 5 (2, [], []) =
    Some (s, Some pool', Some peer', w')"
  by (simp add: peer_pool_tick_def with_pool_def peer_pool_tick_body_def resolve_address_and_id_def resolve_slot_def
      resolve_local_def resolve_remote_def resolve_id_by_port_def resolve_id_by_address_def tick_client_def
      connected_client_def example_defs tick_pool_def c_load_def write_port_eq c_memcpy_def Let_def receive_nodes.simps
      receive_node_def zero_node_def example_os_def peer_input_def with_peer_def peer_input_body_def peer_tick_def
      peer_tick_body_def tick_clock_def client_send_def client_send_slot_def find_pool_node_def address_bytes_def
      node_matches_def ar_equal_def append_packet_def da_resize_def c_store_def zero_packet_def input_packet_def
      slot_matches_def peer_unpack_def unpack_packet_def)

theorem pool_tick_preserves_wf_witness:
  "\<exists>s pool' peer' w'. peer_pool_tick example_mt64 example_os True (Some tick_pool) (Some tick_client) 5 (2, [], []) =
      Some (s, Some pool', Some peer', w') \<and>
    pool_wf (pool_nodes pool') \<and> peer_wf peer' \<and> nodes_grow (pool_nodes tick_pool) (pool_nodes pool')"
proof -
  obtain s pool' peer' w' where run: "peer_pool_tick example_mt64 example_os True (Some tick_pool) (Some tick_client) 5 (2, [], []) =
      Some (s, Some pool', Some peer', w')" using tick_client_ticks by blast
  from pool_tick_preserves_wf [OF run tick_pool_wf tick_client_wf] run show ?thesis by blast
qed

text \<open>C31. Connecting to an address (assertions off) always returns. It takes the first slot without a remote, and
  connects it to the id of the address; when there is none, a socket with its slot is opened and
  that slot is connected; when that fails, the error is reported and the slots are as before.\<close>

theorem pool_connect_slot:
  assumes "pool_wf (pool_nodes pool)" and "alloc_ok (pool_alloc pool)" and "0 < n" and "n \<le> 62"
    and "n \<le> int (length address)" and "port \<noteq> PEER_ANY_PORT"
    and "intern_node (pool_nodes pool) (PEER_UDP_IPv4, port, take (nat n) address) = (j, nodes')"
  shows "\<exists>s pool' peer' w'. peer_pool_connect os True (Some pool) (Some peer) PEER_UDP_IPv4 n address port w =
      Some (s, Some pool', Some peer', w') \<and> node_key (pool_nodes pool') j = Some (PEER_UDP_IPv4, port, take (nat n) address) \<and>
    (case find_slot (\<lambda>slot. endpoint_id (slot_remote slot) = PEER_UNDEFINED) 0 (peer_slots peer) of
      Some k \<Rightarrow> s = KIT_OK \<and> pool_nodes pool' = nodes' \<and> w' = w \<and>
        peer_slots peer' = (peer_slots peer)[k := connected (int j) (peer_slots peer ! k)]
    | None \<Rightarrow>
        s = KIT_OK \<and> (\<exists>node. pool_nodes pool' = nodes' @ [node] \<and> opened_node node) \<and> peer_slots peer' =
          peer_slots peer @ [connected (int j) (open_slot (peer_mode peer) 0 (int (length nodes')))] \<or>
        s \<noteq> KIT_OK \<and> pool_nodes pool' = nodes' \<and> peer_slots peer' = peer_slots peer)"
proof -
  let ?free = "\<lambda>slot. endpoint_id (slot_remote slot) = PEER_UNDEFINED"
  have key: "node_key nodes' j = Some (PEER_UDP_IPv4, port, take (nat n) address)"
    using nodes.intern_meaning [of "pool_nodes pool" "(PEER_UDP_IPv4, port, take (nat n) address)"] assms(7) by simp
  obtain al where run: "peer_pool_connect_body os True PEER_UDP_IPv4 n address port pool peer w =
    (case find_slot ?free 0 (peer_slots peer) of
      Some k \<Rightarrow> Some (KIT_OK, pool\<lparr>pool_nodes := nodes', pool_alloc := al\<rparr>,
        peer\<lparr>peer_slots := (peer_slots peer)[k := connected (int j) (peer_slots peer ! k)]\<rparr>, w)
    | None \<Rightarrow> do {
        (s, pool2, peer2, w2) \<leftarrow> peer_pool_open_body os True PEER_UDP_IPv4 PEER_ANY_PORT 1
          (pool\<lparr>pool_nodes := nodes', pool_alloc := al\<rparr>) peer w;
        if s \<noteq> KIT_OK then Some (s, pool2, peer2, w2)
        else do {
          (s3, p3) \<leftarrow> peer_connect True (Some peer2) (int j);
          peer3 \<leftarrow> p3;
          Some (s3, pool2, peer3, w2)
        }
      })"
    using peer_pool_connect_found [OF assms, of os peer w] by blast
  show ?thesis
  proof (cases "find_slot ?free 0 (peer_slots peer)")
    case (Some k)
    then show ?thesis using run key by (simp add: peer_pool_connect_def with_pool_def)
  next
    case None
    let ?pool = "pool\<lparr>pool_nodes := nodes', pool_alloc := al\<rparr>" and ?slot = "open_slot (peer_mode peer) 0 (int (length nodes'))"
    have new: "new_slots (peer_mode peer) (map (\<lambda>i. int (length nodes' + i)) [0..<nat 1]) = [?slot]"
      by (simp add: new_slots_def)
    from peer_pool_open_cases [of os PEER_UDP_IPv4 PEER_ANY_PORT 1 ?pool peer w] new
    obtain s pool2 peer2 w2 where open': "peer_pool_open_body os True PEER_UDP_IPv4 PEER_ANY_PORT 1 ?pool peer w = Some (s, pool2, peer2, w2)"
      and cases: "s = KIT_OK \<and> (\<exists>node. pool_nodes pool2 = nodes' @ [node] \<and> opened_node node) \<and>
          peer_slots peer2 = peer_slots peer @ [?slot] \<or>
        s \<noteq> KIT_OK \<and> pool_nodes pool2 = nodes' \<and> peer_slots peer2 = peer_slots peer"
      by (fastforce simp: length_Suc_conv)
    have key': "node_key (pool_nodes pool2) j = Some (PEER_UDP_IPv4, port, take (nat n) address)"
      using cases key by (auto simp: node_key_def nth_append split: if_splits)
    have "connect_slots (int j) (peer_slots peer @ [?slot]) = Some (peer_slots peer @ [connected (int j) ?slot])"
      using None by (simp add: connect_slots_first find_slot_append open_slot_def)
    then show ?thesis
      using run None open' cases key' by (auto simp: peer_pool_connect_def with_pool_def peer_connect_def with_peer_def peer_connect_body_def)
  qed
qed

theorem pool_connect_slot_witness:
  "\<exists>s pool' peer' w'. peer_pool_connect example_os True (Some example_pool) (Some connected_client) PEER_UDP_IPv4 1 [54] 9001 (0, [], []) =
      Some (s, Some pool', Some peer', w') \<and> node_key (pool_nodes pool') 1 = Some (PEER_UDP_IPv4, 9001, take (nat 1) [54]) \<and>
    (case find_slot (\<lambda>slot. endpoint_id (slot_remote slot) = PEER_UNDEFINED) 0 (peer_slots connected_client) of
      Some k \<Rightarrow> s = KIT_OK \<and> pool_nodes pool' = pool_nodes example_pool @ [remote_node (PEER_UDP_IPv4, 9001, [54])] \<and>
        w' = (0, [], []) \<and>
        peer_slots peer' = (peer_slots connected_client)[k := connected (int 1) (peer_slots connected_client ! k)]
    | None \<Rightarrow>
        s = KIT_OK \<and> (\<exists>node. pool_nodes pool' = (pool_nodes example_pool @ [remote_node (PEER_UDP_IPv4, 9001, [54])]) @ [node] \<and>
          opened_node node) \<and> peer_slots peer' = peer_slots connected_client @ [connected (int 1)
            (open_slot (peer_mode connected_client) 0 (int (length (pool_nodes example_pool @ [remote_node (PEER_UDP_IPv4, 9001, [54])]))))] \<or>
        s \<noteq> KIT_OK \<and> pool_nodes pool' = pool_nodes example_pool @ [remote_node (PEER_UDP_IPv4, 9001, [54])] \<and>
          peer_slots peer' = peer_slots connected_client)"
  by (rule pool_connect_slot [OF example_pool_wf]) (simp_all add: example_pool_def intern_node_def remote_key_def)

text \<open>C20. Packets survive the sockets: a packet of protocol messages that the system accepts is handed to it as one
  datagram, for the address of the destination node; and a pool that receives this datagram gives its
  peer the packet with the same messages, from the id of the sender's address to the id of the socket.\<close>

theorem datagram_roundtrip:
  assumes "packet_ok ms"
    and "pool_wf nodes" and "i < length nodes" and "node_socket (nodes ! i) \<noteq> INVALID_SOCKET"
    and "node_protocol (nodes ! i) = PEER_UDP_IPv4" and "node_key nodes j = Some (PEER_UDP_IPv4, port, name)"
    and "length name \<le> 61" and "0 \<notin> set name" and "inet_pton os name = (1, addr)"
    and "os_sendto os (node_socket (nodes ! i)) datagram addr port w = (int (length datagram), w')"
    and "datagram = take (nat (packet_size (wire_packet (int i) (int j) ms))) (packet_data (wire_packet (int i) (int j) ms))"
    and "pool_wf (pool_nodes pool)" and "alloc_ok (pool_alloc pool)" and "node_socket node \<noteq> INVALID_SOCKET"
    and "node_protocol node = PEER_UDP_IPv4"
    and "os_recvfrom os2 (node_socket node) w2 = (Datagram datagram addr2 port2, w2')"
    and "0 < length (inet_ntop os2 addr2)" and "length (inet_ntop os2 addr2) \<le> 62"
  shows "send_packet os nd nodes (wire_packet (int i) (int j) ms) (status, w) = Some (status, w') \<and>
    (\<exists>pool' l. receive_node os2 nd k node (status, pool, packets, w2) =
        Some (status, pool', packets @ [wire_packet (int l) (int k) ms], w2') \<and>
      node_key (pool_nodes pool') l = Some (PEER_UDP_IPv4, port2, inet_ntop os2 addr2))"
proof -
  have data: "datagram = payload ms" using assms(11) by (simp add: wire_packet_payload [OF assms(1)])
  have wf: "list_all node_wf nodes" using assms(2) by (simp add: pool_wf_def)
  let ?key = "(PEER_UDP_IPv4, port2, inet_ntop os2 addr2)"
  obtain l nodes' where l: "intern_node (pool_nodes pool) ?key = (l, nodes')" by fastforce
  have "node_key nodes' l = Some ?key" using nodes.intern_meaning [of "pool_nodes pool" ?key] l by simp
  moreover obtain al where "receive_node os2 nd k node (status, pool, packets, w2) =
      Some (status, pool\<lparr>pool_nodes := nodes', pool_alloc := al\<rparr>, packets @ [wire_packet (int l) (int k) ms], w2')"
    using receive_node_eq [OF assms(12,13,1,14,15) assms(16) [unfolded data] assms(17,18) l] by blast
  moreover have "send_packet os nd nodes (wire_packet (int i) (int j) ms) (status, w) = Some (status, w')"
    by (rule send_packet_eq [OF wf assms(1,3-9) assms(10) [unfolded data]])
  ultimately show ?thesis by auto
qed

text \<open>A system that receives a heartbeat.\<close>

definition heartbeat_os :: "example_world os_ops" where
  "heartbeat_os = example_os\<lparr>os_recvfrom := (\<lambda>s w. (Datagram (payload [M_heartbeat 3 1]) 5 9000, w))\<rparr>"

theorem datagram_roundtrip_witness:
  "send_packet example_os False (pool_nodes tick_pool) (wire_packet (int 1) (int 0) [M_heartbeat 3 1]) (KIT_OK, (2, [], [])) =
      Some (KIT_OK, (2, [], [(payload [M_heartbeat 3 1], 5, 9000)])) \<and>
    (\<exists>pool' l. receive_node heartbeat_os False 1 (pool_nodes tick_pool ! 1) (KIT_OK, tick_pool, [], (2, [], [])) =
        Some (KIT_OK, pool', [] @ [wire_packet (int l) (int 1) [M_heartbeat 3 1]], (2, [], [])) \<and>
      node_key (pool_nodes pool') l = Some (PEER_UDP_IPv4, 9000, inet_ntop heartbeat_os 5))"
proof (rule datagram_roundtrip [OF _ tick_pool_wf, where datagram = "payload [M_heartbeat 3 1]" and addr = 5 and name = "[53]"
      and port = 9000])
  show ok: "packet_ok [M_heartbeat 3 1]" by (simp add: packet_ok_def is_int64_def)
  show "payload [M_heartbeat 3 1] = take (nat (packet_size (wire_packet (int 1) (int 0) [M_heartbeat 3 1])))
      (packet_data (wire_packet (int 1) (int 0) [M_heartbeat 3 1]))"
    by (simp add: wire_packet_payload [OF ok])
qed (simp_all add: tick_pool_wf, simp_all add: tick_pool_def node_key_def remote_key_def zero_node_def example_os_def heartbeat_os_def)

end
