(* ===== verification/Peer_Network.thy ===== *)
theory Peer_Network
  imports Peer_Pool_Tick
begin

text \<open>
  The whole stack: a host and a client, each with its socket pool, over a network of datagrams. The steps are the
  operations an application calls (\<open>peer_queue\<close>, \<open>peer_pool_open\<close>, \<open>peer_pool_connect\<close>,
  \<open>peer_pool_tick\<close>), with any system under each pool; the datagrams the client receives are ones the
  host has sent, in any order, lost or repeated. Every step is shown to be a sequence of
  steps of the abstract session of \<open>Peer_Session\<close>, so that the agreement of the queues holds for
  the pools and sockets too.
\<close>

subsection \<open>What is sent\<close>

definition datagram :: "peer_packet_t \<Rightarrow> byte list" where
  "datagram p = take (nat (packet_size p)) (packet_data p)"

text \<open>At most one call of \<open>recvfrom\<close> is made for a node, and at most one packet is appended, from the id of
  the sender.\<close>

lemma receive_node_call:
  assumes "receive_node os nd i node (status, pool, packets, w) = Some (status', pool', packets', w')"
  shows "w' = w \<and> packets' = packets \<or>
    (\<exists>r. os_recvfrom os (node_socket node) w = (r, w') \<and> (packets' = packets \<or>
      (\<exists>buf addr port sid pool1. r = Datagram buf addr port \<and>
        find_pool_node os nd pool PEER_UDP_IPv4 port (int (length (inet_ntop os addr))) (In_buffer (inet_ntop os addr)) =
          Some (KIT_OK, Some sid, pool1) \<and>
        append_packet nd i sid buf (status, pool1, packets, w') = Some (status', pool', packets', w'))))"
proof (cases "node_socket node = INVALID_SOCKET \<or> node_protocol node \<noteq> PEER_UDP_IPv4")
  case True
  then show ?thesis using assms by (auto simp: receive_node_def)
next
  case False
  obtain r w1 where recv: "os_recvfrom os (node_socket node) w = (r, w1)" by fastforce
  show ?thesis
  proof (cases r)
    case (Datagram buf addr port)
    let ?name = "inet_ntop os addr"
    have "w' = w1 \<and> packets' = packets \<or>
      (\<exists>sid pool1. find_pool_node os nd pool PEER_UDP_IPv4 port (int (length ?name)) (In_buffer ?name) = Some (KIT_OK, Some sid, pool1) \<and>
        append_packet nd i sid buf (status, pool1, packets, w1) = Some (status', pool', packets', w'))"
      using assms False recv Datagram by (auto simp: receive_node_def Let_def split: if_splits dest!: bind_eq_SomeD)
    then show ?thesis
    proof (elim disjE exE conjE)
      fix sid pool1
      assume find: "find_pool_node os nd pool PEER_UDP_IPv4 port (int (length ?name)) (In_buffer ?name) = Some (KIT_OK, Some sid, pool1)"
        and app: "append_packet nd i sid buf (status, pool1, packets, w1) = Some (status', pool', packets', w')"
      have "w' = w1" using append_packet_pool [OF app] by simp
      then show ?thesis using recv Datagram find app by blast
    qed (use recv in simp)
  next
    case Recv_failed
    then show ?thesis
      using assms False recv by (auto simp: receive_node_def Let_def c_assert_bind split: if_splits)
  qed
qed

text \<open>A system whose state shows which datagrams it was given.\<close>

locale outbox =
  fixes os :: "'w os_ops" and sent :: "'w \<Rightarrow> byte list set"
  assumes sent_sendto: "os_sendto os s bs addr port w = (n, w') \<Longrightarrow> sent w' = insert bs (sent w)"
    and sent_recvfrom: "os_recvfrom os s w = (r, w') \<Longrightarrow> sent w' = sent w"
begin

lemma receive_node_sent:
  assumes "receive_node os nd i node (status, pool, packets, w) = Some (status', pool', packets', w')"
  shows "sent w' = sent w"
  using receive_node_call [OF assms] sent_recvfrom by auto

lemma receive_nodes_sent:
  assumes "receive_nodes os nd i (status, pool, packets, w) = Some (status', pool', packets', w')"
  shows "sent w' = sent w"
proof -
  have "sent w' = sent w" if "receive_each os nd xs (status, pool, packets, w) = Some (status', pool', packets', w')"
    for xs status pool packets w
    using that
  proof (induction xs arbitrary: status pool packets w)
    case (Cons x xs)
    obtain j node where x: "x = (j, node)" by (cases x)
    obtain s1 pool1 packets1 w1 where one: "receive_node os nd j node (status, pool, packets, w) = Some (s1, pool1, packets1, w1)"
      and rest: "receive_each os nd xs (s1, pool1, packets1, w1) = Some (status', pool', packets', w')"
      using Cons.prems by (auto simp: x dest!: bind_eq_SomeD)
    show ?case using receive_node_sent [OF one] Cons.IH [OF rest] by simp
  qed simp
  then show ?thesis using assms by (simp add: receive_nodes_each)
qed

lemma send_packet_sent:
  assumes "send_packet os nd nodes p (status, w) = Some (status', w')"
  shows "sent w' \<subseteq> insert (datagram p) (sent w)"
  using assms
  by (auto simp: send_packet_def datagram_def Let_def c_assert_bind split: if_splits prod.splits
      dest!: bind_eq_SomeD sent_sendto)

lemma send_packets_sent:
  assumes "send_packets os nd nodes ps (status, w) = Some (status', w')"
  shows "sent w' \<subseteq> datagram ` set ps \<union> sent w"
  using assms
proof (induction ps arbitrary: status w)
  case (Cons p ps)
  then obtain s1 w1 where one: "send_packet os nd nodes p (status, w) = Some (s1, w1)"
    and rest: "send_packets os nd nodes ps (s1, w1) = Some (status', w')"
    by (auto dest!: bind_eq_SomeD)
  show ?case using send_packet_sent [OF one] Cons.IH [OF rest] by auto
qed simp

end

text \<open>Any system, with a record of the datagrams it was given.\<close>

definition with_log :: "('w \<Rightarrow> 'a \<times> 'w) \<Rightarrow> 'w \<times> 'l \<Rightarrow> 'a \<times> 'w \<times> 'l" where
  "with_log f = (\<lambda>(w, log). let (a, w') = f w in (a, w', log))"

definition recording :: "'w os_ops \<Rightarrow> ('w \<times> byte list list) os_ops" where
  "recording os = \<lparr>
     os_socket = with_log (os_socket os), os_getfl = (\<lambda>s. with_log (os_getfl os s)),
     os_setfl = (\<lambda>s flags. with_log (os_setfl os s flags)), os_bind = (\<lambda>s port. with_log (os_bind os s port)),
     os_getsockname = (\<lambda>s. with_log (os_getsockname os s)), os_close = (\<lambda>s (w, log). (os_close os s w, log)),
     os_recvfrom = (\<lambda>s. with_log (os_recvfrom os s)),
     os_sendto = (\<lambda>s bs addr port (w, log). with_log (os_sendto os s bs addr port) (w, log @ [bs])),
     os_errno = (\<lambda>(w, log). os_errno os w), os_ignore_sigpipe = (\<lambda>(w, log). (os_ignore_sigpipe os w, log)),
     inet_ntop = inet_ntop os, inet_pton = inet_pton os, da_moves = da_moves os, O_NONBLOCK = O_NONBLOCK os,
     EAGAIN = EAGAIN os, EWOULDBLOCK = EWOULDBLOCK os, EMSGSIZE = EMSGSIZE os, ECONNRESET = ECONNRESET os\<rparr>"

interpretation recorder: outbox "recording os" "\<lambda>(w, log). set log" for os :: "'w os_ops"
  by unfold_locales (auto simp: recording_def with_log_def split: prod.splits)

text \<open>The datagrams of a tick: nothing is sent while receiving, and then packets of the peer.\<close>

lemma recorded_sent:
  assumes "receive_nodes (recording os) nd 0 (s1, pool1, [], (w, [])) = Some (s2, pool', packets, w2)"
    and "send_packets (recording os) nd nodes ps (s, w2) = Some (s', w', sent)"
  shows "set sent \<subseteq> datagram ` set ps"
proof -
  obtain v log where w2: "w2 = (v, log)" by (cases w2)
  have "log = []" using recorder.receive_nodes_sent [OF assms(1) [unfolded w2]] by simp
  then show ?thesis using recorder.send_packets_sent [OF assms(2)] by (simp add: w2)
qed

subsection \<open>What is received\<close>

text \<open>The datagrams that some sequence of \<open>recvfrom\<close> calls can return.\<close>

inductive receivable :: "'w os_ops \<Rightarrow> 'w \<Rightarrow> byte list \<Rightarrow> bool" for os where
  receivable_now: "os_recvfrom os s w = (Datagram buf addr port, w') \<Longrightarrow> receivable os w buf"
| receivable_later: "os_recvfrom os s w = (r, w') \<Longrightarrow> receivable os w' buf \<Longrightarrow> receivable os w buf"

definition received_from :: "'w os_ops \<Rightarrow> 'w \<Rightarrow> peer_packet_t \<Rightarrow> bool" where
  "received_from os w p \<longleftrightarrow> (\<exists>buf. receivable os w buf \<and> packet_size p = int (length buf) \<and>
     packet_data p = buf @ replicate (400 - length buf) 0)"

lemma append_packet_from:
  assumes "append_packet nd i sid buf (status, pool, packets, w) = Some (status', pool', packets', w')"
    and "p \<in> set packets'"
  shows "p \<in> set packets \<or>
    source_id p = sid \<and> packet_size p = int (length buf) \<and> packet_data p = buf @ replicate (400 - length buf) 0"
proof -
  obtain packets1 al where res: "da_resize (\<lambda>_ _. zero_packet) (length packets + 1) packets (pool_alloc pool) = (packets1, al)"
    by fastforce
  have "packets1 = packets \<or> packets1 = packets @ [zero_packet]" using da_resize_cases [OF res] by auto
  then show ?thesis
    using assms res
    by (auto simp: append_packet_def Let_def c_assert_bind c_memcpy_def zero_packet_def split: if_splits
        dest!: bind_eq_SomeD)
qed

lemma receive_node_from:
  assumes "receive_node os nd i node (status, pool, packets, w) = Some (status', pool', packets', w')"
  shows "(\<forall>p \<in> set packets'. p \<in> set packets \<or> received_from os w p) \<and>
    (\<forall>buf. receivable os w' buf \<longrightarrow> receivable os w buf)"
proof (cases "w' = w \<and> packets' = packets")
  case False
  then obtain r where recv: "os_recvfrom os (node_socket node) w = (r, w')"
    and new: "packets' = packets \<or> (\<exists>buf addr port sid pool1. r = Datagram buf addr port \<and>
      append_packet nd i sid buf (status, pool1, packets, w') = Some (status', pool', packets', w'))"
    using receive_node_call [OF assms] by auto
  have "received_from os w p" if "p \<in> set packets'" "p \<notin> set packets" for p
  proof -
    obtain buf addr port sid pool1 where "r = Datagram buf addr port"
      and app: "append_packet nd i sid buf (status, pool1, packets, w') = Some (status', pool', packets', w')"
      using new \<open>p \<in> set packets'\<close> \<open>p \<notin> set packets\<close> by auto
    then have "receivable os w buf" using recv receivable_now by fastforce
    then show ?thesis using append_packet_from [OF app that(1)] that(2) by (auto simp: received_from_def)
  qed
  then show ?thesis using receivable_later [OF recv] by blast
qed simp

lemma receive_nodes_from:
  assumes "receive_nodes os nd i (status, pool, [], w) = Some (status', pool', packets', w')" and "p \<in> set packets'"
  shows "received_from os w p"
proof -
  have "(\<forall>p \<in> set packets'. p \<in> set packets \<or> received_from os w p)"
    if "receive_each os nd xs (status, pool, packets, w) = Some (status', pool', packets', w')"
    for xs status pool packets w
    using that
  proof (induction xs arbitrary: status pool packets w)
    case (Cons x xs)
    obtain j node where x: "x = (j, node)" by (cases x)
    obtain s1 pool1 packets1 w1 where one: "receive_node os nd j node (status, pool, packets, w) = Some (s1, pool1, packets1, w1)"
      and rest: "receive_each os nd xs (s1, pool1, packets1, w1) = Some (status', pool', packets', w')"
      using Cons.prems by (auto simp: x dest!: bind_eq_SomeD)
    note old = receive_node_from [OF one]
    have "received_from os w p" if "received_from os w1 p" for p using that old by (auto simp: received_from_def)
    then show ?case using old Cons.IH [OF rest] by blast
  qed simp
  from this [of _ status pool "[]" w] show ?thesis using assms by (auto simp: receive_nodes_each)
qed

lemma recording_recvfrom:
  "os_recvfrom (recording os) s x = (r, x') \<Longrightarrow> os_recvfrom os s (fst x) = (r, fst x')"
  by (auto simp: recording_def with_log_def split: prod.splits)

lemma receivable_recording: "receivable (recording os) x buf \<Longrightarrow> receivable os (fst x) buf"
  by (induction rule: receivable.induct) (auto dest!: recording_recvfrom intro: receivable.intros)

subsection \<open>The network\<close>

record 'r network =
  host_pool :: peer_socket_pool_t
  net_host :: "'r peer_t"
  client_pool :: peer_socket_pool_t
  net_client :: "'r peer_t"
  net_wire :: "byte list set"
  net_up :: "byte list set"

text \<open>
  The calls of the two applications, in a release build. The allocators of the pools (\<open>pa\<close>) answer as they
  like; those of the peers grant the requests of queueing, receiving and sending. The system is in any
  state when it is called, in particular there may be any datagrams for the host, from anywhere; for the client there
  are datagrams that the host has sent. A peer has at most as many slots as there are actor ids, and the
  mutual queue at most as many messages as an index has values.
\<close>

text \<open>The calls that concern one peer and its pool: queueing a message and opening sockets.\<close>

inductive pool_call ::
  "'w os_ops \<Rightarrow> peer_socket_pool_t \<times> 'r peer_t \<Rightarrow> peer_socket_pool_t \<times> 'r peer_t \<Rightarrow> bool" for os where
  call_queue: "alloc_ok al \<Longrightarrow> length d \<le> 355 \<Longrightarrow>
    peer_queue True (Some (peer\<lparr>peer_alloc := al\<rparr>)) (chunk_ref d) = Some (st, Some peer') \<Longrightarrow>
    pool_call os (pool, peer) (pool, peer')"
| call_open: "int (length (peer_slots peer)) + count \<le> 0xffffffff \<Longrightarrow>
    peer_pool_open os True (Some (pool\<lparr>pool_alloc := pa\<rparr>)) (Some (peer\<lparr>peer_alloc := al\<rparr>))
      protocol port count w = Some (st, Some pool', Some peer', w') \<Longrightarrow>
    pool_call os (pool, peer) (pool', peer')"

inductive network_step ::
  "'r mt64_ops \<Rightarrow> 'w os_ops \<Rightarrow> 'v os_ops \<Rightarrow> 'r network \<Rightarrow> 'r network \<Rightarrow> bool" for M hos cos where
  net_host_call: "pool_call hos (host_pool n, net_host n) (pool', host') \<Longrightarrow>
    network_step M hos cos n (n\<lparr>host_pool := pool', net_host := host'\<rparr>)"
| net_host_tick: "alloc_ok al \<Longrightarrow>
    peer_pool_tick M (recording hos) True (Some ((host_pool n)\<lparr>pool_alloc := pa\<rparr>))
      (Some ((net_host n)\<lparr>peer_alloc := al\<rparr>)) dt (w, []) = Some (st, Some pool', Some host', w', sent) \<Longrightarrow>
    int (length (mutual_queue host')) \<le> INT64_MAX \<Longrightarrow>
    network_step M hos cos n (n\<lparr>host_pool := pool', net_host := host', net_wire := net_wire n \<union> set sent\<rparr>)"
| net_client_call: "pool_call cos (client_pool n, net_client n) (pool', client') \<Longrightarrow>
    network_step M hos cos n (n\<lparr>client_pool := pool', net_client := client'\<rparr>)"
| net_client_connect: "int (length (peer_slots (net_client n))) + 1 \<le> 0xffffffff \<Longrightarrow>
    peer_pool_connect cos True (Some ((client_pool n)\<lparr>pool_alloc := pa\<rparr>)) (Some ((net_client n)\<lparr>peer_alloc := al\<rparr>))
      protocol len address port v = Some (st, Some pool', Some client', v') \<Longrightarrow>
    network_step M hos cos n (n\<lparr>client_pool := pool', net_client := client'\<rparr>)"
| net_client_tick: "alloc_ok al \<Longrightarrow> \<forall>buf. receivable cos v buf \<longrightarrow> buf \<in> net_wire n \<Longrightarrow>
    peer_pool_tick M (recording cos) True (Some ((client_pool n)\<lparr>pool_alloc := pa\<rparr>))
      (Some ((net_client n)\<lparr>peer_alloc := al\<rparr>)) dt (v, []) = Some (st, Some pool', Some client', v', sent) \<Longrightarrow>
    network_step M hos cos n (n\<lparr>client_pool := pool', net_client := client', net_up := net_up n \<union> set sent\<rparr>)"

definition network_start :: "'r network \<Rightarrow> bool" where
  "network_start n \<longleftrightarrow> pool_wf (pool_nodes (host_pool n)) \<and> peer_wf (net_host n) \<and> peer_mode (net_host n) = PEER_HOST \<and>
     pool_wf (pool_nodes (client_pool n)) \<and> peer_wf (net_client n) \<and> peer_mode (net_client n) = PEER_CLIENT \<and>
     mutual_queue (net_client n) = [] \<and> net_wire n = {} \<and> net_up n = {}"

inductive network_reach ::
  "'r mt64_ops \<Rightarrow> 'w os_ops \<Rightarrow> 'v os_ops \<Rightarrow> 'r network \<Rightarrow> 'r network \<Rightarrow> bool" for M hos cos where
  network_reach_start: "network_start n \<Longrightarrow> network_reach M hos cos n n"
| network_reach_step: "network_reach M hos cos n0 n \<Longrightarrow> network_step M hos cos n n' \<Longrightarrow> network_reach M hos cos n0 n'"

subsection \<open>Networks as sessions\<close>

text \<open>Allocators are not part of the state of a session.\<close>

definition same_peer :: "'r peer_t \<Rightarrow> 'r peer_t \<Rightarrow> bool" where
  "same_peer p p' \<longleftrightarrow> (\<exists>al. p' = p\<lparr>peer_alloc := al\<rparr>)"

lemma same_peer_alloc: "same_peer p p' \<Longrightarrow> p\<lparr>peer_alloc := al\<rparr> = p'\<lparr>peer_alloc := al\<rparr>"
  by (auto simp: same_peer_def)

lemma same_peer_refl [simp]: "same_peer p p" "same_peer p (p\<lparr>peer_alloc := al\<rparr>)"
  by (auto simp: same_peer_def intro: exI [of _ "peer_alloc p"])

lemma same_peer_self: "same_peer p p' \<Longrightarrow> p\<lparr>peer_alloc := peer_alloc p'\<rparr> = p'"
  by (auto simp: same_peer_def)

lemma same_peer_wf: "same_peer p p' \<Longrightarrow> peer_wf p' = peer_wf p"
  by (auto simp: same_peer_def)

lemma session_steps_inv:
  assumes "(session_step M)\<^sup>*\<^sup>* s s'" and "session_inv s"
  shows "session_inv s' \<and> log_extends (sess_host s) (sess_host s')"
  using assms
proof (induction rule: rtranclp_induct)
  case (step s1 s2)
  then show ?case using session_step_inv log_extends_trans by blast
qed simp

text \<open>Opening and connecting.\<close>

lemma pool_open_peer:
  assumes "peer_pool_open_body os True protocol port count pool peer w = Some (st, pool', peer', w')"
    and "int (length (peer_slots peer)) + count \<le> 0xffffffff"
  shows "same_peer peer peer' \<or> (\<exists>ids al. int (length (peer_slots peer) + length ids) \<le> 0xffffffff \<and>
    peer_open True (Some (peer\<lparr>peer_alloc := al\<rparr>)) (ids_ref ids) = Some (KIT_OK, Some peer'))"
proof -
  let ?ids = "map (\<lambda>i. int (length (pool_nodes pool) + i)) [0..<nat count]"
  from peer_pool_open_cases [of os protocol port count pool peer w] assms(1)
  consider (ok) al where "0 < count"
      "peer' = peer\<lparr>peer_slots := peer_slots peer @ new_slots (peer_mode peer) ?ids, peer_alloc := al\<rparr>"
    | (error) al where "peer' = peer\<lparr>peer_alloc := al\<rparr>" by fastforce
  then show ?thesis
  proof cases
    case ok
    then have "peer_open True (Some (peer\<lparr>peer_alloc := Some (\<lambda>_. 0) # al\<rparr>)) (ids_ref ?ids) = Some (KIT_OK, Some peer')"
      by (simp add: peer_open_def with_peer_def peer_open_body_eq)
    moreover have "int (length (peer_slots peer) + length ?ids) \<le> 0xffffffff" using assms(2) ok(1) by simp
    ultimately show ?thesis by blast
  qed simp
qed

lemma pool_api:
  "peer_pool_open os nd (Some pool) (Some peer) protocol port count w = Some (st, Some pool', Some peer', w') \<longleftrightarrow>
    peer_pool_open_body os nd protocol port count pool peer w = Some (st, pool', peer', w')"
  "peer_pool_connect os nd (Some pool) (Some peer) protocol len address port w = Some (st, Some pool', Some peer', w') \<longleftrightarrow>
    peer_pool_connect_body os nd protocol len address port pool peer w = Some (st, pool', peer', w')"
  "peer_pool_tick M os nd (Some pool) (Some peer) dt w = Some (st, Some pool', Some peer', w') \<longleftrightarrow>
    peer_pool_tick_body M os nd dt pool peer w = Some (st, pool', peer', w')"
  by (auto simp: peer_pool_open_def peer_pool_connect_def peer_pool_tick_def with_pool_def dest!: bind_eq_SomeD)

text \<open>Queueing and opening, as steps \<open>R\<close> of the peer.\<close>

lemma pool_call_steps:
  assumes "pool_call os (pool, peer) (pool', peer')" and "same_peer p peer" and "peer_wf p" and "pool_wf (pool_nodes pool)"
    and queue: "\<And>al d st p'. alloc_ok al \<Longrightarrow> length d \<le> 355 \<Longrightarrow>
      peer_queue True (Some (p\<lparr>peer_alloc := al\<rparr>)) (chunk_ref d) = Some (st, Some p') \<Longrightarrow> R p p'"
    and opens: "\<And>ids al p'. int (length (peer_slots p) + length ids) \<le> 0xffffffff \<Longrightarrow>
      peer_open True (Some (p\<lparr>peer_alloc := al\<rparr>)) (ids_ref ids) = Some (KIT_OK, Some p') \<Longrightarrow> R p p'"
  shows "\<exists>p'. R\<^sup>*\<^sup>* p p' \<and> same_peer p' peer' \<and> pool_wf (pool_nodes pool')"
  using assms(1)
proof cases
  case (call_queue al d st)
  then have "R p peer'" using queue same_peer_alloc [OF assms(2), of al] by simp
  then show ?thesis using assms(4) call_queue(1) by (intro exI [of _ peer']) simp
next
  case (call_open count pa al protocol port w st w')
  let ?peer = "peer\<lparr>peer_alloc := al\<rparr>"
  have p: "peer_slots peer = peer_slots p" "same_peer p ?peer" "peer_wf ?peer"
    using assms(2,3) same_peer_wf [OF assms(2)] by (auto simp: same_peer_def)
  have body: "peer_pool_open_body os True protocol port count (pool\<lparr>pool_alloc := pa\<rparr>) ?peer w = Some (st, pool', peer', w')"
    using call_open(2) by (simp add: pool_api)
  have wf: "pool_wf (pool_nodes pool')" using peer_pool_open_wf [OF body _ p(3)] call_open(1) assms(4) by simp
  have "int (length (peer_slots ?peer)) + count \<le> 0xffffffff" using call_open(1) by simp
  from pool_open_peer [OF body this] show ?thesis
  proof (elim disjE exE conjE)
    assume "same_peer ?peer peer'"
    then have "same_peer p peer'" using assms(2) by (auto simp: same_peer_def)
    then show ?thesis using wf by (intro exI [of _ p]) simp
  next
    fix ids al'
    assume "int (length (peer_slots ?peer) + length ids) \<le> 0xffffffff"
      and "peer_open True (Some (?peer\<lparr>peer_alloc := al'\<rparr>)) (ids_ref ids) = Some (KIT_OK, Some peer')"
    then have "R p peer'" using opens [of ids al' peer'] p(1) same_peer_alloc [OF assms(2), of al'] by simp
    then show ?thesis using wf by (intro exI [of _ peer']) simp
  qed
qed

text \<open>Steps of a session that change one peer only.\<close>

definition host_steps :: "'r mt64_ops \<Rightarrow> 'r session \<Rightarrow> 'r peer_t \<Rightarrow> bool" where
  "host_steps M s = (\<lambda>h h'. session_step M (s\<lparr>sess_host := h\<rparr>) (s\<lparr>sess_host := h'\<rparr>))\<^sup>*\<^sup>* (sess_host s)"

definition client_steps :: "'r mt64_ops \<Rightarrow> 'r session \<Rightarrow> 'r peer_t \<Rightarrow> bool" where
  "client_steps M s = (\<lambda>c c'. session_step M (s\<lparr>sess_client := c\<rparr>) (s\<lparr>sess_client := c'\<rparr>))\<^sup>*\<^sup>* (sess_client s)"

lemma rtranclp_put: "(\<lambda>p p'. R (put p) (put p'))\<^sup>*\<^sup>* p p' \<Longrightarrow> R\<^sup>*\<^sup>* (put p) (put p')"
  by (induction rule: rtranclp_induct) (auto intro: rtranclp.rtrancl_into_rtrancl)

lemma host_steps_session: "host_steps M s host' \<Longrightarrow> (session_step M)\<^sup>*\<^sup>* s (s\<lparr>sess_host := host'\<rparr>)"
  using rtranclp_put [of "session_step M" "\<lambda>h. s\<lparr>sess_host := h\<rparr>"] by (fastforce simp: host_steps_def)

lemma client_steps_session: "client_steps M s client' \<Longrightarrow> (session_step M)\<^sup>*\<^sup>* s (s\<lparr>sess_client := client'\<rparr>)"
  using rtranclp_put [of "session_step M" "\<lambda>c. s\<lparr>sess_client := c\<rparr>"] by (fastforce simp: client_steps_def)

lemma client_steps_refl [simp]: "client_steps M s (sess_client s)"
  by (simp add: client_steps_def)

lemma client_steps_step:
  "client_steps M s client \<Longrightarrow> session_step M (s\<lparr>sess_client := client\<rparr>) (s\<lparr>sess_client := client'\<rparr>) \<Longrightarrow> client_steps M s client'"
  unfolding client_steps_def by (rule rtranclp.rtrancl_into_rtrancl)

lemma host_call_steps:
  assumes "session_inv s" and "same_peer (sess_host s) peer" and "pool_wf (pool_nodes pool)"
    and "pool_call os (pool, peer) (pool', peer')"
  shows "\<exists>host'. host_steps M s host' \<and> same_peer host' peer' \<and> pool_wf (pool_nodes pool')"
  unfolding host_steps_def
  using assms(1) step_host_queue [where s = s and M = M] step_host_open [where s = s and M = M]
  by (intro pool_call_steps [OF assms(4,2) _ assms(3)]) (auto simp: session_inv_def)

lemma client_call_steps:
  assumes "session_inv s" and "same_peer (sess_client s) peer" and "pool_wf (pool_nodes pool)"
    and "pool_call os (pool, peer) (pool', peer')"
  shows "\<exists>client'. client_steps M s client' \<and> same_peer client' peer' \<and> pool_wf (pool_nodes pool')"
  unfolding client_steps_def
  using assms(1) step_client_queue [where s = s and M = M] step_client_open [where s = s and M = M]
  by (intro pool_call_steps [OF assms(4,2) _ assms(3)]) (auto simp: session_inv_def)

lemma client_connect_step:
  assumes "same_peer (sess_client s) peer" and "peer_connect True (Some peer) server_id = Some (st, Some peer')"
  shows "session_step M s (s\<lparr>sess_client := peer'\<rparr>)"
  using step_client_connect [where s = s and al = "peer_alloc peer"] assms(2) same_peer_self [OF assms(1)] by simp

lemma peer_connect_refused:
  assumes "peer_connect nd (Some peer) server_id = Some (PEER_ERROR_NO_FREE_SLOTS, Some peer')"
  shows "peer' = peer"
  using assms by (auto simp: peer_connect_def with_peer_def peer_connect_body_def split: option.splits)

text \<open>The parts of \<open>peer_pool_connect\<close>: the node of the address, then a slot for it, if need be a new one.\<close>

lemma peer_pool_connect_parts:
  assumes "peer_pool_connect_body os True protocol n address port pool peer w = Some (st, pool', peer', w')"
  obtains (refused) "pool' = pool" and "peer' = peer"
  | (found) s found pool1 where "find_pool_node os True pool protocol port n (In_buffer address) = Some (s, found, pool1)"
    and "pool' = pool1" and "peer' = peer"
  | (free) s found pool1 id s1 where "find_pool_node os True pool protocol port n (In_buffer address) = Some (s, found, pool1)"
    and "pool' = pool1" and "peer_connect True (Some peer) id = Some (s1, Some peer')"
  | (new) s found pool1 id s2 peer2 w2 where
    "find_pool_node os True pool protocol port n (In_buffer address) = Some (s, found, pool1)"
    and "peer_pool_open_body os True protocol PEER_ANY_PORT 1 pool1 peer w = Some (s2, pool', peer2, w2)"
    and "peer' = peer2 \<or> (\<exists>s3. peer_connect True (Some peer2) id = Some (s3, Some peer'))"
  using assms
  by (auto simp: peer_pool_connect_body_def split: if_splits dest!: bind_eq_SomeD peer_connect_refused) blast+

lemma client_pool_connect_steps:
  assumes "session_inv s" and "same_peer (sess_client s) peer" and "pool_wf (pool_nodes pool)"
    and "peer_pool_connect_body os True protocol n address port pool peer w = Some (st, pool', peer', w')"
    and "int (length (peer_slots peer)) + 1 \<le> 0xffffffff"
  shows "\<exists>client'. client_steps M s client' \<and> same_peer client' peer' \<and> pool_wf (pool_nodes pool')"
  using assms(4)
proof (cases rule: peer_pool_connect_parts)
  case refused
  then show ?thesis using assms(2,3) by (intro exI [of _ "sess_client s"]) simp
next
  case (found s0 id pool1)
  then show ?thesis using assms(2) find_pool_node_wf [OF assms(3) found(1)] by (intro exI [of _ "sess_client s"]) simp
next
  case (free s0 found pool1 id s1)
  have "client_steps M s peer'"
    using client_steps_step [of M s "sess_client s" peer'] client_connect_step [OF assms(2) free(3), of M] by simp
  then show ?thesis using free(2) find_pool_node_wf [OF assms(3) free(1)] by (intro exI [of _ peer']) simp
next
  case (new s0 found pool1 id s2 peer2 w2)
  have "pool_wf (pool_nodes pool1)" using find_pool_node_wf [OF assms(3) new(1)] by simp
  moreover have "pool_call os (pool1, peer) (pool', peer2)"
    by (rule call_open [where pa = "pool_alloc pool1" and al = "peer_alloc peer" and count = 1 and w = w and w' = w2])
      (use new(2) assms(5) in \<open>simp_all add: pool_api\<close>)
  ultimately obtain c where c: "client_steps M s c" "same_peer c peer2" "pool_wf (pool_nodes pool')"
    using client_call_steps [OF assms(1,2)] by blast
  from new(3) show ?thesis
  proof (elim disjE exE)
    assume "peer' = peer2"
    then show ?thesis using c by blast
  next
    fix s3
    assume "peer_connect True (Some peer2) id = Some (s3, Some peer')"
    then have "session_step M (s\<lparr>sess_client := c\<rparr>) (s\<lparr>sess_client := peer'\<rparr>)"
      using client_connect_step [of "s\<lparr>sess_client := c\<rparr>" peer2 id s3 peer' M] c(2) by simp
    then show ?thesis using client_steps_step [OF c(1)] c(3) by (intro exI [of _ peer']) simp
  qed
qed

text \<open>Ticking. The first parts of a tick are steps of the session for either peer.\<close>

lemma pool_tick_calls:
  assumes "resolve_address_and_id os True pool peer = Some (s1, pool1, peer1)"
    and "receive_nodes os True 0 (s1, pool1, [], w) = Some (s2, pool', packets, w2)"
    and "peer_input True (Some peer1) packets = Some (s3, Some peer3)"
    and "pool_wf (pool_nodes pool)" and "peer_wf peer" and "alloc_ok (peer_alloc peer)"
  obtains slots where "peer1 = peer\<lparr>peer_slots := slots\<rparr>" and "list_all2 slot_resolved (peer_slots peer) slots"
    and "pool_wf (pool_nodes pool')" and "\<forall>q \<in> set packets. length (packet_data q) = 400 \<and> source_id q \<noteq> - 1"
    and "alloc_ok (peer_alloc peer1)" and "alloc_ok (peer_alloc peer3)"
proof -
  note 1 = resolve_resolved [OF assms(1,4,5)]
  then obtain slots where slots: "peer1 = peer\<lparr>peer_slots := slots\<rparr>" "list_all2 slot_resolved (peer_slots peer) slots" by blast
  have 2: "pool_wf (pool_nodes pool') \<and> list_all (received_ok (pool_nodes pool')) packets"
    using receive_nodes_wf [OF assms(2)] 1 by simp
  then have ok: "\<forall>q \<in> set packets. length (packet_data q) = 400 \<and> source_id q \<noteq> - 1"
    by (auto simp: list_all_iff received_ok_def)
  have "alloc_ok (peer_alloc peer1)" using slots(1) assms(6) by simp
  then show ?thesis using that [OF slots] 2 ok peer_input_alloc [OF assms(3)] by blast
qed

lemma host_tick_steps:
  assumes "session_inv s" and "same_peer (sess_host s) peer" and "alloc_ok (peer_alloc peer)" and "pool_wf (pool_nodes pool)"
    and "peer_pool_tick_body M (recording os) True dt pool peer (w, []) = Some (st, pool', peer', w', sent)"
    and "int (length (mutual_queue peer')) \<le> INT64_MAX"
  shows "\<exists>host' new. (session_step M)\<^sup>*\<^sup>* s (s\<lparr>sess_host := host', sess_net := sess_net s \<union> new\<rparr>) \<and> same_peer host' peer' \<and>
    set sent \<subseteq> datagram ` new \<and> pool_wf (pool_nodes pool')"
  using assms(5)
proof (cases rule: peer_pool_tick_parts)
  case refused
  then show ?thesis using assms(2,4) by (intro exI [of _ "sess_host s"] exI [of _ "{}"]) simp
next
  case (parts s1 pool1 peer1 s2 packets w2 s3 peer3 tick s5)
  have "peer_wf peer" using same_peer_wf [OF assms(2)] assms(1) by (simp add: session_inv_def)
  from pool_tick_calls [OF parts(1-3) assms(4) this assms(3)]
  obtain slots where slots: "peer1 = peer\<lparr>peer_slots := slots\<rparr>" "list_all2 slot_resolved (peer_slots peer) slots"
    and wf: "pool_wf (pool_nodes pool')" and ok: "\<forall>q \<in> set packets. length (packet_data q) = 400 \<and> source_id q \<noteq> - 1"
    and al: "alloc_ok (peer_alloc peer1)" "alloc_ok (peer_alloc peer3)" by blast
  let ?s1 = "s\<lparr>sess_host := (sess_host s)\<lparr>peer_slots := slots\<rparr>\<rparr>" and ?s2 = "s\<lparr>sess_host := peer3\<rparr>"
  have "peer_slots peer = peer_slots (sess_host s)" using assms(2) by (auto simp: same_peer_def)
  then have 1: "session_step M s ?s1" using step_host_resolve slots(2) by metis
  have "(sess_host ?s1)\<lparr>peer_alloc := peer_alloc peer1\<rparr> = peer1" using assms(2) slots(1) by (auto simp: same_peer_def)
  then have 2: "session_step M ?s1 ?s2" using step_host_input [OF al(1) ok, of ?s1 s3 peer3 M] parts(3) by simp
  have "(sess_host ?s2)\<lparr>peer_alloc := peer_alloc peer3\<rparr> = peer3" by simp
  then have 3: "session_step M ?s2 (s\<lparr>sess_host := peer', sess_net := sess_net s \<union> set (tick_packets tick)\<rparr>)"
    using step_host_tick [OF al(2) _ assms(6), of M ?s2 dt tick] parts(4) by simp
  show ?thesis
    using 1 2 3 wf recorded_sent [OF parts(2,5)] by (intro exI [of _ peer'] exI [of _ "set (tick_packets tick)"])
      (auto intro: converse_rtranclp_into_rtranclp)
qed

text \<open>A packet that was made from a datagram has the content of the packet that was sent.\<close>

lemma datagram_content:
  assumes "packet_size p = int (length (datagram q))" and "packet_data p = datagram q @ replicate (400 - length (datagram q)) 0"
    and "q = wire_packet src dst ms" and "packet_ok ms"
  shows "same_content p q"
  using assms(1,2) by (simp add: assms(3,4) same_content_def datagram_def wire_packet_payload)

lemma received_content:
  assumes "received_from os w p" and "\<forall>buf. receivable os w buf \<longrightarrow> buf \<in> datagram ` net"
    and "\<forall>q \<in> net. sound_packet log q"
  shows "\<exists>q \<in> net. same_content p q"
proof -
  obtain buf where buf: "receivable os w buf" "packet_size p = int (length buf)"
    "packet_data p = buf @ replicate (400 - length buf) 0"
    using assms(1) unfolding received_from_def by blast
  then obtain q where q: "q \<in> net" "buf = datagram q" using assms(2) by blast
  obtain src dst ms where "q = wire_packet src dst ms" "packet_ok ms"
    using bspec [OF assms(3) q(1)] by (auto simp: sound_packet_def parcel_ok_def)
  then show ?thesis using datagram_content buf(2,3) q by blast
qed

text \<open>The tick of a client up to \<open>peer_tick\<close>: steps of the session.\<close>

lemma client_tick_input:
  assumes "session_inv s" and "same_peer (sess_client s) peer" and "alloc_ok (peer_alloc peer)" and "pool_wf (pool_nodes pool)"
    and "resolve_address_and_id os True pool peer = Some (s1, pool1, peer1)"
    and "receive_nodes os True 0 (s1, pool1, [], w) = Some (s2, pool', packets, w2)"
    and "peer_input True (Some peer1) packets = Some (s3, Some peer3)"
    and "\<forall>buf. receivable os w buf \<longrightarrow> buf \<in> datagram ` sess_net s"
  shows "client_steps M s peer3 \<and> alloc_ok (peer_alloc peer3) \<and> pool_wf (pool_nodes pool')"
proof -
  have "peer_wf peer" using same_peer_wf [OF assms(2)] assms(1) by (simp add: session_inv_def)
  from pool_tick_calls [OF assms(5-7,4) this assms(3)]
  obtain slots where slots: "peer1 = peer\<lparr>peer_slots := slots\<rparr>" "list_all2 slot_resolved (peer_slots peer) slots"
    and wf: "pool_wf (pool_nodes pool')" and ok: "\<forall>q \<in> set packets. length (packet_data q) = 400 \<and> source_id q \<noteq> - 1"
    and al: "alloc_ok (peer_alloc peer1)" "alloc_ok (peer_alloc peer3)" by blast
  let ?c1 = "(sess_client s)\<lparr>peer_slots := slots\<rparr>"
  have "peer_slots peer = peer_slots (sess_client s)" using assms(2) by (auto simp: same_peer_def)
  then have "session_step M s (s\<lparr>sess_client := ?c1\<rparr>)" using step_client_resolve slots(2) by metis
  then have 1: "client_steps M s ?c1" using client_steps_step [of M s "sess_client s" ?c1] by simp
  have "\<forall>q \<in> sess_net s. sound_packet (host_log (sess_host s)) q" using assms(1) by (simp add: session_inv_def)
  then have net: "\<forall>p \<in> set packets. source_id p \<noteq> - 1 \<and> (\<exists>q \<in> sess_net (s\<lparr>sess_client := ?c1\<rparr>). same_content p q)"
    using received_content [OF receive_nodes_from [OF assms(6)] assms(8)] ok by simp
  have "?c1\<lparr>peer_alloc := peer_alloc peer1\<rparr> = peer1" using assms(2) slots(1) by (auto simp: same_peer_def)
  then have "session_step M (s\<lparr>sess_client := ?c1\<rparr>) (s\<lparr>sess_client := peer3\<rparr>)"
    using step_client_input [OF al(1) net, of s3 peer3 M] assms(7) by simp
  then show ?thesis using client_steps_step [OF 1] wf al(2) by simp
qed

lemma client_tick_steps:
  assumes "session_inv s" and "same_peer (sess_client s) peer" and "alloc_ok (peer_alloc peer)" and "pool_wf (pool_nodes pool)"
    and "peer_pool_tick_body M os True dt pool peer w = Some (st, pool', peer', w')"
    and "\<forall>buf. receivable os w buf \<longrightarrow> buf \<in> datagram ` sess_net s"
  shows "\<exists>client'. client_steps M s client' \<and> same_peer client' peer' \<and> pool_wf (pool_nodes pool')"
  using assms(5)
proof (cases rule: peer_pool_tick_parts)
  case refused
  then show ?thesis using assms(2,4) by (intro exI [of _ "sess_client s"]) simp
next
  case (parts s1 pool1 peer1 s2 packets w2 s3 peer3 tick s5)
  from client_tick_input [OF assms(1-4) parts(1-3) assms(6), of M]
  have 1: "client_steps M s peer3" "alloc_ok (peer_alloc peer3)" "pool_wf (pool_nodes pool')" by simp_all
  have "session_step M (s\<lparr>sess_client := peer3\<rparr>) (s\<lparr>sess_client := peer'\<rparr>)"
    using step_client_tick [OF 1(2), of M "s\<lparr>sess_client := peer3\<rparr>" dt tick peer'] parts(4) by simp
  then show ?thesis using client_steps_step [OF 1(1)] 1(3) by (intro exI [of _ peer']) simp
qed

subsection \<open>The simulation\<close>

definition represents :: "'r network \<Rightarrow> 'r session \<Rightarrow> bool" where
  "represents n s \<longleftrightarrow> session_inv s \<and> same_peer (sess_host s) (net_host n) \<and> same_peer (sess_client s) (net_client n) \<and>
     pool_wf (pool_nodes (host_pool n)) \<and> pool_wf (pool_nodes (client_pool n)) \<and> net_wire n \<subseteq> datagram ` sess_net s"

lemma represents_host:
  assumes "represents n s" and "\<exists>host' new. (session_step M)\<^sup>*\<^sup>* s (s\<lparr>sess_host := host', sess_net := sess_net s \<union> new\<rparr>) \<and>
      same_peer host' peer' \<and> wire \<subseteq> datagram ` new \<and> pool_wf (pool_nodes pool')"
  shows "\<exists>s'. (session_step M)\<^sup>*\<^sup>* s s' \<and>
    represents (n\<lparr>host_pool := pool', net_host := peer', net_wire := net_wire n \<union> wire\<rparr>) s'"
proof -
  obtain host' new where new: "(session_step M)\<^sup>*\<^sup>* s (s\<lparr>sess_host := host', sess_net := sess_net s \<union> new\<rparr>)"
    "same_peer host' peer'" "wire \<subseteq> datagram ` new" "pool_wf (pool_nodes pool')" using assms(2) by blast
  have "session_inv (s\<lparr>sess_host := host', sess_net := sess_net s \<union> new\<rparr>)"
    using session_steps_inv [OF new(1)] assms(1) by (simp add: represents_def)
  then show ?thesis
    using new assms(1) by (intro exI [of _ "s\<lparr>sess_host := host', sess_net := sess_net s \<union> new\<rparr>"])
      (auto simp: represents_def)
qed

lemma represents_host_only:
  assumes "represents n s" and "\<exists>host'. host_steps M s host' \<and> same_peer host' peer' \<and> pool_wf (pool_nodes pool')"
  shows "\<exists>s'. (session_step M)\<^sup>*\<^sup>* s s' \<and> represents (n\<lparr>host_pool := pool', net_host := peer'\<rparr>) s'"
proof -
  obtain host' where new: "(session_step M)\<^sup>*\<^sup>* s (s\<lparr>sess_host := host'\<rparr>)"
    "same_peer host' peer'" "pool_wf (pool_nodes pool')" using assms(2) host_steps_session by blast
  have "session_inv (s\<lparr>sess_host := host'\<rparr>)"
    using session_steps_inv [OF new(1)] assms(1) by (simp add: represents_def)
  then show ?thesis
    using new assms(1) by (intro exI [of _ "s\<lparr>sess_host := host'\<rparr>"]) (simp add: represents_def)
qed

lemma represents_client:
  assumes "represents n s" and "\<exists>client'. client_steps M s client' \<and> same_peer client' peer' \<and> pool_wf (pool_nodes pool')"
  shows "\<exists>s'. (session_step M)\<^sup>*\<^sup>* s s' \<and> represents (n\<lparr>client_pool := pool', net_client := peer'\<rparr>) s'"
proof -
  obtain client' where new: "(session_step M)\<^sup>*\<^sup>* s (s\<lparr>sess_client := client'\<rparr>)"
    "same_peer client' peer'" "pool_wf (pool_nodes pool')" using assms(2) client_steps_session by blast
  have "session_inv (s\<lparr>sess_client := client'\<rparr>)"
    using session_steps_inv [OF new(1)] assms(1) by (simp add: represents_def)
  then show ?thesis
    using new assms(1) by (intro exI [of _ "s\<lparr>sess_client := client'\<rparr>"]) (simp add: represents_def)
qed

lemma network_step_session:
  assumes "network_step M hos cos n n'" and "represents n s"
  shows "\<exists>s'. (session_step M)\<^sup>*\<^sup>* s s' \<and> represents n' s'"
proof -
  have s: "session_inv s" and host: "same_peer (sess_host s) (net_host n)" and client: "same_peer (sess_client s) (net_client n)"
    and wf: "pool_wf (pool_nodes (host_pool n))" "pool_wf (pool_nodes (client_pool n))"
    and wire: "net_wire n \<subseteq> datagram ` sess_net s"
    using assms(2) by (simp_all add: represents_def)
  have host_al: "same_peer (sess_host s) ((net_host n)\<lparr>peer_alloc := al\<rparr>)"
    and client_al: "same_peer (sess_client s) ((net_client n)\<lparr>peer_alloc := al\<rparr>)" for al
    using host client by (auto simp: same_peer_def)
  from assms(1) show ?thesis
  proof cases
    case (net_host_call pool' host')
    from represents_host_only [OF assms(2) host_call_steps [OF s host wf(1) net_host_call(2)]]
    show ?thesis by (simp add: net_host_call(1))
  next
    case (net_host_tick al pa dt w st pool' host' w' sent)
    from host_tick_steps [OF s host_al _ _ net_host_tick(3) [unfolded pool_api] net_host_tick(4)] wf(1) net_host_tick(2)
    have "\<exists>h new. (session_step M)\<^sup>*\<^sup>* s (s\<lparr>sess_host := h, sess_net := sess_net s \<union> new\<rparr>) \<and> same_peer h host' \<and>
      set sent \<subseteq> datagram ` new \<and> pool_wf (pool_nodes pool')" by simp
    from represents_host [OF assms(2) this] show ?thesis by (simp add: net_host_tick(1))
  next
    case (net_client_call pool' client')
    from represents_client [OF assms(2) client_call_steps [OF s client wf(2) net_client_call(2)]]
    show ?thesis by (simp add: net_client_call(1))
  next
    case (net_client_connect pa al protocol len address port v st pool' client' v')
    from client_pool_connect_steps [OF s client_al _ net_client_connect(3) [unfolded pool_api], of M] wf(2) net_client_connect(2)
    have "\<exists>c. client_steps M s c \<and> same_peer c client' \<and> pool_wf (pool_nodes pool')" by simp
    from represents_client [OF assms(2) this] show ?thesis by (simp add: net_client_connect(1))
  next
    case (net_client_tick al v pa dt st pool' client' v' sent)
    have "\<forall>buf. receivable (recording cos) (v, []) buf \<longrightarrow> buf \<in> datagram ` sess_net s"
      using net_client_tick(3) wire receivable_recording [of cos "(v, [])"] by fastforce
    from client_tick_steps [OF s client_al _ _ net_client_tick(4) [unfolded pool_api] this] wf(2) net_client_tick(2)
    have "\<exists>c. client_steps M s c \<and> same_peer c client' \<and> pool_wf (pool_nodes pool')" by simp
    from represents_client [OF assms(2) this] show ?thesis by (simp add: net_client_tick(1) represents_def)
  qed
qed

text \<open>The session a network starts as.\<close>

definition net_session :: "'r network \<Rightarrow> 'r session" where
  "net_session n = \<lparr>sess_host = net_host n, sess_client = net_client n, sess_net = {}\<rparr>"

lemma network_start_session: "network_start n \<Longrightarrow> session_start (net_session n) \<and> represents n (net_session n)"
  using session_start_inv [of "net_session n"]
  by (simp add: network_start_def session_start_def represents_def net_session_def)

lemma session_reach_steps: "(session_step M)\<^sup>*\<^sup>* s s' \<Longrightarrow> session_reach M s0 s \<Longrightarrow> session_reach M s0 s'"
  by (induction rule: rtranclp_induct) (auto intro: reach_step)

lemma network_reach_session:
  assumes "network_reach M hos cos n0 n"
  shows "\<exists>s. session_reach M (net_session n0) s \<and> represents n s"
  using assms
proof (induction rule: network_reach.induct)
  case (network_reach_start n)
  then show ?case using network_start_session reach_start by blast
next
  case (network_reach_step n0 n n')
  then show ?case using network_step_session session_reach_steps by blast
qed

subsection \<open>Running a network\<close>

text \<open>A system with numbered sockets and an inbox of datagrams for them, and a program for both applications.\<close>

type_synonym inbox = "(socket_t \<times> byte list \<times> 32 word \<times> port_t) list"

fun take_datagram :: "socket_t \<Rightarrow> inbox \<Rightarrow> recv_result \<times> inbox" where
  "take_datagram s [] = (Recv_failed, [])"
| "take_datagram s ((t, buf, addr, port) # inbox) =
     (if t = s then (Datagram buf addr port, inbox)
      else (let (r, rest) = take_datagram s inbox in (r, (t, buf, addr, port) # rest)))"

definition script_os :: "(nat \<times> inbox) os_ops" where
  "script_os = \<lparr>
     os_socket = (\<lambda>(k, inbox). (int k + 3, Suc k, inbox)),
     os_getfl = (\<lambda>s w. (2, w)), os_setfl = (\<lambda>s flags w. (0, w)), os_bind = (\<lambda>s port w. (0, w)),
     os_getsockname = (\<lambda>s w. (Some (7000 + word_of_int s), w)), os_close = (\<lambda>s w. w),
     os_recvfrom = (\<lambda>s (k, inbox). let (r, rest) = take_datagram s inbox in (r, k, rest)),
     os_sendto = (\<lambda>s bs addr port w. (int (length bs), w)),
     os_errno = (\<lambda>w. 11), os_ignore_sigpipe = (\<lambda>w. w),
     inet_ntop = (\<lambda>a. if a < 200 then [48 + ucast a] else le32 a), inet_pton = (\<lambda>bs. (1, if bs = [] then 0 else ucast (hd bs) - 48)),
     da_moves = (\<lambda>n. False), O_NONBLOCK = 2048, EAGAIN = 11, EWOULDBLOCK = 11, EMSGSIZE = 90, ECONNRESET = 104\<rparr>"

lemma take_datagram_set:
  "take_datagram s inbox = (r, rest) \<Longrightarrow> set rest \<subseteq> set inbox \<and>
    (\<forall>buf addr port. r = Datagram buf addr port \<longrightarrow> (s, buf, addr, port) \<in> set inbox)"
  by (induction s inbox arbitrary: r rest rule: take_datagram.induct) (fastforce split: if_splits prod.splits)+

lemma script_receivable:
  assumes "receivable script_os w buf"
  shows "\<exists>s addr port. (s, buf, addr, port) \<in> set (snd w)"
  using assms
proof (induction rule: receivable.induct)
  case (receivable_now s w buf addr port w')
  then show ?case
    using take_datagram_set [of s "snd w"] by (fastforce simp: script_os_def split: prod.splits)
next
  case (receivable_later s w r w' buf)
  then show ?case
    using take_datagram_set [of s "snd w"] by (fastforce simp: script_os_def split: prod.splits)
qed

text \<open>The lists have the datagrams the host and the client have sent; a tick names those that arrive.\<close>

datatype command =
  Host_open int | Host_queue "byte list" | Host_tick int "(socket_t \<times> nat \<times> 32 word \<times> port_t) list" |
  Client_connect "byte list" port_t | Client_queue "byte list" | Client_tick int "nat list" "32 word" port_t

type_synonym run_state = "unit network \<times> byte list list \<times> byte list list"

text \<open>The queues of a peer have at most as many messages as an index has values.\<close>

definition queues_fit :: "'r peer_t \<Rightarrow> bool" where
  "queues_fit p \<longleftrightarrow> int (length (mutual_queue p)) \<le> INT64_MAX \<and>
     list_all (\<lambda>slot. int (length (slot_queue slot)) \<le> INT64_MAX) (peer_slots p)"

fun run_command :: "command \<Rightarrow> run_state \<Rightarrow> run_state option" where
  "run_command (Host_open count) (n, down, up) = do {
     (st, p, h, w) \<leftarrow> peer_pool_open script_os True (Some (host_pool n)) (Some (net_host n)) PEER_UDP_IPv4 PEER_ANY_PORT count (0, []);
     pool \<leftarrow> p; host \<leftarrow> h;
     if int (length (peer_slots (net_host n))) + count \<le> 0xffffffff
     then Some (n\<lparr>host_pool := pool, net_host := host\<rparr>, down, up) else None
   }"
| "run_command (Host_queue d) (n, down, up) = do {
     (st, h) \<leftarrow> peer_queue True (Some (net_host n)) (chunk_ref d);
     host \<leftarrow> h;
     if length d \<le> 355 \<and> alloc_ok (peer_alloc (net_host n)) then Some (n\<lparr>net_host := host\<rparr>, down, up) else None
   }"
| "run_command (Host_tick dt ks) (n, down, up) = do {
     (st, p, h, w, sent) \<leftarrow> peer_pool_tick example_mt64 (recording script_os) True (Some (host_pool n)) (Some (net_host n)) dt
       ((0, map (\<lambda>(s, k, addr, port). (s, up ! k, addr, port)) ks), []);
     pool \<leftarrow> p; host \<leftarrow> h;
     if 0 < peer_time_local host \<and> alloc_ok (peer_alloc (net_host n)) \<and> int (length (mutual_queue host)) \<le> INT64_MAX \<and>
       list_all (\<lambda>(s, k, addr, port). k < length up) ks
     then Some (n\<lparr>host_pool := pool, net_host := host, net_wire := net_wire n \<union> set sent\<rparr>, down @ sent, up) else None
   }"
| "run_command (Client_connect address port) (n, down, up) = do {
     (st, p, c, w) \<leftarrow> peer_pool_connect script_os True (Some (client_pool n)) (Some (net_client n)) PEER_UDP_IPv4
       (int (length address)) address port (0, []);
     pool \<leftarrow> p; client \<leftarrow> c;
     if int (length (peer_slots (net_client n))) + 1 \<le> 0xffffffff
     then Some (n\<lparr>client_pool := pool, net_client := client\<rparr>, down, up) else None
   }"
| "run_command (Client_queue d) (n, down, up) = do {
     (st, c) \<leftarrow> peer_queue True (Some (net_client n)) (chunk_ref d);
     client \<leftarrow> c;
     if length d \<le> 355 \<and> alloc_ok (peer_alloc (net_client n)) then Some (n\<lparr>net_client := client\<rparr>, down, up) else None
   }"
| "run_command (Client_tick dt js addr port) (n, down, up) = do {
     (st, p, c, w, sent) \<leftarrow> peer_pool_tick example_mt64 (recording script_os) True (Some (client_pool n)) (Some (net_client n)) dt
       ((0, map (\<lambda>j. (3, down ! j, addr, port)) js), []);
     pool \<leftarrow> p; client \<leftarrow> c;
     if alloc_ok (peer_alloc (net_client n)) \<and> list_all (\<lambda>j. down ! j \<in> net_wire n) js \<and> queues_fit client
     then Some (n\<lparr>client_pool := pool, net_client := client, net_up := net_up n \<union> set sent\<rparr>, down, up @ sent) else None
   }"

fun run_commands :: "command list \<Rightarrow> run_state \<Rightarrow> run_state option" where
  "run_commands [] n = Some n"
| "run_commands (c # cs) n = do { n' \<leftarrow> run_command c n; run_commands cs n' }"

lemma own_alloc [simp]: "p\<lparr>peer_alloc := peer_alloc p\<rparr> = p" "q\<lparr>pool_alloc := pool_alloc q\<rparr> = q"
  by simp_all

lemma run_command_cases:
  assumes "run_command c (n, down, up) = Some (n', down', up')"
  obtains (host_call) pool' host' where "pool_call script_os (host_pool n, net_host n) (pool', host')"
      and "n' = n\<lparr>host_pool := pool', net_host := host'\<rparr>" and "up' = up"
  | (host_tick) ks dt st pool' host' w' sent where "alloc_ok (peer_alloc (net_host n))" and "0 < peer_time_local host'"
      and "list_all (\<lambda>(s, k, addr, port). k < length up) ks"
      and "peer_pool_tick example_mt64 (recording script_os) True (Some (host_pool n)) (Some (net_host n)) dt
        ((0, map (\<lambda>(s, k, addr, port). (s, up ! k, addr, port)) ks), []) = Some (st, Some pool', Some host', w', sent)"
      and "int (length (mutual_queue host')) \<le> INT64_MAX"
      and "n' = n\<lparr>host_pool := pool', net_host := host', net_wire := net_wire n \<union> set sent\<rparr>" and "up' = up"
  | (client_call) pool' client' where "pool_call script_os (client_pool n, net_client n) (pool', client')"
      and "n' = n\<lparr>client_pool := pool', net_client := client'\<rparr>" and "up' = up"
  | (client_connect) len address port st pool' client' w' where "int (length (peer_slots (net_client n))) + 1 \<le> 0xffffffff"
      and "peer_pool_connect script_os True (Some (client_pool n)) (Some (net_client n)) PEER_UDP_IPv4 len address port (0, []) =
        Some (st, Some pool', Some client', w')"
      and "n' = n\<lparr>client_pool := pool', net_client := client'\<rparr>" and "up' = up"
  | (client_tick) inbox dt st pool' client' w' sent where "alloc_ok (peer_alloc (net_client n))"
      and "\<forall>buf. receivable script_os (0, inbox) buf \<longrightarrow> buf \<in> net_wire n"
      and "peer_pool_tick example_mt64 (recording script_os) True (Some (client_pool n)) (Some (net_client n)) dt ((0, inbox), []) =
        Some (st, Some pool', Some client', w', sent)"
      and "queues_fit client'" and "n' = n\<lparr>client_pool := pool', net_client := client', net_up := net_up n \<union> set sent\<rparr>"
      and "up' = up @ sent"
proof (cases c)
  case (Host_open count)
  then show ?thesis
    using assms host_call call_open [where peer = "net_host n" and pool = "host_pool n" and al = "peer_alloc (net_host n)"
        and pa = "pool_alloc (host_pool n)" and os = script_os]
    by (auto split: if_splits dest!: bind_eq_SomeD) blast
next
  case (Host_queue d)
  then show ?thesis
    using assms host_call [of "host_pool n"] call_queue [of "peer_alloc (net_host n)" d "net_host n", where os = script_os]
    by (auto split: if_splits dest!: bind_eq_SomeD) blast
next
  case (Host_tick dt ks)
  from assms obtain st pool' host' w' sent where "alloc_ok (peer_alloc (net_host n))" "0 < peer_time_local host'"
    "list_all (\<lambda>(s, k, addr, port). k < length up) ks"
    "peer_pool_tick example_mt64 (recording script_os) True (Some (host_pool n)) (Some (net_host n)) dt
      ((0, map (\<lambda>(s, k, addr, port). (s, up ! k, addr, port)) ks), []) = Some (st, Some pool', Some host', w', sent)"
    "int (length (mutual_queue host')) \<le> INT64_MAX"
    "n' = n\<lparr>host_pool := pool', net_host := host', net_wire := net_wire n \<union> set sent\<rparr>" "up' = up"
    unfolding Host_tick by (auto split: if_splits dest!: bind_eq_SomeD)
  then show ?thesis by (rule host_tick)
next
  case (Client_connect address port)
  from assms obtain st pool' client' w' where "int (length (peer_slots (net_client n))) + 1 \<le> 0xffffffff"
    "peer_pool_connect script_os True (Some (client_pool n)) (Some (net_client n)) PEER_UDP_IPv4 (int (length address)) address port
      (0, []) = Some (st, Some pool', Some client', w')"
    "n' = n\<lparr>client_pool := pool', net_client := client'\<rparr>" "up' = up"
    unfolding Client_connect by (auto split: if_splits dest!: bind_eq_SomeD)
  then show ?thesis by (rule client_connect)
next
  case (Client_queue d)
  then show ?thesis
    using assms client_call [of "client_pool n"] call_queue [of "peer_alloc (net_client n)" d "net_client n", where os = script_os]
    by (auto split: if_splits dest!: bind_eq_SomeD) blast
next
  case (Client_tick dt js addr port)
  let ?inbox = "map (\<lambda>j. (3 :: socket_t, down ! j, addr, port)) js"
  have "\<forall>buf. receivable script_os (0, ?inbox) buf \<longrightarrow> buf \<in> net_wire n" if "list_all (\<lambda>j. down ! j \<in> net_wire n) js"
    using that by (auto simp: list_all_iff dest!: script_receivable)
  with assms obtain st pool' client' w' sent where "alloc_ok (peer_alloc (net_client n))"
    "\<forall>buf. receivable script_os (0, ?inbox) buf \<longrightarrow> buf \<in> net_wire n"
    "peer_pool_tick example_mt64 (recording script_os) True (Some (client_pool n)) (Some (net_client n)) dt ((0, ?inbox), []) =
      Some (st, Some pool', Some client', w', sent)"
    "queues_fit client'" "n' = n\<lparr>client_pool := pool', net_client := client', net_up := net_up n \<union> set sent\<rparr>" "up' = up @ sent"
    unfolding Client_tick by (auto split: if_splits dest!: bind_eq_SomeD)
  then show ?thesis by (rule client_tick)
qed

lemma run_command_step:
  assumes "run_command c (n, down, up) = Some (n', down', up')"
  shows "network_step example_mt64 script_os script_os n n'"
  using assms
proof (cases rule: run_command_cases)
  case (host_tick ks dt st pool' host' w' sent)
  then show ?thesis
    using net_host_tick [where n = n and al = "peer_alloc (net_host n)" and pa = "pool_alloc (host_pool n)"] by simp
next
  case (client_connect len address port st pool' client' w')
  then show ?thesis
    using net_client_connect [where n = n and al = "peer_alloc (net_client n)" and pa = "pool_alloc (client_pool n)"] by simp
next
  case (client_tick inbox dt st pool' client' w' sent)
  then show ?thesis
    using net_client_tick [where n = n and al = "peer_alloc (net_client n)" and pa = "pool_alloc (client_pool n)"] by simp
qed (simp_all add: net_host_call net_client_call)

lemma run_commands_reach:
  assumes "run_commands cs (n, down, up) = Some (n', down', up')" and "network_reach example_mt64 script_os script_os n0 n"
  shows "network_reach example_mt64 script_os script_os n0 n'"
  using assms
proof (induction cs arbitrary: n down up)
  case (Cons c cs)
  then obtain n1 down1 up1 where "run_command c (n, down, up) = Some (n1, down1, up1)"
    "run_commands cs (n1, down1, up1) = Some (n', down', up')"
    by (auto dest!: bind_eq_SomeD)
  then show ?case using Cons.IH Cons.prems(2) run_command_step network_reach_step by blast
qed simp

text \<open>
  A whole session, from nothing: the host opens its public socket and one for a client, and queues a message;
  the client connects to the public address and asks for a session with a heartbeat; the host answers
  with an actor id and the port of the client's slot; the client sends a message of its own there;
  the host puts it into the mutual queue and sends the queue; the client receives it.
\<close>

definition fresh_peer :: "peer_mode_t \<Rightarrow> unit peer_t" where
  "fresh_peer mode = \<lparr>peer_alloc = [], peer_mode = mode, peer_time = 0, peer_time_local = 0,
     peer_actor = (if mode = PEER_HOST then 0 else - 1), peer_slots = [], mutual_queue = [], queue_index = 0, peer_mt64 = ()\<rparr>"

definition fresh_network :: "unit network" where
  "fresh_network = \<lparr>host_pool = \<lparr>pool_alloc = [], pool_nodes = []\<rparr>, net_host = fresh_peer PEER_HOST,
     client_pool = \<lparr>pool_alloc = [], pool_nodes = []\<rparr>, net_client = fresh_peer PEER_CLIENT, net_wire = {}, net_up = {}\<rparr>"

definition whole_session :: "command list" where
  "whole_session = [Host_open 2, Host_queue [1, 2], Client_connect [53] 7003, Client_tick 500 [] 0 0,
     Host_tick 5 [(3, 0, 6, 7003)], Client_tick 1 [0] 5 7003, Client_queue [9], Client_tick 1 [] 0 0,
     Host_tick 5 [(4, 1, 6, 7003)], Client_tick 1 [1] 5 7004]"

lemma fresh_start: "network_start fresh_network"
  by (simp add: network_start_def fresh_network_def fresh_peer_def pool_wf_def nodes.unique_def node_key_def peer_wf_def
      queue_wf_def is_int64_def)

definition observe :: "unit network \<Rightarrow> peer_queue_t \<times> peer_queue_t \<times> ptrdiff_t list \<times> node_key option list \<times> peer_chunk_t list list" where
  "observe n = (mutual_queue (net_host n), mutual_queue (net_client n),
     map (\<lambda>slot. endpoint_id (slot_remote slot)) (peer_slots (net_host n)), map remote_key (pool_nodes (host_pool n)),
     map (\<lambda>slot. map message_data (slot_queue slot)) (peer_slots (net_client n)))"

lemma whole_session_runs:
  "map_option (\<lambda>(n, log). observe n) (run_commands whole_session (fresh_network, [], [])) =
    Some ([ready_message (5, 0, [1, 2]), ready_message (10, 1, [9])], [ready_message (5, 0, [1, 2]), ready_message (10, 1, [9])],
      [- 1, 2], [None, None, Some (PEER_UDP_IPv4, 7003, [54])], [[[9]]])"
  by code_simp

lemma whole_session_reach:
  "\<exists>n. network_reach example_mt64 script_os script_os fresh_network n \<and>
    mutual_queue (net_client n) = [ready_message (5, 0, [1, 2]), ready_message (10, 1, [9])]"
proof -
  obtain n down up where "run_commands whole_session (fresh_network, [], []) = Some (n, down, up)"
    and "mutual_queue (net_client n) = [ready_message (5, 0, [1, 2]), ready_message (10, 1, [9])]"
    using whole_session_runs by (auto simp: observe_def)
  then show ?thesis using run_commands_reach [OF _ network_reach_start [OF fresh_start]] by blast
qed

subsection \<open>Properties\<close>

text \<open>C1. Replication through pools, sockets and datagrams: in every state that the applications can reach by opening,
  connecting, queueing and ticking, whatever the systems and the pools' allocators answer, whatever
  anyone sends to the host, and whichever datagrams of the host are lost, repeated or reordered on
  the way to the client, each message in the client's mutual queue is the message of the host under that index.\<close>

theorem network_agreement:
  assumes "network_reach M hos cos n0 n" and "queue_get (mutual_queue (net_client n)) i = Some e"
  shows "queue_get (mutual_queue (net_host n)) i = Some e"
proof -
  obtain s where s: "session_inv s" "same_peer (sess_host s) (net_host n)" "same_peer (sess_client s) (net_client n)"
    using network_reach_session [OF assms(1)] unfolding represents_def by blast
  then have "queue_get (mutual_queue (sess_client s)) i = Some e" using assms(2) by (auto simp: same_peer_def)
  then have "host_log (sess_host s) i = Some e" using s(1) unfolding session_inv_def queue_log.agrees_def by blast
  then have "host_log (net_host n) i = Some e" using s(2) by (auto simp: same_peer_def)
  then show ?thesis by (simp add: host_log_def split: if_splits)
qed

theorem network_agreement_witness:
  "\<exists>n. network_reach example_mt64 script_os script_os fresh_network n \<and>
    queue_get (mutual_queue (net_client n)) 1 = Some (10, 1, [9]) \<and> queue_get (mutual_queue (net_host n)) 1 = Some (10, 1, [9])"
proof -
  obtain n where n: "network_reach example_mt64 script_os script_os fresh_network n"
    "queue_get (mutual_queue (net_client n)) 1 = Some (10, 1, [9])"
    using whole_session_reach by (auto simp: queue_get_def message_entry_def)
  from network_agreement [OF n] n show ?thesis by blast
qed

text \<open>C7. The pools refine the session: every operation of a pool or a peer in a network, with the system calls it makes,
  is a sequence of steps of the abstract session, in which packets go from host to client under any ids,
  in any order and number; its packets are those whose datagrams were given to the host's system.\<close>

theorem network_refines_session:
  assumes "network_step M hos cos n n'" and "represents n s"
  shows "\<exists>s'. (session_step M)\<^sup>*\<^sup>* s s' \<and> represents n' s'"
  by (rule network_step_session [OF assms])

theorem network_refines_session_witness:
  "\<exists>n' s'. run_command (Host_open 2) (fresh_network, [], []) = Some (n', [], []) \<and> length (peer_slots (net_host n')) = 2 \<and>
    (session_step example_mt64)\<^sup>*\<^sup>* (net_session fresh_network) s' \<and> represents n' s'"
proof -
  have "map_option (\<lambda>(n, log). (length (peer_slots (net_host n)), log)) (run_command (Host_open 2) (fresh_network, [], [])) = Some (2, [], [])"
    by code_simp
  then obtain n' where n': "run_command (Host_open 2) (fresh_network, [], []) = Some (n', [], [])" "length (peer_slots (net_host n')) = 2"
    by auto
  have "represents fresh_network (net_session fresh_network)" using network_start_session [OF fresh_start] by simp
  from network_refines_session [OF run_command_step [OF n'(1)] this] n' show ?thesis by blast
qed

end
