(* ===== verification/Peer_Order.thy ===== *)
theory Peer_Order
  imports Peer_Session
begin

text \<open>
  The order of the clients' messages. The host gives every client an actor id, the index of its slot, and takes the
  messages of a slot's queue into the mutual queue in the order of their indices. The invariant
  \<open>host_order\<close> says that the messages of an actor in the mutual queue are exactly the messages of its
  slot's queue before \<open>in_index\<close>: none is lost, repeated or out of order. Every operation of a host keeps
  it, for arbitrary packets.
\<close>

subsection \<open>The invariant\<close>

definition entry_data :: "entry option \<Rightarrow> byte list" where
  "entry_data e = (case e of Some (t, a, d) \<Rightarrow> d | None \<Rightarrow> [])"

text \<open>The data of the first \<open>n\<close> messages of a queue, and of the messages of an actor.\<close>

definition queue_data :: "peer_queue_t \<Rightarrow> nat \<Rightarrow> byte list list" where
  "queue_data q n = map (\<lambda>i. entry_data (queue_get q i)) [0..<n]"

definition actor_data :: "ptrdiff_t \<Rightarrow> peer_queue_t \<Rightarrow> byte list list" where
  "actor_data actor q = map message_data (filter (\<lambda>m. message_actor m = actor) q)"

definition slot_taken :: "peer_slot_t \<Rightarrow> bool" where
  "slot_taken slot \<longleftrightarrow> endpoint_id (slot_remote slot) \<noteq> PEER_UNDEFINED"

definition slot_order :: "peer_queue_t \<Rightarrow> nat \<Rightarrow> peer_slot_t \<Rightarrow> bool" where
  "slot_order q j slot \<longleftrightarrow> (slot_taken slot \<longrightarrow> slot_actor slot = int j) \<and>
     (\<forall>i < nat (in_index slot). queue_get (slot_queue slot) i \<noteq> None) \<and>
     actor_data (int j) q = queue_data (slot_queue slot) (nat (in_index slot))"

definition host_order :: "'r peer_t \<Rightarrow> bool" where
  "host_order host \<longleftrightarrow>
     (\<forall>j. 1 \<le> j \<and> j < length (peer_slots host) \<longrightarrow> slot_order (mutual_queue host) j (peer_slots host ! j)) \<and>
     (\<forall>m \<in> set (mutual_queue host). message_actor m = 0 \<or> message_actor m < int (length (peer_slots host)))"

lemma actor_data_append [simp]: "actor_data actor (q @ q') = actor_data actor q @ actor_data actor q'"
  by (simp add: actor_data_def)

lemma actor_data_Nil: "\<forall>m \<in> set q. message_actor m \<noteq> actor \<Longrightarrow> actor_data actor q = []"
  by (simp add: actor_data_def filter_empty_conv)

lemma actor_data_own: "\<forall>m \<in> set q. message_actor m = actor \<Longrightarrow> actor_data actor q = map message_data q"
  by (simp add: actor_data_def)

lemma actor_data_time [simp]: "actor_data actor (map (\<lambda>m. m\<lparr>message_time := t\<rparr>) q) = actor_data actor q"
  by (induction q) (simp_all add: actor_data_def)

subsection \<open>Operations that leave the mutual queue alone\<close>

text \<open>What may happen to a slot's queue while its messages are received: new messages at free indices.\<close>

definition queue_extends :: "peer_queue_t \<Rightarrow> peer_queue_t \<Rightarrow> bool" where
  "queue_extends q q' \<longleftrightarrow> (\<forall>i e. queue_get q i = Some e \<longrightarrow> queue_get q' i = Some e)"

definition slot_extends :: "peer_slot_t \<Rightarrow> peer_slot_t \<Rightarrow> bool" where
  "slot_extends slot slot' \<longleftrightarrow> queue_extends (slot_queue slot) (slot_queue slot') \<and>
     in_index slot' = in_index slot \<and> slot_actor slot' = slot_actor slot \<and>
     endpoint_id (slot_remote slot') = endpoint_id (slot_remote slot)"

lemma slot_extends_refl [simp]: "slot_extends slot slot"
  by (simp add: slot_extends_def queue_extends_def)

lemma slot_extends_trans: "slot_extends s1 s2 \<Longrightarrow> slot_extends s2 s3 \<Longrightarrow> slot_extends s1 s3"
  by (simp add: slot_extends_def queue_extends_def)

lemma slot_order_extends:
  assumes "slot_order q j slot" and "slot_extends slot slot'"
  shows "slot_order q j slot'"
proof -
  let ?n = "nat (in_index slot)"
  have "queue_get (slot_queue slot') i = queue_get (slot_queue slot) i" if i: "i < ?n" for i
  proof -
    obtain e where "queue_get (slot_queue slot) i = Some e" using assms(1) i unfolding slot_order_def by blast
    then show ?thesis using assms(2) unfolding slot_extends_def queue_extends_def by metis
  qed
  then have "queue_data (slot_queue slot') ?n = queue_data (slot_queue slot) ?n"
    "\<forall>i < ?n. queue_get (slot_queue slot') i \<noteq> None"
    using assms(1) by (simp_all add: queue_data_def slot_order_def)
  then show ?thesis using assms by (simp add: slot_order_def slot_extends_def slot_taken_def)
qed

lemma host_order_slots:
  assumes "host_order host" and "mutual_queue host' = mutual_queue host"
    and "list_all2 slot_extends (peer_slots host) (peer_slots host')"
  shows "host_order host'"
  using assms slot_order_extends by (auto simp: host_order_def list_all2_conv_all_nth)

lemma queue_insert_extends:
  assumes "queue_insert nd q index t a (chunk_ref d) al = Some (st, q', al')"
  shows "queue_extends q q'"
  using queue_insert_cases [OF assms] by (auto simp: queue_extends_def queue_log.get_put)

lemma list_all2_refl_slots [simp]: "list_all2 slot_extends slots slots"
  by (simp add: list_all2_refl)

lemma slots_update_extends:
  "slot_extends (slots ! j) slot \<Longrightarrow> list_all2 slot_extends slots (slots[j := slot])"
  by (cases "j < length slots") (auto simp: list_all2_conv_all_nth nth_list_update)

lemma slots_extends_trans:
  "list_all2 slot_extends s1 s2 \<Longrightarrow> list_all2 slot_extends s2 s3 \<Longrightarrow> list_all2 slot_extends s1 s3"
  using list_all2_trans [of slot_extends slot_extends slot_extends] slot_extends_trans by blast

lemma input_host_extends:
  assumes "input_host nd j c h (s, p) = Some (s', p')" and "chunk_read c h"
  shows "list_all2 slot_extends (peer_slots p) (peer_slots p')"
proof (cases "p' = p")
  case False
  then obtain st q al where j: "j < length (peer_slots p)"
    and ins: "queue_insert nd (slot_queue (peer_slots p ! j)) (header_index h) 0
      (slot_actor (peer_slots p ! j)) (chunk_ref (drop 30 c)) (peer_alloc p) = Some (st, q, al)"
    and p': "peer_slots p' = (peer_slots p)[j := (peer_slots p ! j)\<lparr>slot_queue := q\<rparr>]"
    using assms by (auto simp: input_host_def chunk_read_def c_load_eq_Some Let_def
        split: if_splits dest!: bind_eq_SomeD)
  then show ?thesis
    using queue_insert_extends [OF ins] slots_update_extends [of "peer_slots p" j] by (simp add: slot_extends_def)
qed simp

lemma input_chunks_extends:
  assumes "input_chunks nd j cs (s, p) = Some (s', p')" and "peer_mode p = PEER_HOST"
    and "\<forall>c \<in> set cs. chunk_of packet c \<or> c = []" and "length (packet_data packet) = 400"
  shows "list_all2 slot_extends (peer_slots p) (peer_slots p')"
  using assms
proof (induction cs arbitrary: s p)
  case (Cons c cs)
  obtain s1 p1 where one: "input_chunk nd j c (s, p) = Some (s1, p1)"
    and rest: "input_chunks nd j cs (s1, p1) = Some (s', p')"
    using Cons.prems(1) by (auto dest!: bind_eq_SomeD)
  obtain h where h: "read_header nd c = Some h" "input_host nd j c h (s, p) = Some (s1, p1)"
    using one Cons.prems(2) by (auto simp: input_chunk_def dest!: bind_eq_SomeD)
  have "chunk_read c h" using chunk_readI [OF _ Cons.prems(4) h(1)] Cons.prems(3) by simp
  from input_host_extends [OF h(2) this]
  show ?case
    using Cons.IH [OF rest _ _ Cons.prems(4)] input_chunk_same [OF one Cons.prems(2)] Cons.prems(2,3) slots_extends_trans
    by (auto simp: same_queue_def)
qed simp

text \<open>A slot that is given to a client gets its index as actor; until then its queue is empty.\<close>

lemma assign_slot_order:
  assumes "assign_slot packet (s, p) = (s', p')" and "peer_wf p" and "host_order p"
  shows "host_order p'"
proof (cases "p' = p")
  case False
  then obtain slot0 slots j where slots: "peer_slots p = slot0 # slots" and find: "find_slot slot_free 1 slots = Some j"
    and host: "peer_mode p = PEER_HOST"
    and p': "p' = p\<lparr>peer_slots := (peer_slots p)[j := (peer_slots p ! j)
      \<lparr>slot_state := PEER_SLOT_SESSION_REQUEST, slot_remote := (slot_remote (peer_slots p ! j))
        \<lparr>endpoint_id := source_id packet, is_id_resolved := True\<rparr>, slot_actor := int j\<rparr>]\<rparr>"
    using assms(1) by (auto simp: assign_slot_def Let_def split: list.splits if_splits option.splits)
  have j: "1 \<le> j" "j < length (peer_slots p)" using find_slot_Some [OF find] slots by auto
  then have "slot_order (mutual_queue p) j (peer_slots p' ! j)"
    using assms(3) by (simp add: p' host_order_def slot_order_def)
  then show ?thesis using assms(3) j by (auto simp: p' host_order_def nth_list_update)
qed (use assms(3) in simp)

lemma input_packet_order:
  assumes "input_packet nd packet (s, p) = Some (s', p')" and "peer_wf p" and "peer_mode p = PEER_HOST" and "host_order p"
    and "length (packet_data packet) = 400"
  shows "host_order p'"
proof (cases "find_slot (slot_matches packet) 0 (peer_slots p)")
  case None
  then show ?thesis
    using assms(1,2,4) assign_slot_order [of packet s p s' p'] by (auto simp: input_packet_def split: if_splits)
next
  case (Some j)
  show ?thesis
  proof (cases "p' = p")
    case False
    then obtain s0 cs al where un: "peer_unpack nd [packet] [] (peer_alloc p) = Some (s0, cs, al)"
      and cs: "input_chunks nd j cs (s OR s0, p\<lparr>peer_alloc := al\<rparr>) = Some (s', p')"
      using assms(1) Some by (auto simp: input_packet_def split: if_splits dest!: bind_eq_SomeD)
    have "\<forall>c \<in> set cs. chunk_of packet c \<or> c = []" by (rule peer_unpack_chunks [OF un assms(5)])
    then have "list_all2 slot_extends (peer_slots p) (peer_slots p')"
      using input_chunks_extends [OF cs _ _ assms(5)] assms(3) by simp
    moreover have "mutual_queue p' = mutual_queue p"
      using input_chunks_same [OF cs] assms(3) by (simp add: same_queue_def)
    ultimately show ?thesis by (intro host_order_slots [OF assms(4)])
  qed (use assms(4) in simp)
qed

lemma peer_input_order:
  assumes "peer_input nd (Some p) packets = Some (st, Some p')" and "peer_wf p" and "peer_mode p = PEER_HOST"
    and "host_order p" and "\<forall>q \<in> set packets. length (packet_data q) = 400 \<and> source_id q \<noteq> - 1"
  shows "host_order p'"
proof -
  have "host_order p'" if "input_packets nd packets (s, p) = Some (s', p')" "peer_wf p" "peer_mode p = PEER_HOST"
    "host_order p" "\<forall>q \<in> set packets. length (packet_data q) = 400 \<and> source_id q \<noteq> - 1" for s s' packets and p p' :: "'a peer_t"
    using that
  proof (induction packets arbitrary: s p)
    case (Cons q qs)
    obtain s1 p1 where one: "input_packet nd q (s, p) = Some (s1, p1)" and rest: "input_packets nd qs (s1, p1) = Some (s', p')"
      using Cons.prems(1) by (auto dest!: bind_eq_SomeD)
    show ?case
      using Cons.IH [OF rest] input_packet_order [OF one] input_packet_wf [OF _ one] input_packet_same [OF one] Cons.prems
      by (auto simp: same_queue_def)
  qed simp
  then show ?thesis
    using assms by (auto simp: peer_input_def with_peer_def peer_input_body_def dest!: bind_eq_SomeD)
qed

lemma peer_queue_order:
  assumes "peer_queue nd (Some p) (chunk_ref d) = Some (st, Some p')" and "peer_wf p" and "peer_mode p = PEER_HOST"
    and "host_order p"
  shows "host_order p'"
proof -
  obtain s q al where app: "queue_append (mutual_queue p) 0 0 (chunk_ref d) (peer_alloc p) = Some (s, q, al)"
    and p': "p' = p\<lparr>mutual_queue := q, peer_alloc := al\<rparr>"
    using assms(1-3) by (auto simp: peer_queue_def with_peer_def peer_queue_body_eq peer_wf_def dest!: bind_eq_SomeD)
  have "q = mutual_queue p \<or> q = mutual_queue p @ [ready_message (0, 0, d)]" by (rule queue_append_Some [OF app])
  moreover have "actor_data (int j) [ready_message (0, 0, d)] = []" if "1 \<le> j" for j
    using that by (intro actor_data_Nil) simp
  ultimately show ?thesis using assms(4) by (auto simp: p' host_order_def slot_order_def)
qed

lemma peer_open_order:
  assumes "peer_open nd (Some p) (ids_ref ids) = Some (st, Some p')" and "host_order p"
  shows "host_order p'"
proof (cases "peer_slots p' = peer_slots p")
  case True
  then show ?thesis using assms(2) peer_open_same [OF assms(1)] by (simp add: host_order_def same_queue_def)
next
  case False
  let ?n = "length (peer_slots p)"
  have p': "peer_slots p' = peer_slots p @ new_slots (peer_mode p) ids"
    using False assms(1)
    by (auto simp: peer_open_def with_peer_def peer_open_body_eq split: if_splits prod.splits option.splits dest!: bind_eq_SomeD)
  have q: "mutual_queue p' = mutual_queue p" using peer_open_same [OF assms(1)] by (simp add: same_queue_def)
  have "slot_order (mutual_queue p) j (peer_slots p' ! j)" if j: "1 \<le> j" "?n \<le> j" "j < length (peer_slots p')" for j
  proof -
    have "\<forall>m \<in> set (mutual_queue p). message_actor m \<noteq> int j"
      using assms(2) j(1,2) by (fastforce simp: host_order_def)
    moreover have "peer_slots p' ! j = open_slot (peer_mode p) (int (j - ?n)) (ids ! (j - ?n))"
      using j by (simp add: p' nth_append new_slots_def)
    ultimately show ?thesis
      by (simp add: slot_order_def slot_taken_def open_slot_def zero_slot_def zero_endpoint_def queue_data_def actor_data_Nil)
  qed
  moreover have "slot_order (mutual_queue p) j (peer_slots p' ! j)" if "1 \<le> j" "j < ?n" for j
    using that assms(2) by (simp add: p' nth_append host_order_def)
  moreover have "message_actor m = 0 \<or> message_actor m < int (length (peer_slots p'))" if "m \<in> set (mutual_queue p)" for m
    using that assms(2) by (fastforce simp: p' host_order_def)
  ultimately show ?thesis unfolding host_order_def q by (meson not_le)
qed

subsection \<open>The tick\<close>

lemma queue_get_takeWhile:
  assumes "i < length (takeWhile is_ready (drop n q))"
  shows "queue_get q (n + i) = Some (message_entry (takeWhile is_ready (drop n q) ! i))"
proof -
  have len: "length (takeWhile is_ready (drop n q)) \<le> length (drop n q)" by (rule length_takeWhile_le)
  have "takeWhile is_ready (drop n q) ! i = q ! (n + i)" using assms len by (simp add: takeWhile_nth)
  moreover have "is_ready (takeWhile is_ready (drop n q) ! i)" using set_takeWhileD [OF nth_mem [OF assms]] by simp
  moreover have "n + i < length q" using assms len by simp
  ultimately show ?thesis by (simp add: queue_get_def)
qed

lemma queue_data_takeWhile:
  "queue_data q (n + length (takeWhile is_ready (drop n q))) = queue_data q n @ map message_data (takeWhile is_ready (drop n q))"
proof -
  let ?c = "takeWhile is_ready (drop n q)"
  have "map (\<lambda>i. entry_data (queue_get q i)) [n..<n + length ?c] = map message_data ?c"
    by (intro nth_equalityI) (simp_all add: queue_get_takeWhile entry_data_def message_entry_def)
  then show ?thesis by (simp add: queue_data_def upt_add_eq_append [of 0 n])
qed

text \<open>Of the messages collected from all slots, those of one actor come from its slot.\<close>

lemma concat_only:
  assumes "j < length xs" and "\<And>k. k < length xs \<Longrightarrow> f (xs ! k) = (if k = j then y else [])"
  shows "concat (map f xs) = y"
  using assms
proof (induction xs arbitrary: j)
  case (Cons x xs)
  show ?case
  proof (cases j)
    case 0
    have "f x' = []" if "x' \<in> set xs" for x'
      using that Cons.prems(2) 0 by (metis in_set_conv_nth length_Cons nat.distinct(1) nth_Cons_Suc Suc_less_eq)
    then show ?thesis using Cons.prems(2) [of 0] 0 by simp
  next
    case (Suc i)
    have "concat (map f xs) = y"
    proof (rule Cons.IH)
      show "i < length xs" using Cons.prems(1) Suc by simp
      show "f (xs ! k) = (if k = i then y else [])" if "k < length xs" for k
        using Cons.prems(2) [of "Suc k"] that Suc by simp
    qed
    then show ?thesis using Cons.prems(2) [of 0] Suc by simp
  qed
qed simp

lemma actor_data_concat: "actor_data a (concat qs) = concat (map (actor_data a) qs)"
  by (induction qs) (simp_all add: actor_data_Nil)

lemma collected_actor:
  assumes "\<forall>i. 1 \<le> i \<and> i < length slots \<longrightarrow> slot_order q i (slots ! i)"
    and "list_all (mode_slot_wf PEER_HOST q) slots" and "1 \<le> j" and "j < length slots"
  shows "actor_data (int j) (concat (map (collected t) (drop 1 slots))) = map message_data (collected t (slots ! j))"
proof -
  have one: "actor_data (int j) (collected t (slots ! Suc k)) =
      (if k = j - 1 then map message_data (collected t (slots ! j)) else [])" if "k < length slots - 1" for k
  proof (cases "slot_taken (slots ! Suc k)")
    case True
    then have "slot_actor (slots ! Suc k) = int (Suc k)" using assms(1) that by (simp add: slot_order_def)
    then have "\<forall>m \<in> set (collected t (slots ! Suc k)). message_actor m = int (Suc k)" by (auto simp: collected_def)
    moreover have "int (Suc k) = int j \<longleftrightarrow> k = j - 1" using assms(3) by auto
    ultimately show ?thesis using assms(3) by (auto simp: actor_data_own intro!: actor_data_Nil)
  next
    case False
    have "mode_slot_wf PEER_HOST q (slots ! Suc k)" using assms(2) that by (simp add: list_all_length)
    then have "slot_queue (slots ! Suc k) = []" using False by (simp add: mode_slot_wf_def host_slot_wf_def slot_taken_def)
    then show ?thesis using assms(3) by (auto simp: collected_def actor_data_Nil)
  qed
  have "concat (map (\<lambda>s. actor_data (int j) (collected t s)) (drop 1 slots)) = map message_data (collected t (slots ! j))"
    using one assms(3,4) by (intro concat_only [of "j - 1"]) auto
  then show ?thesis by (simp add: actor_data_concat o_def)
qed

lemma ticked_slot_queue:
  assumes "1 \<le> j" and "j < length (peer_slots host)"
  shows "slot_queue (peer_slots (ticked_host dt host) ! j) = slot_queue (peer_slots host ! j)"
    and "in_index (peer_slots (ticked_host dt host) ! j) = in_index (peer_slots host ! j) +
      int (length (takeWhile is_ready (drop (nat (in_index (peer_slots host ! j))) (slot_queue (peer_slots host ! j)))))"
proof -
  obtain s ss k where s: "peer_slots host = s # ss" "j = Suc k" using assms by (cases "peer_slots host"; cases j) auto
  show "slot_queue (peer_slots (ticked_host dt host) ! j) = slot_queue (peer_slots host ! j)"
    and "in_index (peer_slots (ticked_host dt host) ! j) = in_index (peer_slots host ! j) +
      int (length (takeWhile is_ready (drop (nat (in_index (peer_slots host ! j))) (slot_queue (peer_slots host ! j)))))"
    using assms s by (simp_all add: ticked_host_def collected_host_def tick_clock_def Let_def advance_slot_def collected_def)
qed

text \<open>The host after the collection.\<close>

lemma ticked_order:
  assumes "host_order host" and "peer_wf host" and "peer_mode host = PEER_HOST"
    and "1 \<le> j" and "j < length (peer_slots host)"
  shows "slot_order (host_queue t host) j (peer_slots (ticked_host dt host) ! j)"
proof -
  let ?s = "peer_slots host ! j" and ?q = "mutual_queue host"
  let ?n = "nat (in_index ?s)" and ?c = "takeWhile is_ready (drop (nat (in_index ?s)) (slot_queue ?s))"
  have order: "slot_order ?q j ?s" using assms(1,4,5) by (simp add: host_order_def)
  have wf: "list_all (mode_slot_wf PEER_HOST ?q) (peer_slots host)" using assms(2,3) by (simp add: peer_wf_def)
  then have in0: "0 \<le> in_index ?s" using assms(5) by (simp add: list_all_length mode_slot_wf_def slot_wf_def)
  have n: "nat (in_index (peer_slots (ticked_host dt host) ! j)) = ?n + length ?c"
    using ticked_slot_queue(2) [OF assms(4,5)] in0 by (simp add: nat_add_distrib)
  have "actor_data (int j) (host_queue t host) = actor_data (int j) ?q @ map message_data (collected t ?s)"
    using collected_actor [OF _ wf assms(4,5)] assms(1)
    by (simp add: host_queue_def host_order_def append_assoc [symmetric] del: append_assoc)
      (simp add: actor_data_append [symmetric] del: actor_data_append)
  also have "\<dots> = queue_data (slot_queue ?s) (?n + length ?c)"
    using order by (simp add: slot_order_def queue_data_takeWhile collected_def o_def)
  finally have data: "actor_data (int j) (host_queue t host) = queue_data (slot_queue ?s) (?n + length ?c)" .
  have "queue_get (slot_queue ?s) i \<noteq> None" if "i < ?n + length ?c" for i
  proof (cases "i < ?n")
    case True
    then show ?thesis using order by (simp add: slot_order_def)
  next
    case False
    then show ?thesis using queue_get_takeWhile [of "i - ?n" ?n "slot_queue ?s"] that by simp
  qed
  then show ?thesis
    using order data n ticked_slot_queue(1) [OF assms(4,5)] ticked_slot(4,5) [OF assms(5)]
    by (simp add: slot_order_def slot_taken_def)
qed

lemma collected_actors:
  assumes "host_order host" and "peer_wf host" and "peer_mode host = PEER_HOST" and "m \<in> set (host_queue t host)"
  shows "message_actor m = 0 \<or> message_actor m < int (length (peer_slots host))"
proof (cases "\<exists>m' \<in> set (mutual_queue host). message_actor m = message_actor m'")
  case True
  then show ?thesis using assms(1) by (auto simp: host_order_def)
next
  case False
  then obtain slot where slot: "slot \<in> set (drop 1 (peer_slots host))" "m \<in> set (collected t slot)"
    using assms(4) by (auto simp: host_queue_def dest: in_set_takeD in_set_dropD)
  then obtain k where k: "k < length (peer_slots host) - 1" "slot = peer_slots host ! Suc k"
    by (auto simp: in_set_conv_nth)
  have "mode_slot_wf PEER_HOST (mutual_queue host) slot"
    using assms(2,3) k by (simp add: peer_wf_def list_all_length)
  then have "slot_taken slot" using slot(2) by (auto simp: slot_taken_def mode_slot_wf_def host_slot_wf_def collected_def)
  then have "slot_actor slot = int (Suc k)" using assms(1) k by (simp add: host_order_def slot_order_def)
  then show ?thesis using slot(2) k by (auto simp: collected_def)
qed

lemma slot_sent_extends: "slot_sent q slot slot' \<Longrightarrow> slot_extends slot slot'"
  by (auto simp: slot_sent_def slot_extends_def queue_extends_def)

text \<open>A tick that is not refused: the mutual queue, and what sending changes of the slots.\<close>

lemma peer_tick_slots:
  assumes "peer_wf host" and "peer_mode host = PEER_HOST" and "alloc_ok (peer_alloc host)"
    and "peer_tick M True (Some host) dt = Some (result, Some host')" and "int (length (mutual_queue host')) \<le> INT64_MAX"
    and "0 \<le> dt" and "dt \<le> INT64_MAX - peer_time_local host"
  shows "mutual_queue host' = host_queue (peer_time_local host + dt) host"
    and "queue_index host' = int (length (mutual_queue host'))"
    and "length (peer_slots host') = length (peer_slots host)"
    and "\<forall>j. 1 \<le> j \<and> j < length (peer_slots host) \<longrightarrow>
      slot_sent (mutual_queue host') (peer_slots (ticked_host dt host) ! j) (peer_slots host' ! j)"
    and "take 1 (peer_slots host') = take 1 (peer_slots (ticked_host dt host))"
    and "peer_time_local host' = peer_time_local host + dt"
proof -
  let ?q = "host_queue (peer_time_local host + dt) host" and ?h = "ticked_host dt host" and ?n = "length (peer_slots host)"
  show queue: "mutual_queue host' = ?q" by (rule peer_tick_host_queue [OF assms(1-4,6,7)])
  then have "int (length ?q) \<le> INT64_MAX" using assms(5) by simp
  from peer_tick_host [OF assms(1-3,6,7) this, of M]
  obtain slots' rng' news al' where len: "length slots' = ?n - 1" and
    sends: "\<forall>k < ?n - 1. sends ?q (endpoint_id (slot_local (peer_slots host ! 0)))
      (peer_slots ?h ! Suc k) (slots' ! k) (news ! k)" and
    run: "peer_tick M True (Some host) dt = Some (\<lparr>tick_status = KIT_OK, tick_packets = concat news\<rparr>,
      Some (?h\<lparr>peer_slots := take 1 (peer_slots ?h) @ slots', peer_mt64 := rng', peer_alloc := al'\<rparr>))" by blast
  have slots: "peer_slots host' = take 1 (peer_slots ?h) @ slots'" "queue_index host' = queue_index ?h"
    "peer_time_local host' = peer_time_local ?h"
    using run assms(4) by auto
  then show "peer_time_local host' = peer_time_local host + dt"
    by (simp add: ticked_host_def collected_host_def tick_clock_def Let_def)
  show "queue_index host' = int (length (mutual_queue host'))"
    using slots(2) ticked_host_sel(4) [of dt host] queue by (simp add: ticked_host_def collected_host_def Let_def)
  show "length (peer_slots host') = ?n" using slots(1) len ticked_host_sel(5) [of dt host] by auto
  show "take 1 (peer_slots host') = take 1 (peer_slots ?h)" using len ticked_host_sel(5) [of dt host] by (cases "peer_slots ?h") (simp_all add: slots(1))
  show "\<forall>j. 1 \<le> j \<and> j < ?n \<longrightarrow> slot_sent (mutual_queue host') (peer_slots ?h ! j) (peer_slots host' ! j)"
  proof (intro allI impI)
    fix j assume j: "1 \<le> j \<and> j < ?n"
    then have "length (take 1 (peer_slots ?h)) = 1" "j - 1 < ?n - 1" using ticked_host_sel(5) [of dt host] by auto
    moreover from this have "slot_sent ?q (peer_slots ?h ! Suc (j - 1)) (slots' ! (j - 1))"
      using sends unfolding sends_def by blast
    ultimately show "slot_sent (mutual_queue host') (peer_slots ?h ! j) (peer_slots host' ! j)"
      using j by (simp add: slots(1) nth_append queue)
  qed
qed

lemma peer_tick_order:
  assumes "host_order host" and "peer_wf host" and "peer_mode host = PEER_HOST" and "alloc_ok (peer_alloc host)"
    and "peer_tick M True (Some host) dt = Some (result, Some host')" and "int (length (mutual_queue host')) \<le> INT64_MAX"
  shows "host_order host'"
proof (cases "dt < 0 \<or> peer_time_local host > INT64_MAX - dt")
  case True
  then show ?thesis using assms(1,5) by (auto simp: peer_tick_def peer_tick_body_def split: if_splits)
next
  case False
  then have dt: "0 \<le> dt" "dt \<le> INT64_MAX - peer_time_local host" by auto
  note tick = peer_tick_slots [OF assms(2-6) dt]
  have "slot_order (mutual_queue host') j (peer_slots host' ! j)" if j: "1 \<le> j" "j < length (peer_slots host')" for j
  proof -
    have n: "j < length (peer_slots host)" using j(2) tick(3) by simp
    then have "slot_extends (peer_slots (ticked_host dt host) ! j) (peer_slots host' ! j)"
      using tick(4) j(1) slot_sent_extends by blast
    then show ?thesis unfolding tick(1) by (rule slot_order_extends [OF ticked_order [OF assms(1-3) j(1) n]])
  qed
  then show ?thesis
    using collected_actors [OF assms(1-3)] by (simp add: host_order_def tick(1,3))
qed

end
