(* ===== verification/Peer_Upstream.thy ===== *)
theory Peer_Upstream
  imports Peer_Order "HOL-Library.Sublist"
begin

text \<open>
  The direction from a client to its host, component by component: the messages a client has queued are only added to,
  whatever it receives; the host stores on a client's slot only what comes in packets from that client; and what a
  client sends are its own messages, or messages of the mutual queue (the trail of its heartbeat) that the host does
  not take, because they carry the time at which they were published. The theory \<open>Peer_Duplex\<close> puts these together.
\<close>

subsection \<open>The messages a client has queued\<close>

definition client_data :: "'r peer_t \<Rightarrow> byte list list" where
  "client_data client = (case peer_slots client of [] \<Rightarrow> [] | slot # slots \<Rightarrow> map message_data (slot_queue slot))"

definition slots_data :: "'r peer_t \<Rightarrow> byte list list list" where
  "slots_data peer = map (\<lambda>slot. map message_data (slot_queue slot)) (peer_slots peer)"

lemma client_data_slots: "slots_data p' = slots_data p \<Longrightarrow> client_data p' = client_data p"
  by (cases "peer_slots p"; cases "peer_slots p'") (simp_all add: slots_data_def client_data_def)

lemma client_data_alloc [simp]: "client_data (p\<lparr>peer_alloc := al\<rparr>) = client_data p"
  by (simp add: client_data_def)

lemma slots_data_update:
  assumes "map message_data (slot_queue slot) = map message_data (slot_queue (peer_slots p ! j))"
  shows "slots_data (p\<lparr>peer_slots := (peer_slots p)[j := slot]\<rparr>) = slots_data p"
  using assms by (cases "j < length (peer_slots p)") (simp_all add: slots_data_def map_update list_update_same_conv list_update_beyond)

text \<open>What a client receives leaves its own messages alone, but for the actor of a session response.\<close>

lemma client_service_data:
  assumes "client_service nd j c h p = Some (processed, p')"
  shows "slots_data p' = slots_data p \<and> peer_mode p' = peer_mode p"
proof -
  have "slots_data p' = slots_data p \<and> peer_mode p' = peer_mode p" if run: "session_response nd j c h p = Some p'"
  proof -
    let ?s = "peer_slots p ! j"
    obtain address where "p' = p\<lparr>peer_actor := header_actor h, peer_slots := (peer_slots p)[j := ?s
        \<lparr>slot_remote := (slot_remote ?s)\<lparr>is_id_resolved := False,
            address_size := header_data_size h - 1, address_data := address\<rparr>,
         slot_queue := map (\<lambda>m. m\<lparr>message_actor := header_actor h\<rparr>) (slot_queue ?s)\<rparr>]\<rparr>"
      using run by (auto simp: session_response_def c_load_eq_Some dest!: bind_eq_SomeD)
    moreover have "slots_data (p\<lparr>peer_actor := header_actor h\<rparr>) = slots_data p" by (simp add: slots_data_def)
    ultimately show ?thesis
      using slots_data_update [of _ "p\<lparr>peer_actor := header_actor h\<rparr>" j] by (simp add: o_def)
  qed
  then show ?thesis using assms by (auto simp: client_service_def split: if_splits dest!: bind_eq_SomeD)
qed

lemma input_client_data:
  assumes "input_client nd j c h (s, p) = Some (s', p')"
  shows "slots_data p' = slots_data p \<and> peer_mode p' = peer_mode p"
proof -
  obtain processed p1 where p1: "client_service nd j c h p = Some (processed, p1)"
    using assms by (cases "client_service nd j c h p") (auto simp: input_client_def)
  have "slots_data p' = slots_data p1 \<and> peer_mode p' = peer_mode p1"
    using assms p1
    by (auto simp: input_client_def client_store_def sync_time_def slots_data_def split: if_splits dest!: bind_eq_SomeD)
  then show ?thesis using client_service_data [OF p1] by simp
qed

lemma input_chunks_data:
  assumes "input_chunks nd j cs (s, p) = Some (s', p')" and "peer_mode p = PEER_CLIENT"
  shows "slots_data p' = slots_data p \<and> peer_mode p' = PEER_CLIENT"
  using assms
proof (induction cs arbitrary: s p)
  case (Cons c cs)
  obtain s1 p1 where one: "input_chunk nd j c (s, p) = Some (s1, p1)"
    and rest: "input_chunks nd j cs (s1, p1) = Some (s', p')"
    using Cons.prems(1) by (auto dest!: bind_eq_SomeD)
  have "slots_data p1 = slots_data p \<and> peer_mode p1 = PEER_CLIENT"
    using one Cons.prems(2) by (auto simp: input_chunk_def dest!: bind_eq_SomeD dest: input_client_data)
  then show ?case using Cons.IH [OF rest] by simp
qed simp

lemma peer_input_data:
  assumes "peer_input nd (Some p) packets = Some (st, Some p')" and "peer_mode p = PEER_CLIENT"
  shows "client_data p' = client_data p"
proof -
  have one: "slots_data p' = slots_data p \<and> peer_mode p' = PEER_CLIENT"
    if run: "input_packet nd q (s, p) = Some (s', p')" "peer_mode p = PEER_CLIENT" for q s s' and p p' :: "'a peer_t"
  proof (cases "p' = p")
    case False
    then obtain j s0 cs al where "input_chunks nd j cs (s0, p\<lparr>peer_alloc := al\<rparr>) = Some (s', p')"
      using run
      by (fastforce simp: input_packet_def assign_slot_def split: if_splits option.splits list.splits dest!: bind_eq_SomeD)
    then show ?thesis using input_chunks_data [of nd j cs s0 "p\<lparr>peer_alloc := al\<rparr>"] run(2) by (simp add: slots_data_def)
  qed (use run(2) in simp)
  have "slots_data p' = slots_data p" if "input_packets nd packets (s, p) = Some (s', p')" "peer_mode p = PEER_CLIENT"
    for s s' and p p' :: "'a peer_t"
    using that
  proof (induction packets arbitrary: s p)
    case (Cons q qs)
    then obtain s1 p1 where "input_packet nd q (s, p) = Some (s1, p1)" "input_packets nd qs (s1, p1) = Some (s', p')"
      by (auto dest!: bind_eq_SomeD)
    then show ?case using Cons.IH [of s1 p1] one [of q s p s1 p1] Cons.prems(2) by simp
  qed simp
  then show ?thesis
    using assms client_data_slots [of p' p]
    by (auto simp: peer_input_def with_peer_def peer_input_body_def dest!: bind_eq_SomeD)
qed

lemma peer_queue_data:
  assumes "peer_queue nd (Some p) (chunk_ref d) = Some (st, Some p')" and "peer_mode p = PEER_CLIENT"
  shows "client_data p' = client_data p \<or> client_data p' = client_data p @ [d]"
  using assms
  by (cases "peer_slots p")
    (auto simp: peer_queue_def with_peer_def peer_queue_body_eq client_data_def dest!: bind_eq_SomeD queue_append_Some)

lemma peer_tick_data:
  assumes "peer_tick M nd (Some p) dt = Some (r, Some p')" and "peer_mode p = PEER_CLIENT"
  shows "client_data p' = client_data p"
proof -
  have send: "slot_queue slot' = slot_queue slot" if "client_send_slot M nd q slot = Some (slot', st)" for q slot slot' st
    using that by (auto simp: client_send_slot_def split: if_splits dest!: bind_eq_SomeD dest: send_heartbeat_sent)
  have "client_data q' = client_data q" if "client_send M nd q = Some (r, q')" for q q'
    using that send by (cases "peer_slots q") (auto simp: client_send_def client_data_def dest!: bind_eq_SomeD)
  moreover have "client_data (tick_clock dt p) = client_data p" "peer_mode (tick_clock dt p) = peer_mode p"
    by (cases "peer_slots p"; simp add: tick_clock_def client_data_def)+
  ultimately show ?thesis
    using assms by (auto simp: peer_tick_def peer_tick_body_def Let_def split: if_splits dest!: bind_eq_SomeD)
qed

lemma peer_open_data:
  assumes "peer_open nd (Some p) (ids_ref ids) = Some (st, Some p')"
  shows "prefix (client_data p) (client_data p')"
  using assms
  by (cases "peer_slots p")
    (auto simp: peer_open_def with_peer_def peer_open_body_eq client_data_def split: if_splits prod.splits option.splits
      dest!: bind_eq_SomeD)

lemma peer_connect_data:
  assumes "peer_connect nd (Some p) server_id = Some (st, Some p')"
  shows "client_data p' = client_data p"
proof -
  have "slots_data p' = slots_data p"
    using assms by (auto simp: peer_connect_def with_peer_def peer_connect_body_def connect_slots_Some slots_data_update
        split: option.splits)
  then show ?thesis by (rule client_data_slots)
qed

lemma slots_resolved_data:
  "list_all2 slot_resolved (peer_slots p) slots \<Longrightarrow> client_data (p\<lparr>peer_slots := slots\<rparr>) = client_data p"
  by (cases "peer_slots p"; cases slots) (auto simp: client_data_def slot_resolved_def)

text \<open>In a session the client's messages are only ever added to.\<close>

lemma session_step_data:
  assumes "session_step M s s'" and "session_inv s"
  shows "prefix (client_data (sess_client s)) (client_data (sess_client s'))"
proof -
  have mode: "peer_mode ((sess_client s)\<lparr>peer_alloc := al\<rparr>) = PEER_CLIENT" for al
    using assms(2) by (simp add: session_inv_def)
  from assms(1) show ?thesis
  proof cases
    case (step_client_queue al d st client')
    then show ?thesis using peer_queue_data [OF _ mode] by fastforce
  next
    case (step_client_input al packets st client')
    then show ?thesis using peer_input_data [OF _ mode] by simp
  next
    case (step_client_tick al dt result client')
    then show ?thesis using peer_tick_data [OF _ mode] by simp
  next
    case (step_client_open ids al st client')
    then show ?thesis using peer_open_data by fastforce
  next
    case (step_client_connect al server_id st client')
    then show ?thesis using peer_connect_data by fastforce
  next
    case (step_client_resolve slots)
    then show ?thesis using slots_resolved_data [of "sess_client s" slots] by simp
  qed simp_all
qed

subsection \<open>What a host takes of a client's packets\<close>

text \<open>
  A message a client may send: one of its own, or one the host does not take. The trail of a client's heartbeat
  consists of messages of the mutual queue: those carry the time of the host's tick, or they are gaps.
\<close>

fun up_message :: "byte list list \<Rightarrow> wire_message \<Rightarrow> bool" where
  "up_message D (M_application i (t, a, d)) \<longleftrightarrow> t \<noteq> 0 \<or> a = 0 \<or> (i < length D \<and> D ! i = d)"
| "up_message D m \<longleftrightarrow> True"

definition up_packet :: "byte list list \<Rightarrow> peer_packet_t \<Rightarrow> bool" where
  "up_packet D p \<longleftrightarrow> (\<exists>ms. p = wire_packet (source_id p) (destination_id p) ms \<and> packet_ok ms \<and>
     (\<forall>m \<in> set ms. up_message D m))"

definition up_queue :: "byte list list \<Rightarrow> peer_queue_t \<Rightarrow> bool" where
  "up_queue D q \<longleftrightarrow> (\<forall>i t a d. queue_get q i = Some (t, a, d) \<longrightarrow> i < length D \<and> D ! i = d)"

text \<open>The slots the host has given to the client with id \<open>c\<close> hold messages of the client only.\<close>

definition up_slots :: "byte list list \<Rightarrow> ptrdiff_t \<Rightarrow> 'r peer_t \<Rightarrow> bool" where
  "up_slots D c host \<longleftrightarrow> (\<forall>j. 1 \<le> j \<and> j < length (peer_slots host) \<and>
     endpoint_id (slot_remote (peer_slots host ! j)) = c \<longrightarrow> up_queue D (slot_queue (peer_slots host ! j)))"

lemma up_message_mono:
  assumes "up_message D m" and "prefix D D'"
  shows "up_message D' m"
  using assms by (cases "(D, m)" rule: up_message.cases) (auto simp: prefix_def nth_append)

lemma up_packet_mono: "up_packet D p \<Longrightarrow> prefix D D' \<Longrightarrow> up_packet D' p"
  unfolding up_packet_def using up_message_mono by blast

lemma up_slots_mono:
  assumes "up_slots D c host" and "prefix D D'"
  shows "up_slots D' c host"
  using assms unfolding up_slots_def up_queue_def prefix_def by (fastforce simp: nth_append)

lemma up_packet_content:
  assumes "up_packet D q" and "same_content p q"
  shows "up_packet D p"
proof -
  obtain ms where "q = wire_packet (source_id q) (destination_id q) ms" "packet_ok ms" "\<forall>m \<in> set ms. up_message D m"
    using assms(1) by (auto simp: up_packet_def)
  moreover from this have "p = wire_packet (source_id p) (destination_id p) ms"
    using assms(2) by (cases p; cases q) (auto simp: same_content_def wire_packet_def closed_packet_def)
  ultimately show ?thesis unfolding up_packet_def by blast
qed

lemma up_packet_data:
  assumes "up_packet D p"
  shows "length (packet_data p) = 400"
proof -
  obtain ms where "p = wire_packet (source_id p) (destination_id p) ms" "packet_ok ms" using assms by (auto simp: up_packet_def)
  then show ?thesis using parcel_packet_data [of "(source_id p, destination_id p, ms)"] by (simp add: parcel_ok_def)
qed

lemma up_slots_empty [simp]: "up_queue D []"
  by (simp add: up_queue_def queue_get_def)

lemma up_slots_update:
  assumes "up_slots D c p" and "peer_slots p' = (peer_slots p)[j := slot]"
    and "1 \<le> j \<Longrightarrow> endpoint_id (slot_remote slot) = c \<Longrightarrow> up_queue D (slot_queue slot)"
  shows "up_slots D c p'"
  unfolding up_slots_def assms(2)
proof (intro allI impI, elim conjE)
  fix k assume "1 \<le> k" "k < length ((peer_slots p)[j := slot])" "endpoint_id (slot_remote ((peer_slots p)[j := slot] ! k)) = c"
  then show "up_queue D (slot_queue ((peer_slots p)[j := slot] ! k))"
    using assms(1,3) by (cases "k = j") (simp_all add: up_slots_def)
qed

text \<open>A message of the client: stored on a slot only when it is one of its own.\<close>

lemma host_receive_up:
  assumes "up_slots D c (snd st)" and "up_message D m" and "j = 0 \<or> slot_actor (peer_slots (snd st) ! j) \<noteq> 0"
    and "endpoint_id (slot_remote (peer_slots (snd st) ! j)) = c"
  shows "up_slots D c (snd (host_receive j m st))"
proof (cases "snd (host_receive j m st) = snd st")
  case False
  obtain status p where st: "st = (status, p)" by (cases st)
  let ?s = "peer_slots p ! j"
  obtain i a d where m: "m = M_application i (0, a, d)" and a: "u32_actor a = slot_actor ?s"
    and p': "snd (host_receive j m st) = p\<lparr>peer_slots := (peer_slots p)[j := ?s
      \<lparr>slot_queue := queue_put (slot_queue ?s) i (0, u32_actor a, d)\<rparr>]\<rparr>"
    using False by (cases "(j, m, st)" rule: host_take.cases) (auto simp: host_receive_def st split: if_splits)
  have own: "i < length D \<and> D ! i = d" if "1 \<le> j"
    using that assms(2,3) a by (auto simp: m st u32_actor_def)
  show ?thesis
  proof (rule up_slots_update [OF assms(1)])
    show "peer_slots (snd (host_receive j m st)) = (peer_slots (snd st))[j := ?s
        \<lparr>slot_queue := queue_put (slot_queue ?s) i (0, u32_actor a, d)\<rparr>]" unfolding p' by (simp add: st)
    assume j: "1 \<le> j"
    have "up_queue D (slot_queue ?s)"
    proof (cases "j < length (peer_slots p)")
      case True
      then show ?thesis using assms(1,4) j by (simp add: up_slots_def st)
    qed (use False p' in \<open>simp add: st list_update_beyond\<close>)
    then show "up_queue D (slot_queue (?s\<lparr>slot_queue := queue_put (slot_queue ?s) i (0, u32_actor a, d)\<rparr>))"
      using own [OF j] by (simp add: up_queue_def queue_log.get_put)
  qed
qed (use assms(1) in simp)

lemma host_receives_up:
  assumes "up_slots D c (snd st)" and "\<forall>m \<in> set ms. up_message D m" and "j = 0 \<or> slot_actor (peer_slots (snd st) ! j) \<noteq> 0"
    and "endpoint_id (slot_remote (peer_slots (snd st) ! j)) = c" and "j < length (peer_slots (snd st))"
  shows "up_slots D c (snd (host_receives j ms st))"
  using assms
proof (induction ms arbitrary: st)
  case (Cons m ms)
  let ?st = "host_receive j m st"
  have "slot_ids (snd ?st) = slot_ids (snd st)" by (rule host_receive_ids)
  then have "endpoint_id (slot_remote (peer_slots (snd ?st) ! j)) = c"
    using Cons.prems(4,5) host_receive_frame(4) [of j m st] unfolding slot_ids_def by (metis (no_types, lifting) nth_map snd_conv)
  then show ?case
    using Cons.IH [of ?st] Cons.prems host_receive_up [of D c st m j] host_receive_frame(4,5) [of j m st] by simp
qed simp

text \<open>A packet changes no slot but the one it is for.\<close>

lemma input_chunks_other:
  assumes "input_chunks nd j cs (s, p) = Some (s', p')" and "peer_mode p = PEER_HOST" and "k \<noteq> j"
  shows "peer_slots p' ! k = peer_slots p ! k"
  using assms
proof (induction cs arbitrary: s p)
  case (Cons c cs)
  obtain s1 p1 where one: "input_chunk nd j c (s, p) = Some (s1, p1)"
    and rest: "input_chunks nd j cs (s1, p1) = Some (s', p')"
    using Cons.prems(1) by (auto dest!: bind_eq_SomeD)
  have "peer_slots p1 ! k = peer_slots p ! k"
    using one Cons.prems(2,3)
    by (auto simp: input_chunk_def input_host_def c_store_def Let_def split: if_splits dest!: bind_eq_SomeD)
  then show ?case
    using Cons.IH [OF rest] input_chunk_same [OF one Cons.prems(2)] Cons.prems(2,3) by (simp add: same_queue_def)
qed simp

text \<open>A packet from a sender without a slot, from the client, and from another sender.\<close>

lemma assign_slot_up:
  assumes "assign_slot p (s, host) = (s', host')" and "peer_wf host" and "up_slots D c host"
  shows "up_slots D c host'"
proof (cases "host' = host")
  case False
  then obtain slot0 slots j where slots: "peer_slots host = slot0 # slots" and find: "find_slot slot_free 1 slots = Some j"
    and mode: "peer_mode host = PEER_HOST" and host': "peer_slots host' = (peer_slots host)[j := assigned_slot p j (peer_slots host ! j)]"
    using assms(1) by (auto simp: assign_slot_def assigned_slot_def Let_def split: list.splits if_splits option.splits)
  have j: "j < length (peer_slots host)" "slot_free (peer_slots host ! j)" using find_slot_Some [OF find] slots by auto
  have "mode_slot_wf PEER_HOST (mutual_queue host) (peer_slots host ! j)"
    using assms(2) mode j(1) by (simp add: peer_wf_def list_all_length)
  then have "slot_queue (peer_slots host ! j) = []"
    using j(2) by (simp add: mode_slot_wf_def host_slot_wf_def slot_free_def)
  then show ?thesis by (intro up_slots_update [OF assms(3) host']) (simp add: assigned_slot_def)
qed (use assms(3) in simp)

lemma input_packet_own:
  assumes "input_packet True p (s, host) = Some (s', host')" and "peer_mode host = PEER_HOST"
    and "host_order host" and "alloc_ok (peer_alloc host)" and "source_id p \<noteq> - 1"
    and "route (source_id p) (destination_id p) host = Some j" and "up_packet D p" and "up_slots D (source_id p) host"
  shows "up_slots D (source_id p) host'"
proof -
  have j: "j < length (peer_slots host)" "endpoint_id (slot_remote (peer_slots host ! j)) = source_id p"
    using route_Some [OF assms(6)] by simp_all
  obtain ms where ms: "p = wire_packet (source_id p) (destination_id p) ms" "packet_ok ms" "\<forall>m \<in> set ms. up_message D m"
    using assms(7) by (auto simp: up_packet_def)
  obtain al where "input_packets True (map (wire_packet (source_id p) (destination_id p)) [ms]) (s, host) =
      Some (host_receives j ms (s, host\<lparr>peer_alloc := al\<rparr>))"
    using input_packets_host [OF _ assms(2,4,6), of "[ms]" True s] ms(2) by (auto simp: host_accepts_def)
  then have "Some (s', host') = Some (host_receives j ms (s, host\<lparr>peer_alloc := al\<rparr>))"
    using assms(1) ms(1) by (simp del: wire_packet_ids split: option.splits)
  then have "host' = snd (host_receives j ms (s, host\<lparr>peer_alloc := al\<rparr>))" by (metis option.inject snd_conv)
  moreover have "j = 0 \<or> slot_actor (peer_slots host ! j) \<noteq> 0"
    using assms(3,5) j by (auto simp: host_order_def slot_order_def slot_taken_def)
  ultimately show ?thesis
    using host_receives_up [OF _ ms(3), of "source_id p" "(s, host\<lparr>peer_alloc := al\<rparr>)" j] assms(8) j by (simp add: up_slots_def)
qed

lemma input_packet_other:
  assumes "input_packet True p (s, host) = Some (s', host')" and "peer_mode host = PEER_HOST"
    and "length (packet_data p) = 400" and "find_slot (slot_matches p) 0 (peer_slots host) = Some j"
    and "source_id p \<noteq> c" and "up_slots D c host"
  shows "up_slots D c host'"
proof (cases "host' = host")
  case False
  then obtain s0 cs al where un: "peer_unpack True [p] [] (peer_alloc host) = Some (s0, cs, al)"
    and cs: "input_chunks True j cs (s OR s0, host\<lparr>peer_alloc := al\<rparr>) = Some (s', host')"
    using assms(1,4) by (auto simp: input_packet_def split: if_splits dest!: bind_eq_SomeD)
  have j: "j < length (peer_slots host)" "endpoint_id (slot_remote (peer_slots host ! j)) = source_id p"
    using find_slot_Some [OF assms(4)] by (simp_all add: slot_matches_def)
  have "list_all2 slot_extends (peer_slots host) (peer_slots host')"
    using input_chunks_extends [OF cs _ peer_unpack_chunks [OF un assms(3)] assms(3)] assms(2) by simp
  then have "length (peer_slots host') = length (peer_slots host)"
    "endpoint_id (slot_remote (peer_slots host' ! j)) = source_id p"
    using j by (auto simp: list_all2_conv_all_nth slot_extends_def)
  moreover have "peer_slots host' ! k = peer_slots host ! k" if "k \<noteq> j" for k
    using input_chunks_other [OF cs _ that] assms(2) by simp
  ultimately show ?thesis using assms(5,6) unfolding up_slots_def by metis
qed (use assms(6) in simp)

lemma input_packet_up:
  assumes "input_packet True p (s, host) = Some (s', host')" and "peer_wf host" and "peer_mode host = PEER_HOST"
    and "host_order host" and "alloc_ok (peer_alloc host)" and "length (packet_data p) = 400" and "source_id p \<noteq> - 1"
    and "source_id p = c \<longrightarrow> up_packet D p" and "up_slots D c host"
  shows "up_slots D c host'"
proof (cases "find_slot (slot_matches p) 0 (peer_slots host)")
  case None
  then have "host' = host \<or> assign_slot p (s, host) = (s', host')"
    using assms(1) by (auto simp: input_packet_def split: if_splits)
  then show ?thesis using assign_slot_up [OF _ assms(2,9)] assms(9) by blast
next
  case (Some j)
  then have route: "route (source_id p) (destination_id p) host = Some j" by (simp add: route_def slot_matches_def [abs_def])
  show ?thesis
  proof (cases "source_id p = c")
    case True
    then show ?thesis using input_packet_own [OF assms(1,3-5,7) route] assms(8,9) by simp
  next
    case False
    then show ?thesis by (rule input_packet_other [OF assms(1,3,6) Some _ assms(9)])
  qed
qed

lemma peer_input_up:
  assumes "peer_input True (Some host) packets = Some (st, Some host')" and "peer_wf host" and "peer_mode host = PEER_HOST"
    and "host_order host" and "alloc_ok (peer_alloc host)"
    and "\<forall>p \<in> set packets. length (packet_data p) = 400 \<and> source_id p \<noteq> - 1"
    and "\<forall>p \<in> set packets. source_id p = c \<longrightarrow> up_packet D p" and "up_slots D c host"
  shows "up_slots D c host'"
proof -
  have "up_slots D c p'" if "input_packets True packets (s, p) = Some (s', p')" "peer_wf p" "peer_mode p = PEER_HOST"
    "host_order p" "alloc_ok (peer_alloc p)" "up_slots D c p" for s s' and p p' :: "'a peer_t"
    using that assms(6,7)
  proof (induction packets arbitrary: s p)
    case (Cons q qs)
    obtain s1 p1 where one: "input_packet True q (s, p) = Some (s1, p1)" and rest: "input_packets True qs (s1, p1) = Some (s', p')"
      using Cons.prems(1) by (auto dest!: bind_eq_SomeD)
    have q: "length (packet_data q) = 400" "source_id q \<noteq> - 1" "source_id q = c \<longrightarrow> up_packet D q"
      using Cons.prems(7,8) by auto
    have "up_slots D c p1" by (rule input_packet_up [OF one Cons.prems(2-5) q Cons.prems(6)])
    moreover have "peer_wf p1" by (rule input_packet_wf [OF Cons.prems(2) one q(1,2)])
    moreover have "peer_mode p1 = PEER_HOST" using input_packet_same [OF one Cons.prems(3)] Cons.prems(3) by (simp add: same_queue_def)
    moreover have "host_order p1" by (rule input_packet_order [OF one Cons.prems(2-4) q(1)])
    moreover have "alloc_ok (peer_alloc p1)" by (rule input_packet_alloc [OF one q(1) Cons.prems(5)])
    ultimately show ?case using Cons.IH [OF rest] Cons.prems(7,8) by simp
  qed simp
  then show ?thesis
    using assms(1-5,8) by (auto simp: peer_input_def with_peer_def peer_input_body_def dest!: bind_eq_SomeD)
qed

lemma up_slots_same:
  assumes "up_slots D c host" and "length (peer_slots host') = length (peer_slots host)"
    and "\<And>j. 1 \<le> j \<Longrightarrow> j < length (peer_slots host) \<Longrightarrow> slot_queue (peer_slots host' ! j) = slot_queue (peer_slots host ! j) \<and>
      endpoint_id (slot_remote (peer_slots host' ! j)) = endpoint_id (slot_remote (peer_slots host ! j))"
  shows "up_slots D c host'"
  using assms unfolding up_slots_def by metis

lemma peer_open_up:
  assumes "peer_open nd (Some p) (ids_ref ids) = Some (st, Some p')" and "up_slots D c p"
  shows "up_slots D c p'"
proof -
  have "\<exists>new. peer_slots p' = peer_slots p @ new \<and> (\<forall>slot \<in> set new. slot_queue slot = [])"
  proof (cases "peer_slots p' = peer_slots p")
    case False
    then have "peer_slots p' = peer_slots p @ new_slots (peer_mode p) ids"
      using assms(1)
      by (auto simp: peer_open_def with_peer_def peer_open_body_eq split: if_splits prod.splits option.splits dest!: bind_eq_SomeD)
    then show ?thesis by (auto simp: new_slots_def open_slot_def zero_slot_def)
  qed simp
  then obtain new where new: "peer_slots p' = peer_slots p @ new" "\<forall>slot \<in> set new. slot_queue slot = []" by blast
  have "up_queue D (slot_queue (peer_slots p' ! j))"
    if j: "1 \<le> j" "j < length (peer_slots p')" "endpoint_id (slot_remote (peer_slots p' ! j)) = c" for j
  proof (cases "j < length (peer_slots p)")
    case True
    then show ?thesis using assms(2) j by (simp add: new(1) nth_append up_slots_def)
  next
    case False
    then have "new ! (j - length (peer_slots p)) \<in> set new" using j(2) by (simp add: new(1))
    then show ?thesis using False new(2) by (simp add: new(1) nth_append)
  qed
  then show ?thesis by (simp add: up_slots_def)
qed

lemma peer_queue_up:
  assumes "peer_queue nd (Some p) (chunk_ref d) = Some (st, Some p')" and "peer_mode p = PEER_HOST" and "up_slots D c p"
  shows "up_slots D c p'"
  using assms by (auto simp: peer_queue_def with_peer_def peer_queue_body_eq up_slots_def dest!: bind_eq_SomeD)

lemma peer_tick_up:
  assumes "peer_wf host" and "peer_mode host = PEER_HOST" and "alloc_ok (peer_alloc host)"
    and "peer_tick M True (Some host) dt = Some (result, Some host')" and "int (length (mutual_queue host')) \<le> INT64_MAX"
    and "up_slots D c host"
  shows "up_slots D c host'"
proof (cases "dt < 0 \<or> peer_time_local host > INT64_MAX - dt")
  case True
  then show ?thesis using assms(4,6) by (auto simp: peer_tick_def peer_tick_body_def split: if_splits)
next
  case False
  then have dt: "0 \<le> dt" "dt \<le> INT64_MAX - peer_time_local host" by auto
  note tick = peer_tick_slots [OF assms(1-5) dt]
  show ?thesis
  proof (rule up_slots_same [OF assms(6) tick(3)])
    fix j assume j: "1 \<le> j" "j < length (peer_slots host)"
    have "slot_sent (mutual_queue host') (peer_slots (ticked_host dt host) ! j) (peer_slots host' ! j)" using tick(4) j by blast
    then show "slot_queue (peer_slots host' ! j) = slot_queue (peer_slots host ! j) \<and>
        endpoint_id (slot_remote (peer_slots host' ! j)) = endpoint_id (slot_remote (peer_slots host ! j))"
      using ticked_slot_queue(1) [OF j] ticked_slot(4) [OF j(2)] by (auto simp: slot_sent_def)
  qed
qed

subsection \<open>Published times\<close>

text \<open>A message is published with the time of the tick, which is not 0 unless the host ticks at time 0.\<close>

definition log_timed :: "'r peer_t \<Rightarrow> bool" where
  "log_timed host \<longleftrightarrow> (\<forall>i t a d. host_log host i = Some (t, a, d) \<longrightarrow> t \<noteq> 0)"

lemma log_timed_same:
  "mutual_queue host' = mutual_queue host \<Longrightarrow> queue_index host' = queue_index host \<Longrightarrow> log_timed host' = log_timed host"
  by (simp add: log_timed_def host_log_def)

lemma host_queue_times:
  assumes "0 \<le> queue_index host" and "queue_index host \<le> int (length (mutual_queue host))"
    and "m \<in> set (drop (nat (queue_index host)) (host_queue t host))"
  shows "message_time m = t"
  using assms by (auto simp: host_queue_def collected_def dest: in_set_dropD)

lemma peer_tick_timed:
  assumes "peer_wf host" and "peer_mode host = PEER_HOST" and "alloc_ok (peer_alloc host)"
    and "peer_tick M True (Some host) dt = Some (result, Some host')" and "int (length (mutual_queue host')) \<le> INT64_MAX"
    and "0 < peer_time_local host'" and "log_timed host"
  shows "log_timed host'"
proof (cases "dt < 0 \<or> peer_time_local host > INT64_MAX - dt")
  case True
  then show ?thesis using assms(4,7) by (auto simp: peer_tick_def peer_tick_body_def split: if_splits)
next
  case False
  let ?t = "peer_time_local host + dt" and ?n = "nat (queue_index host)"
  have dt: "0 \<le> dt" "dt \<le> INT64_MAX - peer_time_local host" using False by auto
  note tick = peer_tick_slots [OF assms(1-5) dt]
  have wf: "0 \<le> queue_index host" "queue_index host \<le> int (length (mutual_queue host))"
    "list_all is_ready (mutual_queue host)"
    using assms(1,2) by (auto simp: peer_wf_def queue_wf_def list_all_iff)
  show ?thesis unfolding log_timed_def
  proof (intro allI impI)
    fix i t a d assume "host_log host' i = Some (t, a, d)"
    then have i: "i < length (mutual_queue host')" "message_entry (mutual_queue host' ! i) = (t, a, d)"
      by (auto simp: host_log_def queue_get_def split: if_splits)
    show "t \<noteq> 0"
    proof (cases "i < ?n")
      case True
      then have "mutual_queue host' ! i = mutual_queue host ! i" "i < length (mutual_queue host)"
        using wf(1,2) by (auto simp: tick(1) host_queue_def nth_append)
      then have "host_log host i = Some (t, a, d)"
        using True i(2) wf by (simp add: host_log_def queue_get_def list_all_length)
      then show ?thesis using assms(7) unfolding log_timed_def by blast
    next
      case False
      then have "mutual_queue host' ! i = drop ?n (mutual_queue host') ! (i - ?n)" "i - ?n < length (drop ?n (mutual_queue host'))"
        using i(1) by simp_all
      then have "mutual_queue host' ! i \<in> set (drop ?n (mutual_queue host'))" by (metis nth_mem)
      then have "message_time (mutual_queue host' ! i) = ?t" unfolding tick(1) by (rule host_queue_times [OF wf(1,2)])
      then show ?thesis using i(2) assms(6) tick(6) by (auto simp: message_entry_def)
    qed
  qed
qed

lemma peer_queue_timed:
  assumes "peer_wf host" and "peer_mode host = PEER_HOST"
    and "peer_queue nd (Some host) (chunk_ref d) = Some (st, Some host')" and "log_timed host"
  shows "log_timed host'"
proof -
  obtain s q al where app: "queue_append (mutual_queue host) 0 (peer_actor host) (chunk_ref d) (peer_alloc host) =
      Some (s, q, al)" and host': "host' = host\<lparr>mutual_queue := q, peer_alloc := al\<rparr>"
    using assms(2,3) by (auto simp: peer_queue_def with_peer_def peer_queue_body_eq dest!: bind_eq_SomeD)
  have "queue_index host \<le> int (length (mutual_queue host))" using assms(1) by (simp add: peer_wf_def)
  then have "host_log host' i = host_log host i" for i
    using queue_append_Some [OF app] by (auto simp: host' host_log_def queue_get_def nth_append)
  then show ?thesis using assms(4) by (simp add: log_timed_def)
qed

text \<open>The client's copy: messages with a time, and gaps.\<close>

definition queue_timed :: "peer_queue_t \<Rightarrow> bool" where
  "queue_timed q \<longleftrightarrow> (\<forall>m \<in> set q. message_time m \<noteq> 0 \<or> message_actor m = 0)"

lemma queue_put_timed:
  assumes "queue_timed q" and "t \<noteq> 0"
  shows "queue_timed (queue_put q i (t, a, d))"
proof -
  have "set (queue_put q i (t, a, d)) \<subseteq> insert (ready_message (t, a, d)) (set (q @ replicate (Suc i - length q) zero_message))"
    unfolding queue_put_def
    by (cases "i < length q \<and> is_ready (q ! i)") (auto simp del: set_append dest: subsetD [OF set_update_subset_insert])
  then show ?thesis using assms by (auto simp: queue_timed_def zero_message_def split: if_splits)
qed

lemma queue_puts_timed:
  assumes "queue_timed q" and "\<forall>(i, e) \<in> set es. host_log host i = Some e" and "log_timed host"
  shows "queue_timed (queue_log.puts q es)"
  using assms
proof (induction es arbitrary: q)
  case (Cons ie es)
  obtain i t a d where ie: "ie = (i, t, a, d)" by (cases ie)
  then have "t \<noteq> 0" using Cons.prems(2,3) by (auto simp: log_timed_def)
  then show ?case using Cons.IH [of "queue_put q i (t, a, d)"] Cons.prems queue_put_timed by (simp add: ie)
qed simp

lemma session_step_timed:
  assumes "session_step M s s'" and "session_inv s" and "log_timed (sess_host s)" and "queue_timed (mutual_queue (sess_client s))"
  shows "queue_timed (mutual_queue (sess_client s'))"
proof -
  have mode: "peer_mode ((sess_client s)\<lparr>peer_alloc := al\<rparr>) = PEER_CLIENT" for al
    using assms(2) by (simp add: session_inv_def)
  from assms(1) show ?thesis
  proof cases
    case (step_client_input al packets st client')
    then obtain es where "mutual_queue client' = queue_log.puts (mutual_queue (sess_client s)) es"
      "\<forall>(i, e) \<in> set es. host_log (sess_host s) i = Some e"
      using client_input_queue [OF assms(2)] by blast
    then show ?thesis using step_client_input(1) queue_puts_timed [OF assms(4) _ assms(3)] by simp
  next
    case (step_client_queue al d st client')
    then show ?thesis using peer_queue_client_queue [OF _ mode] assms(4) by simp
  next
    case (step_client_tick al dt result client')
    then show ?thesis using peer_tick_client_queue [OF _ mode] assms(4) by simp
  next
    case (step_client_open ids al st client')
    then show ?thesis using peer_open_same [OF step_client_open(3)] assms(4) by (simp add: same_queue_def)
  next
    case (step_client_connect al server_id st client')
    then show ?thesis using peer_connect_queue [OF step_client_connect(2)] assms(4) by simp
  qed (use assms(4) in simp_all)
qed

text \<open>So a client's packets carry its own messages, and messages the host does not take.\<close>

lemma client_tick_up:
  assumes "peer_wf client" and "peer_mode client = PEER_CLIENT" and "alloc_ok (peer_alloc client)"
    and "peer_tick M True (Some client) dt = Some (result, Some client')"
    and "int (length (client_data client)) \<le> INT64_MAX" and "int (length (mutual_queue client)) \<le> INT64_MAX"
    and "queue_timed (mutual_queue client)" and "p \<in> set (tick_packets result)"
  shows "up_packet (client_data client) p"
proof (cases "peer_slots client")
  case Nil
  then show ?thesis
    using assms(2,4,8)
    by (auto simp: peer_tick_def peer_tick_body_def tick_clock_def client_send_def split: if_splits dest!: bind_eq_SomeD)
next
  case (Cons slot slots)
  have data: "client_data client = map message_data (slot_queue slot)" by (simp add: client_data_def Cons)
  then have "int (length (slot_queue slot)) \<le> INT64_MAX" using assms(5) by simp
  from client_tick_messages [OF assms(1-4) Cons this assms(6)]
  obtain ms where ms: "carries (endpoint_id (slot_local slot)) (endpoint_id (slot_remote slot)) ms (tick_packets result)"
    "if out_index slot < int (length (slot_queue slot)) then \<forall>m \<in> set ms. from_log (queue_get (slot_queue slot)) m
     else \<forall>m \<in> set ms. m = M_heartbeat 0 (peer_actor client) \<or>
       (\<exists>k < length (mutual_queue client). m = queue_message (mutual_queue client) k)" by blast
  have "up_message (client_data client) m" if m: "m \<in> set ms" for m
  proof (cases "from_log (queue_get (slot_queue slot)) m")
    case True
    then show ?thesis
      by (cases "([] :: byte list list, m)" rule: up_message.cases) (auto simp: data queue_get_def message_entry_def split: if_splits)
  next
    case False
    then have "m \<noteq> M_heartbeat 0 (peer_actor client)" by auto
    then obtain k where "k < length (mutual_queue client)" "m = queue_message (mutual_queue client) k"
      using ms(2) m False by (cases "out_index slot < int (length (slot_queue slot))") auto
    then show ?thesis
      using assms(7) by (auto simp: queue_message_def message_entry_def queue_timed_def)
  qed
  then show ?thesis
    using carries_packet [OF ms(1) assms(8)] unfolding up_packet_def by (metis subsetD wire_packet_ids)
qed

end
