(* ===== verification/Peer_Duplex.thy ===== *)
theory Peer_Duplex
  imports Peer_Upstream
begin

text \<open>
  A session in both directions. The step relation \<open>duplex_step\<close> adds to a session the packets the client sends: the
  network may lose, repeat and reorder them, other clients and strangers may send the host whatever they like under
  their own ids. The host takes a client's messages into the mutual queue in the order in which the client queued them,
  without a gap; and when the packets of a client arrive and none that it sent before was lost, all of its messages are published.
\<close>

subsection \<open>The steps\<close>

text \<open>
  A session and the packets its client has sent. The host knows the client by the id \<open>c\<close>: packets that come with
  this id have the content of packets the client has sent, however often and in whatever order; packets with other
  ids are arbitrary. The address layer does not move a client's id to another slot. The steps of the client are those
  of a session; the packets of a tick of the client reach the network, or they are lost at once. The clock of the host
  is past 0 after each of its ticks: what is published at time 0 looks like a message that is yet to be published.
\<close>

inductive duplex_step ::
  "'r mt64_ops \<Rightarrow> ptrdiff_t \<Rightarrow> 'r session \<times> peer_packet_t set \<Rightarrow> 'r session \<times> peer_packet_t set \<Rightarrow> bool" for M c where
  dx_host_queue: "alloc_ok al \<Longrightarrow> length d \<le> 355 \<Longrightarrow>
    peer_queue True (Some ((sess_host s)\<lparr>peer_alloc := al\<rparr>)) (chunk_ref d) = Some (st, Some host') \<Longrightarrow>
    duplex_step M c (s, up) (s\<lparr>sess_host := host'\<rparr>, up)"
| dx_host_input: "alloc_ok al \<Longrightarrow> \<forall>p \<in> set packets. length (packet_data p) = 400 \<and> source_id p \<noteq> - 1 \<Longrightarrow>
    \<forall>p \<in> set packets. source_id p = c \<longrightarrow> (\<exists>q \<in> up. same_content p q) \<Longrightarrow>
    peer_input True (Some ((sess_host s)\<lparr>peer_alloc := al\<rparr>)) packets = Some (st, Some host') \<Longrightarrow>
    duplex_step M c (s, up) (s\<lparr>sess_host := host'\<rparr>, up)"
| dx_host_tick: "alloc_ok al \<Longrightarrow>
    peer_tick M True (Some ((sess_host s)\<lparr>peer_alloc := al\<rparr>)) dt = Some (result, Some host') \<Longrightarrow>
    0 < peer_time_local host' \<Longrightarrow>
    int (length (mutual_queue host')) \<le> INT64_MAX \<Longrightarrow>
    duplex_step M c (s, up) (s\<lparr>sess_host := host', sess_net := sess_net s \<union> set (tick_packets result)\<rparr>, up)"
| dx_host_open: "int (length (peer_slots (sess_host s)) + length ids) \<le> 0xffffffff \<Longrightarrow>
    peer_open True (Some ((sess_host s)\<lparr>peer_alloc := al\<rparr>)) (ids_ref ids) = Some (st, Some host') \<Longrightarrow>
    duplex_step M c (s, up) (s\<lparr>sess_host := host'\<rparr>, up)"
| dx_host_resolve: "list_all2 slot_resolved (peer_slots (sess_host s)) slots \<Longrightarrow>
    map (\<lambda>slot. endpoint_id (slot_remote slot)) slots = map (\<lambda>slot. endpoint_id (slot_remote slot)) (peer_slots (sess_host s)) \<Longrightarrow>
    duplex_step M c (s, up) (s\<lparr>sess_host := (sess_host s)\<lparr>peer_slots := slots\<rparr>\<rparr>, up)"
| dx_client: "session_step M s (s\<lparr>sess_client := client'\<rparr>) \<Longrightarrow>
    duplex_step M c (s, up) (s\<lparr>sess_client := client'\<rparr>, up)"
| dx_client_tick: "alloc_ok al \<Longrightarrow>
    peer_tick M True (Some ((sess_client s)\<lparr>peer_alloc := al\<rparr>)) dt = Some (result, Some client') \<Longrightarrow>
    int (length (client_data (sess_client s))) \<le> INT64_MAX \<Longrightarrow>
    int (length (mutual_queue (sess_client s))) \<le> INT64_MAX \<Longrightarrow>
    duplex_step M c (s, up) (s\<lparr>sess_client := client'\<rparr>, up \<union> set (tick_packets result))"

text \<open>The host may have been running; what it has published has a time, and the client has sent it nothing yet.\<close>

definition duplex_start :: "ptrdiff_t \<Rightarrow> 'r session \<Rightarrow> bool" where
  "duplex_start c s \<longleftrightarrow> session_start s \<and> host_order (sess_host s) \<and> log_timed (sess_host s) \<and>
     (\<forall>slot \<in> set (peer_slots (sess_host s)). endpoint_id (slot_remote slot) = c \<longrightarrow> slot_queue slot = [])"

inductive duplex_reach ::
  "'r mt64_ops \<Rightarrow> ptrdiff_t \<Rightarrow> 'r session \<Rightarrow> 'r session \<times> peer_packet_t set \<Rightarrow> bool" for M c where
  dx_start: "duplex_start c s \<Longrightarrow> duplex_reach M c s (s, {})"
| dx_step: "duplex_reach M c s0 x \<Longrightarrow> duplex_step M c x x' \<Longrightarrow> duplex_reach M c s0 x'"

lemma duplex_session_step: "duplex_step M c (s, up) (s', up') \<Longrightarrow> session_step M s s'"
  by (erule duplex_step.cases) (auto intro: session_step.intros)

text \<open>So a duplex session is a session: its properties hold here too.\<close>

lemma duplex_session_reach:
  assumes "duplex_reach M c s0 x"
  shows "session_reach M s0 (fst x)"
  using assms
proof (induction rule: duplex_reach.induct)
  case (dx_start s)
  then show ?case by (simp add: duplex_start_def reach_start)
next
  case (dx_step s0 x x')
  then show ?case using duplex_session_step [of M c "fst x" "snd x" "fst x'" "snd x'"] by (simp add: reach_step)
qed

subsection \<open>The invariant of the upstream direction\<close>

definition duplex_inv :: "ptrdiff_t \<Rightarrow> 'r session \<times> peer_packet_t set \<Rightarrow> bool" where
  "duplex_inv c = (\<lambda>(s, up). session_inv s \<and> host_order (sess_host s) \<and> log_timed (sess_host s) \<and>
     queue_timed (mutual_queue (sess_client s)) \<and> (\<forall>p \<in> up. up_packet (client_data (sess_client s)) p) \<and>
     up_slots (client_data (sess_client s)) c (sess_host s))"

lemma alloc_irrelevant [simp]:
  "host_order (host\<lparr>peer_alloc := al\<rparr>) = host_order host"
  "up_slots D c (host\<lparr>peer_alloc := al\<rparr>) = up_slots D c host"
  "log_timed (host\<lparr>peer_alloc := al\<rparr>) = log_timed host"
  by (simp_all add: host_order_def up_slots_def log_timed_def)

text \<open>A step of the host leaves the client's side alone, a step of the client the host's.\<close>

lemma duplex_inv_host:
  assumes "duplex_inv c (s, up)" and "session_step M s s'" and "sess_client s' = sess_client s"
    and "host_order (sess_host s')" and "log_timed (sess_host s')" and "up_slots (client_data (sess_client s)) c (sess_host s')"
  shows "duplex_inv c (s', up)"
  using assms session_step_inv [OF assms(2)] by (simp add: duplex_inv_def)

lemma duplex_inv_client:
  assumes "duplex_inv c (s, up)" and "session_step M s s'" and "sess_host s' = sess_host s"
    and "\<forall>p \<in> new. up_packet (client_data (sess_client s)) p"
  shows "duplex_inv c (s', up \<union> new)"
proof -
  have inv: "session_inv s" "host_order (sess_host s)" "log_timed (sess_host s)" "queue_timed (mutual_queue (sess_client s))"
    "\<forall>p \<in> up. up_packet (client_data (sess_client s)) p" "up_slots (client_data (sess_client s)) c (sess_host s)"
    using assms(1) by (simp_all add: duplex_inv_def)
  have data: "prefix (client_data (sess_client s)) (client_data (sess_client s'))"
    by (rule session_step_data [OF assms(2) inv(1)])
  have "queue_timed (mutual_queue (sess_client s'))" by (rule session_step_timed [OF assms(2) inv(1,3,4)])
  moreover have "\<forall>p \<in> up \<union> new. up_packet (client_data (sess_client s')) p"
    using inv(5) assms(4) up_packet_mono [OF _ data] by blast
  moreover have "up_slots (client_data (sess_client s')) c (sess_host s)" by (rule up_slots_mono [OF inv(6) data])
  ultimately show ?thesis using inv session_step_inv [OF assms(2)] assms(3) by (simp add: duplex_inv_def)
qed

lemma host_resolve_upstream:
  assumes "list_all2 slot_resolved (peer_slots host) slots"
    and "map (\<lambda>slot. endpoint_id (slot_remote slot)) slots = map (\<lambda>slot. endpoint_id (slot_remote slot)) (peer_slots host)"
  shows "host_order host \<Longrightarrow> host_order (host\<lparr>peer_slots := slots\<rparr>)"
    and "up_slots D c host \<Longrightarrow> up_slots D c (host\<lparr>peer_slots := slots\<rparr>)"
proof -
  have len: "length slots = length (peer_slots host)" using assms(1) by (simp add: list_all2_lengthD)
  have ids: "endpoint_id (slot_remote (slots ! j)) = endpoint_id (slot_remote (peer_slots host ! j))" if "j < length slots" for j
    using arg_cong [OF assms(2), of "\<lambda>l. l ! j"] that len by simp
  have slot: "slot_queue (slots ! j) = slot_queue (peer_slots host ! j) \<and> in_index (slots ! j) = in_index (peer_slots host ! j) \<and>
      slot_actor (slots ! j) = slot_actor (peer_slots host ! j)" if "j < length slots" for j
    using list_all2_nthD2 [OF assms(1) that] by (auto simp: slot_resolved_def)
  then have "list_all2 slot_extends (peer_slots host) slots"
    using ids len by (simp add: list_all2_conv_all_nth slot_extends_def queue_extends_def)
  then show "host_order host \<Longrightarrow> host_order (host\<lparr>peer_slots := slots\<rparr>)"
    using host_order_slots [of host "host\<lparr>peer_slots := slots\<rparr>"] by simp
  show "up_slots D c host \<Longrightarrow> up_slots D c (host\<lparr>peer_slots := slots\<rparr>)"
    by (rule up_slots_same [of D c host]) (use slot ids len in auto)
qed

text \<open>What a step of the host keeps for the client with the data \<open>D\<close>.\<close>

definition host_upstream :: "byte list list \<Rightarrow> ptrdiff_t \<Rightarrow> 'r peer_t \<Rightarrow> bool" where
  "host_upstream D c host \<longleftrightarrow> host_order host \<and> log_timed host \<and> up_slots D c host"

lemma host_upstream_ops:
  assumes "peer_wf host" and "peer_mode host = PEER_HOST" and "host_upstream D c host"
  shows "peer_queue nd (Some host) (chunk_ref d) = Some (st, Some host') \<Longrightarrow> host_upstream D c host'"
    and "peer_open nd (Some host) (ids_ref ids) = Some (st, Some host') \<Longrightarrow> host_upstream D c host'"
    and "alloc_ok (peer_alloc host) \<Longrightarrow> peer_input True (Some host) packets = Some (st, Some host') \<Longrightarrow>
      \<forall>p \<in> set packets. length (packet_data p) = 400 \<and> source_id p \<noteq> - 1 \<Longrightarrow>
      \<forall>p \<in> set packets. source_id p = c \<longrightarrow> up_packet D p \<Longrightarrow> host_upstream D c host'"
    and "alloc_ok (peer_alloc host) \<Longrightarrow> peer_tick M True (Some host) dt = Some (result, Some host') \<Longrightarrow>
      0 < peer_time_local host' \<Longrightarrow> int (length (mutual_queue host')) \<le> INT64_MAX \<Longrightarrow> host_upstream D c host'"
proof -
  have inv: "host_order host" "log_timed host" "up_slots D c host" using assms(3) by (simp_all add: host_upstream_def)
  have same: "log_timed host'" if "same_queue host host'"
    using that inv(2) log_timed_same [of host' host] by (simp add: same_queue_def)
  show "host_upstream D c host'" if "peer_queue nd (Some host) (chunk_ref d) = Some (st, Some host')"
    using peer_queue_order [OF that assms(1,2) inv(1)] peer_queue_timed [OF assms(1,2) that inv(2)]
      peer_queue_up [OF that assms(2) inv(3)] by (simp add: host_upstream_def)
  show "host_upstream D c host'" if "peer_open nd (Some host) (ids_ref ids) = Some (st, Some host')"
    using peer_open_order [OF that inv(1)] same [OF peer_open_same [OF that]] peer_open_up [OF that inv(3)]
    by (simp add: host_upstream_def)
  show "host_upstream D c host'" if "alloc_ok (peer_alloc host)" "peer_input True (Some host) packets = Some (st, Some host')"
    "\<forall>p \<in> set packets. length (packet_data p) = 400 \<and> source_id p \<noteq> - 1"
    "\<forall>p \<in> set packets. source_id p = c \<longrightarrow> up_packet D p"
    using peer_input_order [OF that(2) assms(1,2) inv(1) that(3)] same [OF peer_input_same [OF that(2) assms(2)]]
      peer_input_up [OF that(2) assms(1,2) inv(1) that(1,3,4) inv(3)] by (simp add: host_upstream_def)
  show "host_upstream D c host'" if "alloc_ok (peer_alloc host)"
    "peer_tick M True (Some host) dt = Some (result, Some host')" "0 < peer_time_local host'" "int (length (mutual_queue host')) \<le> INT64_MAX"
    using peer_tick_order [OF inv(1) assms(1,2) that(1,2,4)] peer_tick_timed [OF assms(1,2) that(1,2,4,3) inv(2)]
      peer_tick_up [OF assms(1,2) that(1,2,4) inv(3)] by (simp add: host_upstream_def)
qed

lemma duplex_step_inv:
  assumes "duplex_step M c x x'" and "duplex_inv c x"
  shows "duplex_inv c x'"
proof -
  have step: "session_step M (fst x) (fst x')" using assms(1) duplex_session_step by (metis prod.collapse)
  obtain s up where x: "x = (s, up)" by (cases x)
  let ?D = "client_data (sess_client s)"
  have inv: "session_inv s" "queue_timed (mutual_queue (sess_client s))" "\<forall>p \<in> up. up_packet ?D p" "host_upstream ?D c (sess_host s)"
    using assms(2) by (simp_all add: duplex_inv_def x host_upstream_def)
  have host: "peer_wf ((sess_host s)\<lparr>peer_alloc := al\<rparr>)" "peer_mode ((sess_host s)\<lparr>peer_alloc := al\<rparr>) = PEER_HOST"
    "host_upstream ?D c ((sess_host s)\<lparr>peer_alloc := al\<rparr>)"
    and client: "peer_wf ((sess_client s)\<lparr>peer_alloc := al\<rparr>)" "peer_mode ((sess_client s)\<lparr>peer_alloc := al\<rparr>) = PEER_CLIENT" for al
    using inv by (simp_all add: session_inv_def host_upstream_def)
  note hostI = duplex_inv_host [OF assms(2) [unfolded x] step [unfolded x fst_conv], folded host_upstream_def]
    and clientI = duplex_inv_client [OF assms(2) [unfolded x] step [unfolded x fst_conv]]
    and ops = host_upstream_ops [OF host]
  from assms(1) show ?thesis unfolding x
  proof cases
    case (dx_host_queue al d st host')
    then show ?thesis using hostI ops(1) by (simp add: host_upstream_def)
  next
    case (dx_host_input al packets st host')
    have "\<forall>p \<in> set packets. source_id p = c \<longrightarrow> up_packet ?D p" using dx_host_input(4) inv(3) up_packet_content by blast
    then show ?thesis using hostI ops(3) [OF _ dx_host_input(5,3)] dx_host_input(1,2) by (simp add: host_upstream_def)
  next
    case (dx_host_tick al dt result host')
    then show ?thesis using hostI ops(4) [OF _ dx_host_tick(3-5)] by (simp add: host_upstream_def)
  next
    case (dx_host_open ids al st host')
    then show ?thesis using hostI ops(2) by (simp add: host_upstream_def)
  next
    case (dx_host_resolve slots)
    have "log_timed ((sess_host s)\<lparr>peer_slots := slots\<rparr>)"
      using log_timed_same [of "(sess_host s)\<lparr>peer_slots := slots\<rparr>" "sess_host s"] inv(4) by (simp add: host_upstream_def)
    then show ?thesis
      using hostI host_resolve_upstream [OF dx_host_resolve(2,3)] inv(4) by (simp add: dx_host_resolve(1) host_upstream_def)
  next
    case (dx_client client')
    then show ?thesis using clientI [of "{}"] by simp
  next
    case (dx_client_tick al dt result client')
    have "\<forall>p \<in> set (tick_packets result). up_packet ?D p"
      using client_tick_up [OF client _ dx_client_tick(3)] dx_client_tick(2,4,5) inv(2) by simp
    then show ?thesis using clientI by (simp add: dx_client_tick(1))
  qed
qed

lemma duplex_reach_inv:
  assumes "duplex_reach M c s0 x"
  shows "duplex_inv c x"
  using assms
proof (induction rule: duplex_reach.induct)
  case (dx_start s)
  then show ?case
    by (auto simp: duplex_start_def duplex_inv_def session_start_inv up_slots_def)
      (simp_all add: session_start_def queue_timed_def)
qed (rule duplex_step_inv)

text \<open>What the host has taken of a client's messages is the beginning of what the client has queued.\<close>

lemma queue_data_prefix:
  assumes "up_queue D q" and "\<forall>i < n. queue_get q i \<noteq> None"
  shows "queue_data q n = take n D \<and> n \<le> length D"
proof -
  have one: "i < length D \<and> entry_data (queue_get q i) = D ! i" if i: "i < n" for i
  proof -
    obtain t a d where "queue_get q i = Some (t, a, d)" using assms(2) i by (metis not_None_eq prod_cases3)
    then show ?thesis using assms(1) by (auto simp: up_queue_def entry_data_def)
  qed
  have "n \<le> length D" using one [of "n - 1"] by (cases n) auto
  then show ?thesis using one by (auto simp: queue_data_def list_eq_iff_nth_eq)
qed

lemma duplex_inv_prefix:
  assumes "duplex_inv c (s, up)" and "1 \<le> j" and "j < length (peer_slots (sess_host s))"
    and "endpoint_id (slot_remote (peer_slots (sess_host s) ! j)) = c"
  shows "prefix (actor_data (int j) (mutual_queue (sess_host s))) (client_data (sess_client s))"
proof -
  let ?slot = "peer_slots (sess_host s) ! j"
  have inv: "host_order (sess_host s)" "up_slots (client_data (sess_client s)) c (sess_host s)"
    using assms(1) by (simp_all add: duplex_inv_def)
  have order: "slot_order (mutual_queue (sess_host s)) j ?slot" using inv(1) assms(2,3) by (simp add: host_order_def)
  have "up_queue (client_data (sess_client s)) (slot_queue ?slot)" using inv(2) assms(2-4) by (simp add: up_slots_def)
  then have "actor_data (int j) (mutual_queue (sess_host s)) = take (nat (in_index ?slot)) (client_data (sess_client s))"
    using order queue_data_prefix by (simp add: slot_order_def)
  then show ?thesis by (simp add: take_is_prefix)
qed

subsection \<open>A client's tick through the network\<close>

lemma collects_all:
  assumes "\<forall>i < N. queue_get q i \<noteq> None"
  shows "N \<le> n + length (takeWhile is_ready (drop n q))"
proof (rule ccontr)
  let ?c = "takeWhile is_ready (drop n q)"
  assume "\<not> N \<le> n + length ?c"
  then have "queue_get q (n + length ?c) \<noteq> None" using assms by simp
  then have ready: "n + length ?c < length q" "is_ready (q ! (n + length ?c))" by (auto simp: queue_get_def split: if_splits)
  then have "length ?c < length (drop n q)" by simp
  then have "\<not> is_ready (drop n q ! length ?c)" by (rule nth_length_takeWhile)
  then show False using ready by simp
qed

text \<open>A host that has every message of a client takes them all with its next tick.\<close>

lemma host_queue_takes_all:
  assumes "host_order host" and "peer_wf host" and "peer_mode host = PEER_HOST" and "1 \<le> j" and "j < length (peer_slots host)"
    and "up_queue D (slot_queue (peer_slots host ! j))" and "\<forall>i < length D. queue_get (slot_queue (peer_slots host ! j)) i \<noteq> None"
  shows "actor_data (int j) (host_queue t host) = D"
proof -
  let ?s = "peer_slots host ! j" and ?s' = "peer_slots (ticked_host 0 host) ! j"
  have order: "slot_order (host_queue t host) j ?s'" by (rule ticked_order [OF assms(1-5)])
  have "0 \<le> in_index ?s" using assms(2,3,5) by (simp add: peer_wf_def list_all_length mode_slot_wf_def slot_wf_def)
  then have "length D \<le> nat (in_index ?s')"
    using ticked_slot_queue(2) [OF assms(4,5), of 0] collects_all [OF assms(7), of "nat (in_index ?s)"]
    by (simp add: nat_add_distrib)
  moreover have "actor_data (int j) (host_queue t host) = take (nat (in_index ?s')) D"
    using order queue_data_prefix [OF assms(6), of "nat (in_index ?s')"] ticked_slot_queue(1) [OF assms(4,5), of 0]
    by (simp add: slot_order_def)
  ultimately show ?thesis by simp
qed

lemma wire_packet_address: "(wire_packet src dst ms)\<lparr>source_id := a, destination_id := b\<rparr> = wire_packet a b ms"
  by (simp add: wire_packet_def closed_packet_def)

text \<open>A delivery of packets to a host under the ids it knows: each at least once, in any order.\<close>

lemma deliver_upstream:
  assumes "packets = map (wire_packet a b) mss" and "list_all packet_ok mss" and "set js = {..<length packets}"
    and "peer_mode host = PEER_HOST" and "alloc_ok (peer_alloc host)" and "route src dst host = Some j"
    and "\<forall>m \<in> set (concat mss). host_accepts False (slot_actor (peer_slots host ! j)) m"
  shows "\<exists>ms al. set ms = set (concat mss) \<and> alloc_ok al \<and>
    peer_input nd (Some host) (map (\<lambda>i. (packets ! i)\<lparr>source_id := src, destination_id := dst\<rparr>) js) =
      Some (KIT_OK, Some (host\<lparr>peer_alloc := al, peer_slots := (peer_slots host)[j := (peer_slots host ! j)
        \<lparr>slot_queue := queue_log.puts (slot_queue (peer_slots host ! j)) (app_entries ms)\<rparr>]\<rparr>))"
proof -
  let ?mss = "map (\<lambda>i. mss ! i) js"
  have js: "set js = {..<length mss}" using assms(1,3) by simp
  have set_mss: "set ?mss = set mss" by (rule set_nths [OF js])
  then have set_ms: "set (concat ?mss) = set (concat mss)" unfolding set_concat by (rule arg_cong)
  have packets: "map (\<lambda>i. (packets ! i)\<lparr>source_id := src, destination_id := dst\<rparr>) js = map (wire_packet src dst) ?mss"
    using js by (auto simp: assms(1) wire_packet_address)
  have ok: "\<forall>ms \<in> set ?mss. packet_ok ms" using assms(2) unfolding set_mss by (simp add: list_all_iff)
  have acc: "\<forall>m \<in> set (concat ?mss). host_accepts False (slot_actor (peer_slots host ! j)) m" using assms(7) unfolding set_ms .
  then have "\<forall>m \<in> set (concat ?mss). host_accepts nd (slot_actor (peer_slots host ! j)) m" by (simp add: host_accepts_def)
  from input_packets_host [OF ok assms(4-6) this, of KIT_OK] obtain al where al: "alloc_ok al"
    "input_packets nd (map (wire_packet src dst) ?mss) (KIT_OK, host) =
      Some (host_receives j (concat ?mss) (KIT_OK, host\<lparr>peer_alloc := al\<rparr>))" by blast
  have "host_receives j (concat ?mss) (KIT_OK, host\<lparr>peer_alloc := al\<rparr>) = (KIT_OK, host\<lparr>peer_alloc := al,
      peer_slots := (peer_slots host)[j := (peer_slots host ! j)
        \<lparr>slot_queue := queue_log.puts (slot_queue (peer_slots host ! j)) (app_entries (concat ?mss))\<rparr>]\<rparr>)"
    using host_receives_queue [of j "host\<lparr>peer_alloc := al\<rparr>" "concat ?mss" KIT_OK] acc route_Some(1) [OF assms(6)] by simp
  then have "peer_input nd (Some host) (map (wire_packet src dst) ?mss) =
      Some (KIT_OK, Some (host\<lparr>peer_alloc := al, peer_slots := (peer_slots host)[j := (peer_slots host ! j)
        \<lparr>slot_queue := queue_log.puts (slot_queue (peer_slots host ! j)) (app_entries (concat ?mss))\<rparr>]\<rparr>))"
    using al(2) by (simp add: peer_input_def with_peer_def peer_input_body_def)
  then show ?thesis using set_ms al(1) unfolding packets by blast
qed

text \<open>The number of messages a host holds, an upper bound of what it publishes.\<close>

definition slots_size :: "'r peer_t \<Rightarrow> nat" where
  "slots_size host = sum_list (map (\<lambda>slot. length (slot_queue slot)) (peer_slots host))"

lemma host_queue_length: "length (host_queue t host) \<le> length (mutual_queue host) + slots_size host"
proof -
  have one: "length (collected t slot) \<le> length (slot_queue slot)" for slot
    using length_takeWhile_le [of is_ready "drop (nat (in_index slot)) (slot_queue slot)"] by (simp add: collected_def)
  let ?f = "\<lambda>slot. length (collected t slot)" and ?g = "\<lambda>slot. length (slot_queue slot)" and ?slots = "drop 1 (peer_slots host)"
  have "sum_list (map ?f ?slots) \<le> sum_list (map ?g ?slots)" by (rule sum_list_mono) (rule one)
  moreover have "sum_list (map ?g ?slots) \<le> slots_size host"
    by (cases "peer_slots host") (simp_all add: slots_size_def)
  moreover have "length (host_queue t host) = length (mutual_queue host) + sum_list (map ?f ?slots)"
    by (simp add: host_queue_def length_concat o_def)
  ultimately show ?thesis by linarith
qed

lemma slots_size_update:
  assumes "j < length (peer_slots host)"
  shows "slots_size (host\<lparr>peer_slots := (peer_slots host)[j := slot]\<rparr>) + length (slot_queue (peer_slots host ! j)) =
    slots_size host + length (slot_queue slot)"
proof -
  have "length (slot_queue (peer_slots host ! j)) \<le> slots_size host"
    unfolding slots_size_def using assms by (intro member_le_sum_list) auto
  then show ?thesis using assms by (simp add: slots_size_def map_update sum_list_update)
qed

text \<open>A slot's queue with the messages of a client's queue stored in it.\<close>

lemma puts_upstream:
  assumes "up_queue (map message_data sq) q" and "\<forall>m \<in> set ms. \<exists>i < length sq. m = queue_message sq i"
    and "\<forall>i < length sq. queue_get q i \<noteq> None \<or> queue_message sq i \<in> set ms"
  shows "up_queue (map message_data sq) (queue_log.puts q (app_entries ms))"
    and "\<forall>i < length sq. queue_get (queue_log.puts q (app_entries ms)) i \<noteq> None"
    and "length (queue_log.puts q (app_entries ms)) \<le> length q + length sq"
proof -
  have entry: "i < length sq \<and> d = message_data (sq ! i)" if in_ms: "(i, t, a, d) \<in> set (app_entries ms)" for i t a d
  proof -
    obtain m where m: "m \<in> set ms" "(i, t, a, d) \<in> set (app_entry m)" using in_ms by (auto simp: app_entries_def)
    then obtain k where "k < length sq" "m = queue_message sq k" using assms(2) by blast
    then show ?thesis using m(2) by (simp add: queue_message_def message_entry_def)
  qed
  show "up_queue (map message_data sq) (queue_log.puts q (app_entries ms))"
    unfolding up_queue_def
  proof (intro allI impI)
    fix i t a d assume get: "queue_get (queue_log.puts q (app_entries ms)) i = Some (t, a, d)"
    show "i < length (map message_data sq) \<and> map message_data sq ! i = d"
    proof (cases "queue_get q i")
      case None
      then have "(i, t, a, d) \<in> set (app_entries ms)" using get by (simp add: queue_log.get_puts map_of_SomeD)
      then show ?thesis using entry by simp
    next
      case (Some e)
      then have "queue_get q i = Some (t, a, d)" using get by (simp add: queue_log.get_puts)
      then show ?thesis using assms(1) unfolding up_queue_def by blast
    qed
  qed
  show "\<forall>i < length sq. queue_get (queue_log.puts q (app_entries ms)) i \<noteq> None"
  proof (intro allI impI)
    fix i assume "i < length sq"
    then have "queue_get q i \<noteq> None \<or> map_of (app_entries ms) i \<noteq> None"
      using assms(3) app_entries_index unfolding queue_message_def map_of_eq_None_iff by blast
    then show "queue_get (queue_log.puts q (app_entries ms)) i \<noteq> None" by (auto simp: queue_log.get_puts split: option.split)
  qed
  have "i < length sq" if "i \<in> fst ` set (app_entries ms)" for i using that entry by force
  then have "Max (insert (length q) (Suc ` fst ` set (app_entries ms))) \<le> length q + length sq" by fastforce
  then show "length (queue_log.puts q (app_entries ms)) \<le> length q + length sq" by (simp only: queue_puts_length)
qed

text \<open>A host that has got everything a client has queued, \<open>n\<close> messages more than before at most.\<close>

definition host_has :: "'r peer_t \<Rightarrow> nat \<Rightarrow> byte list list \<Rightarrow> nat \<Rightarrow> 'r peer_t \<Rightarrow> bool" where
  "host_has host j D n host1 \<longleftrightarrow> alloc_ok (peer_alloc host1) \<and> peer_wf host1 \<and> peer_mode host1 = PEER_HOST \<and>
     peer_time_local host1 = peer_time_local host \<and> slot_ids host1 = slot_ids host \<and>
     length (mutual_queue host1) + slots_size host1 \<le> length (mutual_queue host) + slots_size host + n \<and>
     (\<forall>t. actor_data (int j) (host_queue t host1) = D)"

lemma host_has_alloc:
  "host_has host j D n host1 \<Longrightarrow> alloc_ok al \<Longrightarrow> host_has host j D n (host1\<lparr>peer_alloc := al\<rparr>)"
  by (simp add: host_has_def slots_size_def)

lemma deliver_client_queue:
  assumes "packets = map (wire_packet a b) mss" and "list_all packet_ok mss" and "set js = {..<length packets}"
    and "peer_wf host" and "peer_mode host = PEER_HOST" and "alloc_ok (peer_alloc host)" and "host_order host"
    and "route src dst host = Some j" and "1 \<le> j" and "src \<noteq> - 1"
    and "\<forall>m \<in> set (concat mss). host_accepts False (slot_actor (peer_slots host ! j)) m"
    and "\<forall>m \<in> set (concat mss). \<exists>i < length sq. m = queue_message sq i"
    and "\<forall>i < length sq. queue_get (slot_queue (peer_slots host ! j)) i \<noteq> None \<or> queue_message sq i \<in> set (concat mss)"
    and "up_queue (map message_data sq) (slot_queue (peer_slots host ! j))"
  shows "\<exists>host1. peer_input nd (Some host)
      (map (\<lambda>i. (packets ! i)\<lparr>source_id := src, destination_id := dst\<rparr>) js) = Some (KIT_OK, Some host1) \<and>
    host_has host j (map message_data sq) (length sq) host1"
proof -
  let ?hs = "peer_slots host ! j" and ?ps = "map (\<lambda>i. (packets ! i)\<lparr>source_id := src, destination_id := dst\<rparr>) js"
  have j: "j < length (peer_slots host)" using route_Some [OF assms(8)] by simp
  from deliver_upstream [OF assms(1-3,5,6,8,11), of nd]
  obtain ms al where ms: "set ms = set (concat mss)" and al: "alloc_ok al" and input: "peer_input nd (Some host) ?ps =
      Some (KIT_OK, Some (host\<lparr>peer_alloc := al, peer_slots := (peer_slots host)[j := ?hs
        \<lparr>slot_queue := queue_log.puts (slot_queue ?hs) (app_entries ms)\<rparr>]\<rparr>))" (is "_ = Some (_, Some ?h)")
    by blast
  have "length (packet_data (packets ! i)) = 400" if "i < length mss" for i
    using assms(2) that parcel_packet_data [of "(a, b, mss ! i)"] by (simp add: assms(1) parcel_ok_def list_all_length)
  then have ps: "\<forall>p \<in> set ?ps. length (packet_data p) = 400 \<and> source_id p \<noteq> - 1" using assms(3,10) by (auto simp: assms(1))
  have wf: "peer_wf ?h" by (rule api_wf(2) [OF assms(4) ps input])
  have order: "host_order ?h" by (rule peer_input_order [OF input assms(4,5,7) ps])
  note up = puts_upstream [OF assms(14) assms(12) [folded ms] assms(13) [folded ms]]
  have "actor_data (int j) (host_queue t ?h) = map message_data sq" for t
    by (rule host_queue_takes_all [OF order wf _ assms(9)]) (use j up in \<open>simp_all add: assms(5)\<close>)
  moreover have "slots_size ?h \<le> slots_size host + length sq"
    using slots_size_update [OF j, of "?hs\<lparr>slot_queue := queue_log.puts (slot_queue ?hs) (app_entries ms)\<rparr>"] up(3)
    by (simp add: slots_size_def)
  moreover have "slot_ids ?h = slot_ids host" using j by (simp add: slot_ids_def list_update_keeps(1))
  ultimately show ?thesis using input wf al assms(5) by (intro exI [of _ ?h]) (simp add: host_has_def)
qed

lemma client_tick_host:
  assumes "peer_wf client" and "peer_mode client = PEER_CLIENT" and "alloc_ok (peer_alloc client)"
    and "0 \<le> dt" and "dt \<le> INT64_MAX - peer_time_local client" and "peer_slots client = slot # slots"
    and "out_index slot < int (length (slot_queue slot))" and "int (length (slot_queue slot)) \<le> INT64_MAX"
    and "\<forall>m \<in> set (slot_queue slot). message_time m = 0 \<and> message_actor m = int j"
    and "peer_wf host" and "peer_mode host = PEER_HOST" and "alloc_ok (peer_alloc host)" and "host_order host"
    and "route src dst host = Some j" and "1 \<le> j" and "src \<noteq> - 1"
    and "up_queue (client_data client) (slot_queue (peer_slots host ! j))"
    and "\<forall>i. int i < out_index slot \<longrightarrow> queue_get (slot_queue (peer_slots host ! j)) i \<noteq> None"
  shows "\<exists>result client'. peer_tick M True (Some client) dt = Some (result, Some client') \<and>
    (\<forall>js. set js = {..<length (tick_packets result)} \<longrightarrow>
      (\<exists>host1. peer_input nd (Some host)
          (map (\<lambda>i. (tick_packets result ! i)\<lparr>source_id := src, destination_id := dst\<rparr>) js) = Some (KIT_OK, Some host1) \<and>
        host_has host j (client_data client) (length (slot_queue slot)) host1))"
proof -
  let ?sq = "slot_queue slot" and ?hs = "peer_slots host ! j"
  obtain result client' ms where run: "peer_tick M True (Some client) dt = Some (result, Some client')"
    and carries: "carries (endpoint_id (slot_local slot)) (endpoint_id (slot_remote slot)) ms (tick_packets result)"
    and own: "\<forall>m \<in> set ms. \<exists>i < length ?sq. m = queue_message ?sq i"
    and new: "\<forall>i. out_index slot \<le> int i \<and> i < length ?sq \<longrightarrow> M_application i (message_entry (?sq ! i)) \<in> set ms"
    using client_tick_new [OF assms(1-8), of M] by (elim exE conjE)
  obtain mss where mss: "tick_packets result = map (wire_packet (endpoint_id (slot_local slot)) (endpoint_id (slot_remote slot))) mss"
    "concat mss = ms" "list_all packet_ok mss"
    using carries unfolding carries_def by blast
  have j: "j < length (peer_slots host)" "endpoint_id (slot_remote ?hs) = src" using route_Some [OF assms(14)] by simp_all
  have "slot_actor ?hs = int j" using assms(13,15,16) j by (simp add: host_order_def slot_order_def slot_taken_def)
  moreover from this have "u32_actor (int j) = int j"
    using assms(10,11) j(1) by (auto simp: peer_wf_def list_all_length mode_slot_wf_def host_slot_wf_def)
  ultimately have acc: "\<forall>m \<in> set (concat mss). host_accepts False (slot_actor ?hs) m"
    using own assms(9) by (force simp: mss(2) host_accepts_def queue_message_def message_entry_def)
  have data: "client_data client = map message_data ?sq" by (simp add: client_data_def assms(6))
  have there: "\<forall>i < length ?sq. queue_get (slot_queue ?hs) i \<noteq> None \<or> queue_message ?sq i \<in> set (concat mss)"
    using new assms(18) unfolding mss(2) queue_message_def by (meson not_le)
  note deliver = deliver_client_queue [OF mss(1,3) _ assms(10-16) acc own [folded mss(2)] there assms(17) [unfolded data], of _ nd]
  show ?thesis using run deliver unfolding data by blast
qed

text \<open>The tick that publishes it.\<close>

lemma host_has_tick:
  assumes "host_has host j D n host1" and "0 \<le> dt" and "dt \<le> INT64_MAX - peer_time_local host"
    and "int (length (mutual_queue host) + slots_size host + n) \<le> INT64_MAX" and "1 \<le> j" and "j < length (peer_slots host)"
  shows "\<exists>r host2. peer_tick M True (Some host1) dt = Some (r, Some host2) \<and> tick_status r = KIT_OK \<and>
    actor_data (int j) (mutual_queue host2) = D \<and> int (length (mutual_queue host2)) \<le> INT64_MAX \<and>
    length (peer_slots host2) = length (peer_slots host) \<and>
    endpoint_id (slot_remote (peer_slots host2 ! j)) = endpoint_id (slot_remote (peer_slots host ! j)) \<and>
    peer_time_local host2 = peer_time_local host + dt"
proof -
  have h: "peer_wf host1" "peer_mode host1 = PEER_HOST" "alloc_ok (peer_alloc host1)" "peer_time_local host1 = peer_time_local host"
    "slot_ids host1 = slot_ids host" "\<forall>t. actor_data (int j) (host_queue t host1) = D"
    "length (mutual_queue host1) + slots_size host1 \<le> length (mutual_queue host) + slots_size host + n"
    using assms(1) by (simp_all add: host_has_def)
  have dt: "dt \<le> INT64_MAX - peer_time_local host1" using assms(3) h(4) by simp
  have len: "int (length (host_queue (peer_time_local host1 + dt) host1)) \<le> INT64_MAX"
    using host_queue_length [of "peer_time_local host1 + dt" host1] h(7) assms(4) by linarith
  obtain r host2 where tick: "peer_tick M True (Some host1) dt = Some (r, Some host2)" "tick_status r = KIT_OK"
    "mutual_queue host2 = host_queue (peer_time_local host1 + dt) host1"
    using peer_tick_host [OF h(1-3) assms(2) dt len, of M] by (auto simp: ticked_host_sel)
  have len2: "int (length (mutual_queue host2)) \<le> INT64_MAX" using tick(3) len by simp
  note slots = peer_tick_slots [OF h(1-3) tick(1) len2 assms(2) dt]
  have j: "j < length (peer_slots host1)" using slot_ids_length [OF h(5)] assms(6) by simp
  have "slot_sent (mutual_queue host2) (peer_slots (ticked_host dt host1) ! j) (peer_slots host2 ! j)"
    using slots(4) assms(5) j by blast
  then have "endpoint_id (slot_remote (peer_slots host2 ! j)) = endpoint_id (slot_remote (peer_slots host1 ! j))"
    using ticked_slot(4) [OF j] by (auto simp: slot_sent_def)
  also have "\<dots> = endpoint_id (slot_remote (peer_slots host ! j))"
    using arg_cong [OF h(5), of "\<lambda>l. snd (l ! j)"] j assms(6) by (simp add: slot_ids_def)
  finally show ?thesis using tick h(4,6) len2 slots(3,6) slot_ids_length [OF h(5)] by simp
qed

text \<open>In a duplex session, a tick of the client and the delivery of its packets give the host all the client has queued,
  provided nothing it sent before was lost.\<close>

lemma duplex_delivers:
  assumes "duplex_reach M c s0 (s, up)" and "peer_slots (sess_client s) = slot # slots"
    and "out_index slot < int (length (slot_queue slot))" and "int (length (slot_queue slot)) \<le> INT64_MAX"
    and "int (length (mutual_queue (sess_client s))) \<le> INT64_MAX"
    and "\<forall>m \<in> set (slot_queue slot). message_time m = 0 \<and> message_actor m = int j"
    and "0 \<le> dt" and "dt \<le> INT64_MAX - peer_time_local (sess_client s)"
    and "route c dst (sess_host s) = Some j" and "1 \<le> j" and "c \<noteq> - 1"
    and "\<forall>i. int i < out_index slot \<longrightarrow> queue_get (slot_queue (peer_slots (sess_host s) ! j)) i \<noteq> None"
  shows "\<exists>result client' host1. peer_tick M True (Some ((sess_client s)\<lparr>peer_alloc := []\<rparr>)) dt = Some (result, Some client') \<and>
    duplex_step M c (s, up) (s\<lparr>sess_client := client'\<rparr>, up \<union> set (tick_packets result)) \<and>
    duplex_step M c (s\<lparr>sess_client := client'\<rparr>, up \<union> set (tick_packets result))
      (s\<lparr>sess_client := client', sess_host := host1\<rparr>, up \<union> set (tick_packets result)) \<and>
    client_data client' = client_data (sess_client s) \<and>
    host_has (sess_host s) j (client_data (sess_client s)) (length (slot_queue slot)) host1"
proof -
  let ?c = "(sess_client s)\<lparr>peer_alloc := []\<rparr>" and ?h = "(sess_host s)\<lparr>peer_alloc := []\<rparr>"
  have inv: "peer_wf ?c" "peer_mode ?c = PEER_CLIENT" "alloc_ok (peer_alloc ?c)"
    "peer_wf ?h" "peer_mode ?h = PEER_HOST" "alloc_ok (peer_alloc ?h)" "host_order ?h"
    "up_slots (client_data (sess_client s)) c (sess_host s)"
    using duplex_reach_inv [OF assms(1)] by (simp_all add: duplex_inv_def session_inv_def)
  have pre: "dt \<le> INT64_MAX - peer_time_local ?c" "peer_slots ?c = slot # slots" "route c dst ?h = Some j"
    "\<forall>i. int i < out_index slot \<longrightarrow> queue_get (slot_queue (peer_slots ?h ! j)) i \<noteq> None"
    "up_queue (client_data ?c) (slot_queue (peer_slots ?h ! j))"
    using assms(2,8-10,12) inv(8) route_Some [OF assms(9)] by (simp_all add: route_def up_slots_def)
  obtain result client' where run: "peer_tick M True (Some ?c) dt = Some (result, Some client')"
    and all: "\<forall>js. set js = {..<length (tick_packets result)} \<longrightarrow> (\<exists>host1. peer_input True (Some ?h)
      (map (\<lambda>i. (tick_packets result ! i)\<lparr>source_id := c, destination_id := dst\<rparr>) js) = Some (KIT_OK, Some host1) \<and>
      host_has ?h j (client_data ?c) (length (slot_queue slot)) host1)"
    using client_tick_host [OF inv(1-3) assms(7) pre(1,2) assms(3,4,6) inv(4-7) pre(3) assms(10,11) pre(5,4),
        where M = M and nd = True] by (elim exE conjE)
  let ?js = "[0..<length (tick_packets result)]"
  let ?ps = "map (\<lambda>i. (tick_packets result ! i)\<lparr>source_id := c, destination_id := dst\<rparr>) ?js"
  have "set ?js = {..<length (tick_packets result)}" by auto
  then obtain host1 where input: "peer_input True (Some ?h) ?ps = Some (KIT_OK, Some host1)"
    and host1: "host_has ?h j (client_data ?c) (length (slot_queue slot)) host1" using all by blast
  let ?s1 = "s\<lparr>sess_client := client'\<rparr>" and ?up = "up \<union> set (tick_packets result)"
  have step1: "duplex_step M c (s, up) (?s1, ?up)"
    using dx_client_tick [OF alloc_ok_Nil run _ assms(5)] assms(2,4) by (simp add: client_data_def)
  have inv1: "\<forall>p \<in> ?up. up_packet (client_data client') p"
    using duplex_step_inv [OF step1 duplex_reach_inv [OF assms(1)]] by (simp add: duplex_inv_def)
  have "length (packet_data p) = 400 \<and> source_id p \<noteq> - 1 \<and> (\<exists>q \<in> ?up. same_content p q)" if p: "p \<in> set ?ps" for p
  proof -
    obtain q where q: "q \<in> set (tick_packets result)" "p = q\<lparr>source_id := c, destination_id := dst\<rparr>"
      using p nth_mem by fastforce
    then have "same_content p q" "length (packet_data q) = 400" using inv1 up_packet_data by (auto simp: same_content_def)
    then show ?thesis using q assms(11) by (auto simp: same_content_def)
  qed
  then have step2: "duplex_step M c (?s1, ?up) (?s1\<lparr>sess_host := host1\<rparr>, ?up)"
    using dx_host_input [OF alloc_ok_Nil, of ?ps c ?up ?s1 KIT_OK host1 M] input by simp
  have post: "client_data client' = client_data (sess_client s)"
    "host_has (sess_host s) j (client_data (sess_client s)) (length (slot_queue slot)) host1"
    using peer_tick_data [OF run inv(2)] host1 by (simp_all add: host_has_def slots_size_def)
  show ?thesis
    by (rule exI [of _ result], rule exI [of _ client'], rule exI [of _ host1]) (use run step1 step2 post in simp)
qed

lemma duplex_publishes:
  assumes "duplex_reach M c s0 (s, up)" and "peer_slots (sess_client s) = slot # slots"
    and "out_index slot < int (length (slot_queue slot))" and "int (length (mutual_queue (sess_client s))) \<le> INT64_MAX"
    and "\<forall>m \<in> set (slot_queue slot). message_time m = 0 \<and> message_actor m = int j"
    and "0 \<le> dt" and "dt \<le> INT64_MAX - peer_time_local (sess_client s)"
    and "route c dst (sess_host s) = Some j" and "1 \<le> j" and "c \<noteq> - 1"
    and "\<forall>i. int i < out_index slot \<longrightarrow> queue_get (slot_queue (peer_slots (sess_host s) ! j)) i \<noteq> None"
    and "0 \<le> dt'" and "0 < peer_time_local (sess_host s) + dt'" and "dt' \<le> INT64_MAX - peer_time_local (sess_host s)"
    and "int (length (mutual_queue (sess_host s)) + slots_size (sess_host s) + length (slot_queue slot)) \<le> INT64_MAX"
  shows "\<exists>result client' host1 s'. peer_tick M True (Some ((sess_client s)\<lparr>peer_alloc := []\<rparr>)) dt = Some (result, Some client') \<and>
    duplex_step M c (s, up) (s\<lparr>sess_client := client'\<rparr>, up \<union> set (tick_packets result)) \<and>
    duplex_step M c (s\<lparr>sess_client := client'\<rparr>, up \<union> set (tick_packets result))
      (s\<lparr>sess_client := client', sess_host := host1\<rparr>, up \<union> set (tick_packets result)) \<and>
    duplex_step M c (s\<lparr>sess_client := client', sess_host := host1\<rparr>, up \<union> set (tick_packets result))
      (s', up \<union> set (tick_packets result)) \<and>
    sess_client s' = client' \<and> client_data client' = client_data (sess_client s) \<and>
    actor_data (int j) (mutual_queue (sess_host s')) = client_data (sess_client s) \<and>
    j < length (peer_slots (sess_host s')) \<and> endpoint_id (slot_remote (peer_slots (sess_host s') ! j)) = c"
proof -
  have size: "int (length (slot_queue slot)) \<le> INT64_MAX" using assms(15) by simp
  have j: "j < length (peer_slots (sess_host s))" "endpoint_id (slot_remote (peer_slots (sess_host s) ! j)) = c"
    using route_Some [OF assms(8)] by simp_all
  obtain result client' host1 where run: "peer_tick M True (Some ((sess_client s)\<lparr>peer_alloc := []\<rparr>)) dt = Some (result, Some client')"
    and steps: "duplex_step M c (s, up) (s\<lparr>sess_client := client'\<rparr>, up \<union> set (tick_packets result))"
      "duplex_step M c (s\<lparr>sess_client := client'\<rparr>, up \<union> set (tick_packets result))
        (s\<lparr>sess_client := client', sess_host := host1\<rparr>, up \<union> set (tick_packets result))"
    and data: "client_data client' = client_data (sess_client s)"
    and has: "host_has (sess_host s) j (client_data (sess_client s)) (length (slot_queue slot)) host1"
    using duplex_delivers [OF assms(1-3) size assms(4-11)] by (elim exE conjE)
  have al: "alloc_ok (peer_alloc host1)" using has by (simp add: host_has_def)
  from host_has_tick [OF has assms(12,14,15,9) j(1), of M]
  obtain r host2 where tick: "peer_tick M True (Some host1) dt' = Some (r, Some host2)"
    "actor_data (int j) (mutual_queue host2) = client_data (sess_client s)" "int (length (mutual_queue host2)) \<le> INT64_MAX"
    "length (peer_slots host2) = length (peer_slots (sess_host s))"
    "endpoint_id (slot_remote (peer_slots host2 ! j)) = endpoint_id (slot_remote (peer_slots (sess_host s) ! j))"
    "peer_time_local host2 = peer_time_local (sess_host s) + dt'" by (elim exE conjE)
  let ?s1 = "s\<lparr>sess_client := client', sess_host := host1\<rparr>" and ?up = "up \<union> set (tick_packets result)"
  let ?s2 = "?s1\<lparr>sess_host := host2, sess_net := sess_net ?s1 \<union> set (tick_packets r)\<rparr>"
  have step3: "duplex_step M c (?s1, ?up) (?s2, ?up)"
    by (rule dx_host_tick [OF al]) (use tick(1,3,6) assms(13) in simp_all)
  show ?thesis
    by (rule exI [of _ result], rule exI [of _ client'], rule exI [of _ host1], rule exI [of _ ?s2])
      (use run steps step3 data tick(2,4,5) j in simp)
qed

text \<open>A concrete session: the host has published one message at time 3; its client, known to it as 20 on slot 1, has
  two messages of its own, none of them sent.\<close>

definition upstream_host :: "unit peer_t" where
  "upstream_host = joined_host\<lparr>mutual_queue := [ready_message (3, 0, [1, 2]), ready_message (0, 0, [3])],
     peer_slots := (peer_slots joined_host)[1 := (peer_slots joined_host ! 1)\<lparr>slot_queue := []\<rparr>]\<rparr>"

definition upstream_client :: "unit peer_t" where
  "upstream_client = joined_client\<lparr>peer_slots := [(hd (peer_slots joined_client))
     \<lparr>slot_queue := [ready_message (0, 1, [9]), ready_message (0, 1, [7, 7])]\<rparr>]\<rparr>"

definition upstream_session :: "unit session" where
  "upstream_session = \<lparr>sess_host = upstream_host, sess_client = upstream_client, sess_net = {}\<rparr>"

lemmas upstream_defs = upstream_session_def upstream_host_def upstream_client_def joined_defs

lemma upstream_wf: "peer_wf upstream_host" "peer_wf upstream_client"
  by (simp_all add: upstream_defs peer_wf_def mode_slot_wf_def queue_wf_def wf_defs is_int64_def)

lemma upstream_order: "host_order upstream_host"
  by (auto simp: upstream_defs host_order_def slot_order_def slot_taken_def queue_data_def actor_data_def less_Suc_eq nth_Cons'
      split: if_splits)

lemma upstream_start: "duplex_reach example_mt64 20 upstream_session (upstream_session, {})"
proof (rule dx_start)
  have "log_timed upstream_host"
    by (auto simp: log_timed_def host_log_def queue_get_def upstream_defs less_Suc_eq nth_Cons' message_entry_def split: if_splits)
  moreover have "session_start upstream_session"
    using upstream_wf by (simp add: session_start_def upstream_session_def) (simp add: upstream_defs)
  moreover have "\<forall>slot \<in> set (peer_slots upstream_host). endpoint_id (slot_remote slot) = 20 \<longrightarrow> slot_queue slot = []"
    by (simp add: upstream_defs)
  ultimately show "duplex_start 20 upstream_session"
    using upstream_order by (simp add: duplex_start_def upstream_session_def)
qed

lemma upstream_published:
  "\<exists>s' up'. duplex_reach example_mt64 20 upstream_session (s', up') \<and>
    actor_data (int 1) (mutual_queue (sess_host s')) = client_data (sess_client upstream_session) \<and>
    1 < length (peer_slots (sess_host s')) \<and> endpoint_id (slot_remote (peer_slots (sess_host s') ! 1)) = 20"
proof -
  have "\<exists>result client' host1 s'. peer_tick example_mt64 True (Some ((sess_client upstream_session)\<lparr>peer_alloc := []\<rparr>)) 1 = Some (result, Some client') \<and>
    duplex_step example_mt64 20 (upstream_session, {}) (upstream_session\<lparr>sess_client := client'\<rparr>, {} \<union> set (tick_packets result)) \<and>
    duplex_step example_mt64 20 (upstream_session\<lparr>sess_client := client'\<rparr>, {} \<union> set (tick_packets result))
      (upstream_session\<lparr>sess_client := client', sess_host := host1\<rparr>, {} \<union> set (tick_packets result)) \<and>
    duplex_step example_mt64 20 (upstream_session\<lparr>sess_client := client', sess_host := host1\<rparr>, {} \<union> set (tick_packets result))
      (s', {} \<union> set (tick_packets result)) \<and>
    sess_client s' = client' \<and> client_data client' = client_data (sess_client upstream_session) \<and>
    actor_data (int 1) (mutual_queue (sess_host s')) = client_data (sess_client upstream_session) \<and>
    1 < length (peer_slots (sess_host s')) \<and> endpoint_id (slot_remote (peer_slots (sess_host s') ! 1)) = 20"
    by (rule duplex_publishes [OF upstream_start, where dst = 11 and dt = 1 and dt' = 7 and slots = "[]" and
          slot = "(hd (peer_slots joined_client))\<lparr>slot_queue := [ready_message (0, 1, [9]), ready_message (0, 1, [7, 7])]\<rparr>"])
      (simp_all add: upstream_defs route_def slots_size_def)
  then show ?thesis using upstream_start by (elim exE conjE) (intro exI conjI, rule dx_step, rule dx_step, rule dx_step)
qed

subsection \<open>Properties\<close>

text \<open>C4. The messages that the host has published from a slot of a client are the first messages the client queued, each of
  them once, in the order it queued them. This holds for each slot by itself: a client that asked twice may have two slots,
  and then each of them publishes such a beginning. It holds however the ticks interleave, whichever packets of the client the network
  loses, repeats or reorders, and whatever other peers send to the host under their own ids, provided that the host publishes
  nothing at time 0: its clock is past 0 after every tick, and what it has published at the start has a time; at the start no slot of the client
  has messages. (At time 0 it fails: see the example at the end.)\<close>

theorem client_messages_in_order:
  assumes "duplex_reach M c s0 (s, up)" and "1 \<le> j" and "j < length (peer_slots (sess_host s))"
    and "endpoint_id (slot_remote (peer_slots (sess_host s) ! j)) = c"
  shows "prefix (actor_data (int j) (mutual_queue (sess_host s))) (client_data (sess_client s))"
  by (rule duplex_inv_prefix [OF duplex_reach_inv [OF assms(1)] assms(2-4)])

theorem client_messages_in_order_witness:
  "\<exists>s up. duplex_reach example_mt64 20 upstream_session (s, up) \<and>
    actor_data (int 1) (mutual_queue (sess_host s)) = [[9], [7, 7]] \<and>
    prefix (actor_data (int 1) (mutual_queue (sess_host s))) (client_data (sess_client s))"
proof -
  have data: "client_data (sess_client upstream_session) = [[9], [7, 7]]" by (simp add: upstream_defs client_data_def)
  obtain s up where s: "duplex_reach example_mt64 20 upstream_session (s, up)"
    "actor_data (int 1) (mutual_queue (sess_host s)) = client_data (sess_client upstream_session)"
    "1 < length (peer_slots (sess_host s))" "endpoint_id (slot_remote (peer_slots (sess_host s) ! 1)) = 20"
    using upstream_published by blast
  have "prefix (actor_data (int 1) (mutual_queue (sess_host s))) (client_data (sess_client s))"
    by (rule client_messages_in_order [OF s(1) _ s(3,4)]) simp
  then show ?thesis using s(1,2) unfolding data by blast
qed

text \<open>C14. A client publishes what it has queued: in every reachable state of a duplex session in which the client has unsent
  messages and its messages carry its actor id, and in which the host has received every message the client sent before,
  three steps, a tick of the client, the delivery of its packets and a tick of the host at a time after 0, lead to a state
  in which the messages of that client's slot in the mutual queue are exactly those the client has queued.\<close>

theorem client_can_publish:
  assumes "duplex_reach M c s0 (s, up)" and "peer_slots (sess_client s) = slot # slots"
    and "out_index slot < int (length (slot_queue slot))" and "int (length (mutual_queue (sess_client s))) \<le> INT64_MAX"
    and "\<forall>m \<in> set (slot_queue slot). message_time m = 0 \<and> message_actor m = int j"
    and "0 \<le> dt" and "dt \<le> INT64_MAX - peer_time_local (sess_client s)"
    and "route c dst (sess_host s) = Some j" and "1 \<le> j" and "c \<noteq> - 1"
    and "\<forall>i. int i < out_index slot \<longrightarrow> queue_get (slot_queue (peer_slots (sess_host s) ! j)) i \<noteq> None"
    and "0 \<le> dt'" and "0 < peer_time_local (sess_host s) + dt'" and "dt' \<le> INT64_MAX - peer_time_local (sess_host s)"
    and "int (length (mutual_queue (sess_host s)) + slots_size (sess_host s) + length (slot_queue slot)) \<le> INT64_MAX"
  shows "\<exists>result client' host1 s'. peer_tick M True (Some ((sess_client s)\<lparr>peer_alloc := []\<rparr>)) dt = Some (result, Some client') \<and>
    duplex_step M c (s, up) (s\<lparr>sess_client := client'\<rparr>, up \<union> set (tick_packets result)) \<and>
    duplex_step M c (s\<lparr>sess_client := client'\<rparr>, up \<union> set (tick_packets result))
      (s\<lparr>sess_client := client', sess_host := host1\<rparr>, up \<union> set (tick_packets result)) \<and>
    duplex_step M c (s\<lparr>sess_client := client', sess_host := host1\<rparr>, up \<union> set (tick_packets result))
      (s', up \<union> set (tick_packets result)) \<and>
    sess_client s' = client' \<and> client_data client' = client_data (sess_client s) \<and>
    actor_data (int j) (mutual_queue (sess_host s')) = client_data (sess_client s)"
  using duplex_publishes [OF assms] by (elim exE conjE) (intro exI conjI)

theorem client_can_publish_witness:
  "\<exists>result client' host1 s'. peer_tick example_mt64 True (Some ((sess_client upstream_session)\<lparr>peer_alloc := []\<rparr>)) 1 = Some (result, Some client') \<and>
    duplex_step example_mt64 20 (upstream_session, {}) (upstream_session\<lparr>sess_client := client'\<rparr>, {} \<union> set (tick_packets result)) \<and>
    duplex_step example_mt64 20 (upstream_session\<lparr>sess_client := client'\<rparr>, {} \<union> set (tick_packets result))
      (upstream_session\<lparr>sess_client := client', sess_host := host1\<rparr>, {} \<union> set (tick_packets result)) \<and>
    duplex_step example_mt64 20 (upstream_session\<lparr>sess_client := client', sess_host := host1\<rparr>, {} \<union> set (tick_packets result))
      (s', {} \<union> set (tick_packets result)) \<and>
    sess_client s' = client' \<and> client_data client' = client_data (sess_client upstream_session) \<and>
    actor_data (int 1) (mutual_queue (sess_host s')) = client_data (sess_client upstream_session)"
  by (rule client_can_publish [OF upstream_start, where dst = 11 and dt = 1 and dt' = 7 and slots = "[]" and
        slot = "(hd (peer_slots joined_client))\<lparr>slot_queue := [ready_message (0, 1, [9]), ready_message (0, 1, [7, 7])]\<rparr>"])
    (simp_all add: upstream_defs route_def slots_size_def)

text \<open>C6. One tick of a client with unsent messages through the network. Suppose the client's messages carry the actor id of its
  slot at the host, and the host has received every message the client sent before. When the packets of the client's tick then reach
  the host under the ids the host knows, in any order and any number of times but each at least once, the host accepts them all, in
  both builds, and the mutual queue its next tick publishes has, from that slot, exactly the messages the client has queued, in their
  order. (Without the second condition this fails: a lost message is a gap the host does not publish beyond.)\<close>

theorem client_tick_reaches_host:
  assumes "peer_wf client" and "peer_mode client = PEER_CLIENT" and "alloc_ok (peer_alloc client)"
    and "0 \<le> dt" and "dt \<le> INT64_MAX - peer_time_local client" and "peer_slots client = slot # slots"
    and "out_index slot < int (length (slot_queue slot))" and "int (length (slot_queue slot)) \<le> INT64_MAX"
    and "\<forall>m \<in> set (slot_queue slot). message_time m = 0 \<and> message_actor m = int j"
    and "peer_wf host" and "peer_mode host = PEER_HOST" and "alloc_ok (peer_alloc host)" and "host_order host"
    and "route src dst host = Some j" and "1 \<le> j" and "src \<noteq> - 1"
    and "up_queue (client_data client) (slot_queue (peer_slots host ! j))"
    and "\<forall>i. int i < out_index slot \<longrightarrow> queue_get (slot_queue (peer_slots host ! j)) i \<noteq> None"
    and "0 \<le> dt'" and "dt' \<le> INT64_MAX - peer_time_local host"
    and "int (length (mutual_queue host) + slots_size host + length (slot_queue slot)) \<le> INT64_MAX"
  shows "\<exists>result client'. peer_tick M True (Some client) dt = Some (result, Some client') \<and>
    (\<forall>js. set js = {..<length (tick_packets result)} \<longrightarrow>
      (\<exists>host1 r host2. peer_input nd (Some host)
          (map (\<lambda>i. (tick_packets result ! i)\<lparr>source_id := src, destination_id := dst\<rparr>) js) = Some (KIT_OK, Some host1) \<and>
        peer_tick M True (Some host1) dt' = Some (r, Some host2) \<and> tick_status r = KIT_OK \<and>
        actor_data (int j) (mutual_queue host2) = client_data client))"
proof -
  obtain result client' where run: "peer_tick M True (Some client) dt = Some (result, Some client')"
    and all: "\<forall>js. set js = {..<length (tick_packets result)} \<longrightarrow> (\<exists>host1. peer_input nd (Some host)
      (map (\<lambda>i. (tick_packets result ! i)\<lparr>source_id := src, destination_id := dst\<rparr>) js) = Some (KIT_OK, Some host1) \<and>
      host_has host j (client_data client) (length (slot_queue slot)) host1)"
    using client_tick_host [OF assms(1-18), where M = M and nd = nd] by (elim exE conjE)
  have "\<exists>host1 r host2. peer_input nd (Some host)
        (map (\<lambda>i. (tick_packets result ! i)\<lparr>source_id := src, destination_id := dst\<rparr>) js) = Some (KIT_OK, Some host1) \<and>
      peer_tick M True (Some host1) dt' = Some (r, Some host2) \<and> tick_status r = KIT_OK \<and>
      actor_data (int j) (mutual_queue host2) = client_data client" if js: "set js = {..<length (tick_packets result)}" for js
    using all [rule_format, OF js] host_has_tick [OF _ assms(19-21,15) route_Some(1) [OF assms(14)], of "client_data client" _ M]
    by (elim exE conjE) metis
  then show ?thesis using run by (intro exI [of _ result] exI [of _ client'] conjI) simp_all
qed

theorem client_tick_reaches_host_witness:
  "\<exists>result client'. peer_tick example_mt64 True (Some upstream_client) 1 = Some (result, Some client') \<and>
    (\<forall>js. set js = {..<length (tick_packets result)} \<longrightarrow>
      (\<exists>host1 r host2. peer_input False (Some upstream_host)
          (map (\<lambda>i. (tick_packets result ! i)\<lparr>source_id := 20, destination_id := 11\<rparr>) js) = Some (KIT_OK, Some host1) \<and>
        peer_tick example_mt64 True (Some host1) 7 = Some (r, Some host2) \<and> tick_status r = KIT_OK \<and>
        actor_data (int 1) (mutual_queue host2) = client_data upstream_client))"
  by (rule client_tick_reaches_host [OF upstream_wf(2), where slots = "[]" and
        slot = "(hd (peer_slots joined_client))\<lparr>slot_queue := [ready_message (0, 1, [9]), ready_message (0, 1, [7, 7])]\<rparr>"])
    (simp_all add: upstream_wf upstream_order,
     simp_all add: upstream_defs route_def slots_size_def up_queue_def queue_get_def)

text \<open>C39. A client does not send a message twice unless new ones follow it: once every message of its queue has been sent,
  the packets of its ticks carry, besides heartbeats, only messages of the mutual queue. So when the last message
  of a client is lost, the client does not make up for it.\<close>

theorem client_never_resends:
  assumes "peer_wf client" and "peer_mode client = PEER_CLIENT" and "alloc_ok (peer_alloc client)"
    and "peer_tick M True (Some client) dt = Some (result, Some client')" and "peer_slots client = slot # slots"
    and "out_index slot = int (length (slot_queue slot))"
    and "int (length (slot_queue slot)) \<le> INT64_MAX" and "int (length (mutual_queue client)) \<le> INT64_MAX"
  shows "\<exists>ms. carries (endpoint_id (slot_local slot)) (endpoint_id (slot_remote slot)) ms (tick_packets result) \<and>
    (\<forall>m \<in> set ms. m = M_heartbeat 0 (peer_actor client) \<or>
      (\<exists>k < length (mutual_queue client). m = M_application k (message_entry (mutual_queue client ! k))))"
  using client_tick_messages [OF assms(1-5,7,8)] assms(6) unfolding queue_message_def by simp

text \<open>A client that has sent its two messages and knows of two published ones, all at time 0: the second message of the
  mutual queue is its own first one. Its host has the first of the two messages only.\<close>

definition idle_client :: "unit peer_t" where
  "idle_client = upstream_client\<lparr>peer_actor := 1, mutual_queue := [ready_message (0, 0, [3]), ready_message (0, 1, [9])],
     peer_slots := [(hd (peer_slots upstream_client))\<lparr>out_index := 2\<rparr>]\<rparr>"

definition waiting_host :: "unit peer_t" where
  "waiting_host = upstream_host\<lparr>mutual_queue := [ready_message (0, 0, [3]), ready_message (0, 1, [9])], queue_index := 2,
     peer_slots := (peer_slots upstream_host)[1 := (peer_slots upstream_host ! 1)
       \<lparr>slot_queue := [ready_message (0, 1, [9])], in_index := 1, out_index := 2\<rparr>]\<rparr>"

lemma idle_client_wf: "peer_wf idle_client"
  by (simp add: idle_client_def upstream_defs peer_wf_def mode_slot_wf_def queue_wf_def wf_defs is_int64_def)

lemma idle_client_tick:
  "case peer_tick example_mt64 True (Some idle_client) 20 of
     Some (result, Some client') \<Rightarrow> length (tick_packets result) = 1 \<and>
       (case peer_input True (Some waiting_host) (tick_packets result) of
          Some (st, Some host') \<Rightarrow> queue_get (slot_queue (peer_slots host' ! 1)) 1 = Some (0, 1, [9]) \<and>
            client_data client' = [[9], [7, 7]]
        | _ \<Rightarrow> False)
   | _ \<Rightarrow> False"
  by code_simp

theorem client_never_resends_witness:
  "\<exists>result client'. peer_tick example_mt64 True (Some idle_client) 20 = Some (result, Some client') \<and>
    (\<exists>ms. carries (endpoint_id (slot_local (hd (peer_slots idle_client))))
        (endpoint_id (slot_remote (hd (peer_slots idle_client)))) ms (tick_packets result) \<and>
      (\<forall>m \<in> set ms. m = M_heartbeat 0 (peer_actor idle_client) \<or>
        (\<exists>k < length (mutual_queue idle_client). m = M_application k (message_entry (mutual_queue idle_client ! k)))))"
proof -
  obtain result client' where run: "peer_tick example_mt64 True (Some idle_client) 20 = Some (result, Some client')"
    using idle_client_tick by (auto split: option.splits)
  have slots: "peer_slots idle_client = hd (peer_slots idle_client) # []" by (simp add: idle_client_def)
  have "\<exists>ms. carries (endpoint_id (slot_local (hd (peer_slots idle_client))))
        (endpoint_id (slot_remote (hd (peer_slots idle_client)))) ms (tick_packets result) \<and>
      (\<forall>m \<in> set ms. m = M_heartbeat 0 (peer_actor idle_client) \<or>
        (\<exists>k < length (mutual_queue idle_client). m = M_application k (message_entry (mutual_queue idle_client ! k))))"
    by (rule client_never_resends [OF idle_client_wf _ _ run slots]) (simp_all add: idle_client_def upstream_defs)
  then show ?thesis using run by blast
qed

text \<open>An example of what happens at time 0, and of why the steps above exclude it: the trail of a client's heartbeat can put
  a wrong message into its host's queue, for the host takes the messages of the mutual queue that the heartbeat carries for messages
  of the client. Here the client has queued the messages 9 and 7 7, the second is still on its way, and the heartbeat makes the host
  store 9 a second time, in its place.\<close>

lemma heartbeat_trail_corrupts:
  "\<exists>result client' st host'. peer_tick example_mt64 True (Some idle_client) 20 = Some (result, Some client') \<and>
    client_data client' = [[9], [7, 7]] \<and> queue_get (slot_queue (peer_slots waiting_host ! 1)) 1 = None \<and>
    peer_input True (Some waiting_host) (tick_packets result) = Some (st, Some host') \<and>
    queue_get (slot_queue (peer_slots host' ! 1)) 1 = Some (0, 1, [9])"
proof -
  have free: "queue_get (slot_queue (peer_slots waiting_host ! 1)) 1 = None"
    by (simp add: waiting_host_def upstream_defs queue_get_def)
  obtain result client' where run: "peer_tick example_mt64 True (Some idle_client) 20 = Some (result, Some client')"
    using idle_client_tick by (auto split: option.splits)
  then obtain st host' where "peer_input True (Some waiting_host) (tick_packets result) = Some (st, Some host')"
    using idle_client_tick by (auto split: option.splits)
  then show ?thesis
    using run free idle_client_tick
    by (intro exI [of _ result] exI [of _ client'] exI [of _ st] exI [of _ host']) simp
qed

end
