(* ===== verification/Peer_Stack.thy ===== *)
theory Peer_Stack
  imports Peer_Network Peer_Duplex
begin

text \<open>
  The way from a client to the host through pools, sockets and datagrams. A host knows its clients by the node of
  the address a datagram came from; here this id is tied to the address, and a client's datagrams to the packets of
  the duplex session. So the order in which a client queued its messages is kept from \<open>peer_queue\<close> of
  the client to the mutual queue of the host, through both calls of \<open>peer_pool_tick\<close>.
\<close>

subsection \<open>Who has sent a datagram\<close>

text \<open>The datagrams from an address that some sequence of \<open>recvfrom\<close> calls can return.\<close>

inductive receivable_at :: "'w os_ops \<Rightarrow> 32 word \<Rightarrow> port_t \<Rightarrow> 'w \<Rightarrow> byte list \<Rightarrow> bool" for os addr port where
  receivable_at_now: "os_recvfrom os s w = (Datagram buf addr port, w') \<Longrightarrow> receivable_at os addr port w buf"
| receivable_at_later: "os_recvfrom os s w = (r, w') \<Longrightarrow> receivable_at os addr port w' buf \<Longrightarrow> receivable_at os addr port w buf"

lemma receivable_at_recording: "receivable_at (recording os) addr port x buf \<Longrightarrow> receivable_at os addr port (fst x) buf"
  by (induction rule: receivable_at.induct) (auto dest!: recording_recvfrom intro: receivable_at.intros)

text \<open>A packet whose source is the node of the address its datagram came from.\<close>

definition received_at :: "'w os_ops \<Rightarrow> 'w \<Rightarrow> peer_nodes_t \<Rightarrow> peer_packet_t \<Rightarrow> bool" where
  "received_at os w nodes p \<longleftrightarrow> (\<exists>buf addr port i. receivable_at os addr port w buf \<and>
     packet_size p = int (length buf) \<and> packet_data p = buf @ replicate (400 - length buf) 0 \<and>
     source_id p = int i \<and> node_key nodes i = Some (PEER_UDP_IPv4, port, inet_ntop os addr))"

lemma node_key_grow: "nodes_grow nodes nodes' \<Longrightarrow> node_key nodes i = Some k \<Longrightarrow> node_key nodes' i = Some k"
  by (auto simp: nodes_grow_def node_key_def nth_append split: if_splits)

lemma received_at_mono:
  assumes "received_at os w1 nodes p" and "nodes_grow nodes nodes'"
    and "\<And>addr port buf. receivable_at os addr port w1 buf \<Longrightarrow> receivable_at os addr port w buf"
  shows "received_at os w nodes' p"
  using assms node_key_grow unfolding received_at_def by blast

lemma receive_node_at:
  assumes "receive_node os nd i node (status, pool, packets, w) = Some (status', pool', packets', w')"
    and "pool_wf (pool_nodes pool)" and "p \<in> set packets'"
  shows "p \<in> set packets \<or> received_at os w (pool_nodes pool') p"
proof (cases "p \<in> set packets")
  case new: False
  obtain buf addr port sid pool1 where recv: "os_recvfrom os (node_socket node) w = (Datagram buf addr port, w')"
    and find: "find_pool_node os nd pool PEER_UDP_IPv4 port (int (length (inet_ntop os addr))) (In_buffer (inet_ntop os addr)) =
      Some (KIT_OK, Some sid, pool1)"
    and app: "append_packet nd i sid buf (status, pool1, packets, w') = Some (status', pool', packets', w')"
    using receive_node_call [OF assms(1)] new assms(3) by auto
  let ?key = "(PEER_UDP_IPv4, port, inet_ntop os addr)"
  let ?d = "intern_node (pool_nodes pool) ?key"
  have "list_all node_wf (pool_nodes pool)" using assms(2) by (simp add: pool_wf_def)
  from find_pool_node_cases [OF this find] have "sid = int (fst ?d)" "pool_nodes pool1 = snd ?d"
    by (auto simp: address_bytes_def)
  moreover have "pool_nodes pool' = pool_nodes pool1" using append_packet_pool [OF app] by simp
  ultimately have "node_key (pool_nodes pool') (fst ?d) = Some ?key" "sid = int (fst ?d)"
    using nodes.intern_meaning [of "pool_nodes pool" ?key] by simp_all
  then show ?thesis
    using append_packet_from [OF app assms(3)] new receivable_at_now [OF recv] unfolding received_at_def by blast
qed simp

lemma receive_node_later:
  assumes "receive_node os nd i node (status, pool, packets, w) = Some (status', pool', packets', w')"
    and "receivable_at os addr port w' buf"
  shows "receivable_at os addr port w buf"
  using receive_node_call [OF assms(1)] assms(2) by (elim disjE exE conjE) (simp_all add: receivable_at_later)

lemma receive_nodes_at:
  assumes "receive_nodes os nd i (status, pool, packets, w) = Some (status', pool', packets', w')"
    and "pool_wf (pool_nodes pool)" and "list_all (received_ok (pool_nodes pool)) packets" and "p \<in> set packets'"
  shows "p \<in> set packets \<or> received_at os w (pool_nodes pool') p"
  using assms
proof (induction os nd i "(status, pool, packets, w)" arbitrary: status pool packets w rule: receive_nodes.induct)
  case (1 os nd i status pool packets w)
  show ?case
  proof (cases "i < length (pool_nodes pool)")
    case True
    then obtain s1 pool1 packets1 w1 where
      one: "receive_node os nd i (pool_nodes pool ! i) (status, pool, packets, w) = Some (s1, pool1, packets1, w1)"
      and rest: "receive_nodes os nd (Suc i) (s1, pool1, packets1, w1) = Some (status', pool', packets', w')"
      using 1(2) by (auto simp: receive_nodes.simps [of os nd i] dest!: bind_eq_SomeD)
    note wf = receive_node_wf [OF one 1(3,4)]
    have grow: "nodes_grow (pool_nodes pool1) (pool_nodes pool')" using receive_nodes_wf [OF rest] wf by blast
    have "p \<in> set packets1 \<or> received_at os w1 (pool_nodes pool') p"
      using 1(1) [OF True one rest] wf 1(5) by blast
    moreover have "received_at os w (pool_nodes pool') p" if "received_at os w1 (pool_nodes pool') p"
      using received_at_mono [OF that nodes_grow_refl] receive_node_later [OF one] by blast
    moreover have "received_at os w (pool_nodes pool') p" if "received_at os w (pool_nodes pool1) p"
      using received_at_mono [OF that grow] by blast
    ultimately show ?thesis using receive_node_at [OF one 1(3)] by blast
  next
    case False
    then show ?thesis using 1(2,5) by (simp add: receive_nodes.simps [of os nd i])
  qed
qed

subsection \<open>A host's ids stay\<close>

text \<open>A host never learns an address for the peer of a slot, only its id: so resolving leaves the ids as they are.\<close>

definition remote_fixed :: "peer_endpoint_t \<Rightarrow> bool" where
  "remote_fixed r \<longleftrightarrow> is_id_resolved r \<or> endpoint_id r = PEER_UNDEFINED \<and> address_size r = 0"

definition host_fixed :: "'r peer_t \<Rightarrow> bool" where
  "host_fixed host \<longleftrightarrow> list_all (\<lambda>slot. remote_fixed (slot_remote slot)) (peer_slots host)"

lemma resolve_slot_fixed:
  assumes "resolve_slot os nd (pool, slot) = Some (s, pool', slot')" and "remote_fixed (slot_remote slot)"
  shows "remote_fixed (slot_remote slot') \<and> endpoint_id (slot_remote slot') = endpoint_id (slot_remote slot)"
proof -
  obtain s1 slot1 s2 slot2 s3 pool3 slot3 s4 where
    1: "resolve_local nd (pool_nodes pool) slot = Some (s1, slot1)" and
    2: "resolve_remote nd (pool_nodes pool) slot1 = Some (s2, slot2)" and
    3: "resolve_id_by_port os nd (pool, slot2) = Some (s3, pool3, slot3)" and
    4: "resolve_id_by_address os nd (pool3, slot3) = Some (s4, pool', slot')"
    using assms(1) by (auto simp: resolve_slot_def dest!: bind_eq_SomeD)
  have "slot_remote slot1 = slot_remote slot"
    using 1 by (auto simp: resolve_local_def Let_def c_assert_bind split: if_splits dest!: bind_eq_SomeD)
  then have slot2: "remote_fixed (slot_remote slot2) \<and> endpoint_id (slot_remote slot2) = endpoint_id (slot_remote slot)"
    using 2 assms(2) by (auto simp: resolve_remote_def remote_fixed_def Let_def c_assert_bind split: if_splits dest!: bind_eq_SomeD)
  then have "slot3 = slot2" using 3 by (auto simp: resolve_id_by_port_def remote_fixed_def Let_def split: if_splits)
  then have "slot' = slot2" using 4 slot2 by (auto simp: resolve_id_by_address_def remote_fixed_def Let_def split: if_splits)
  then show ?thesis using slot2 by simp
qed

lemma resolve_slots_fixed:
  assumes "resolve_slots os nd slots (status, pool) = Some (s, pool', slots')"
    and "list_all (\<lambda>slot. remote_fixed (slot_remote slot)) slots"
  shows "list_all (\<lambda>slot. remote_fixed (slot_remote slot)) slots' \<and>
    map (\<lambda>slot. endpoint_id (slot_remote slot)) slots' = map (\<lambda>slot. endpoint_id (slot_remote slot)) slots"
  using assms
proof (induction slots arbitrary: status pool slots')
  case (Cons slot slots)
  then obtain s1 pool1 slot1 slots1 where one: "resolve_slot os nd (pool, slot) = Some (s1, pool1, slot1)"
    and rest: "resolve_slots os nd slots (status OR s1, pool1) = Some (s, pool', slots1)" and slots': "slots' = slot1 # slots1"
    by (auto dest!: bind_eq_SomeD)
  show ?case using resolve_slot_fixed [OF one] Cons.IH [OF rest] Cons.prems(2) slots' by simp
qed simp

lemma resolve_fixed:
  assumes "resolve_address_and_id os nd pool peer = Some (status, pool', peer')" and "host_fixed peer"
  shows "host_fixed peer' \<and> map (\<lambda>slot. endpoint_id (slot_remote slot)) (peer_slots peer') =
    map (\<lambda>slot. endpoint_id (slot_remote slot)) (peer_slots peer)"
  using assms resolve_slots_fixed
  by (fastforce simp: resolve_address_and_id_def host_fixed_def dest!: bind_eq_SomeD)

lemma host_fixed_remotes: "host_fixed p \<longleftrightarrow> list_all remote_fixed (map slot_remote (peer_slots p))"
  by (simp add: host_fixed_def list_all_iff)

lemma same_remotes_fixed: "map slot_remote (peer_slots p') = map slot_remote (peer_slots p) \<Longrightarrow> host_fixed p' = host_fixed p"
  by (simp add: host_fixed_remotes del: list.pred_map)

lemma host_fixed_alloc [simp]: "host_fixed (p\<lparr>peer_alloc := al\<rparr>) = host_fixed p"
  by (simp add: host_fixed_def)

lemma peer_queue_fixed:
  assumes "peer_queue nd (Some p) (chunk_ref d) = Some (st, Some p')" and "peer_mode p = PEER_HOST" and "host_fixed p"
  shows "host_fixed p'"
  using assms by (auto simp: peer_queue_def with_peer_def peer_queue_body_def host_fixed_def dest!: bind_eq_SomeD split: if_splits)

lemma peer_open_fixed:
  assumes "peer_open nd (Some p) (ids_ref ids) = Some (KIT_OK, Some p')" and "host_fixed p"
  shows "host_fixed p'"
proof -
  have "remote_fixed (slot_remote slot)" if "slot \<in> set (new_slots mode ids)" for slot mode
    using that by (auto simp: new_slots_def open_slot_def remote_fixed_def zero_endpoint_def)
  then show ?thesis
    using assms by (cases "ids = []") (auto simp: peer_open_def with_peer_def peer_open_body_eq host_fixed_def list_all_iff
        split: prod.splits option.splits if_splits)
qed

text \<open>Receiving changes the remote end of a slot only when the slot is given to a client, whose id is known.\<close>

lemma input_host_remotes:
  assumes "input_host nd j c h (s, p) = Some (s', p')"
  shows "map slot_remote (peer_slots p') = map slot_remote (peer_slots p)"
  using assms
  by (auto simp: input_host_def Let_def c_load_eq_Some c_store_def c_assert_bind map_update list_update_same_conv split: if_splits dest!: bind_eq_SomeD)

lemma input_chunks_remotes:
  assumes "input_chunks nd j cs (s, p) = Some (s', p')" and "peer_mode p = PEER_HOST"
  shows "map slot_remote (peer_slots p') = map slot_remote (peer_slots p)"
  using assms
proof (induction cs arbitrary: s p)
  case (Cons c cs)
  obtain s1 p1 where one: "input_chunk nd j c (s, p) = Some (s1, p1)"
    and rest: "input_chunks nd j cs (s1, p1) = Some (s', p')"
    using Cons.prems(1) by (auto dest!: bind_eq_SomeD)
  obtain h where "input_host nd j c h (s, p) = Some (s1, p1)"
    using one Cons.prems(2) by (auto simp: input_chunk_def dest!: bind_eq_SomeD)
  from input_host_remotes [OF this] show ?case
    using Cons.IH [OF rest] input_chunk_same [OF one Cons.prems(2)] Cons.prems(2) by (simp add: same_queue_def)
qed simp

lemma assign_slot_fixed:
  assumes "assign_slot packet (s, p) = (s', p')" and "host_fixed p"
  shows "host_fixed p'"
proof (cases "p' = p")
  case False
  then obtain j where p': "p' = p\<lparr>peer_slots := (peer_slots p)[j := (peer_slots p ! j)
      \<lparr>slot_state := PEER_SLOT_SESSION_REQUEST, slot_remote := (slot_remote (peer_slots p ! j))
        \<lparr>endpoint_id := source_id packet, is_id_resolved := True\<rparr>, slot_actor := int j\<rparr>]\<rparr>"
    using assms(1) by (auto simp: assign_slot_def Let_def split: list.splits if_splits option.splits)
  show ?thesis
    using assms(2) set_update_subset_insert [of "peer_slots p" j] unfolding p' host_fixed_def list_all_iff
    by (fastforce simp: remote_fixed_def)
qed (use assms(2) in simp)

lemma input_packet_fixed:
  assumes "input_packet nd packet (s, p) = Some (s', p')" and "peer_mode p = PEER_HOST" and "host_fixed p"
  shows "host_fixed p'"
proof (cases "find_slot (slot_matches packet) 0 (peer_slots p)")
  case None
  then show ?thesis using assms(1,3) assign_slot_fixed [of packet s p s' p'] by (auto simp: input_packet_def split: if_splits)
next
  case (Some j)
  show ?thesis
  proof (cases "p' = p")
    case False
    then obtain s0 cs al where "input_chunks nd j cs (s OR s0, p\<lparr>peer_alloc := al\<rparr>) = Some (s', p')"
      using assms(1) Some by (auto simp: input_packet_def split: if_splits dest!: bind_eq_SomeD)
    from input_chunks_remotes [OF this] show ?thesis using assms(2,3) same_remotes_fixed [of p' p] by simp
  qed (use assms(3) in simp)
qed

lemma peer_input_fixed:
  assumes "peer_input nd (Some p) packets = Some (st, Some p')" and "peer_mode p = PEER_HOST" and "host_fixed p"
  shows "host_fixed p'"
proof -
  have "host_fixed p'" if "input_packets nd packets (s, p) = Some (s', p')" "peer_mode p = PEER_HOST" "host_fixed p"
    for s s' packets and p p' :: "'a peer_t"
    using that
  proof (induction packets arbitrary: s p)
    case (Cons q qs)
    obtain s1 p1 where one: "input_packet nd q (s, p) = Some (s1, p1)" and rest: "input_packets nd qs (s1, p1) = Some (s', p')"
      using Cons.prems(1) by (auto dest!: bind_eq_SomeD)
    show ?case
      using Cons.IH [OF rest] input_packet_fixed [OF one] input_packet_same [OF one] Cons.prems by (auto simp: same_queue_def)
  qed simp
  then show ?thesis using assms by (auto simp: peer_input_def with_peer_def peer_input_body_def dest!: bind_eq_SomeD)
qed

lemma peer_tick_fixed:
  assumes "peer_wf host" and "peer_mode host = PEER_HOST" and "alloc_ok (peer_alloc host)"
    and "peer_tick M True (Some host) dt = Some (result, Some host')" and "int (length (mutual_queue host')) \<le> INT64_MAX"
    and "host_fixed host"
  shows "host_fixed host'"
proof (cases "dt < 0 \<or> peer_time_local host > INT64_MAX - dt")
  case True
  then show ?thesis using assms(4,6) by (auto simp: peer_tick_def peer_tick_body_def split: if_splits)
next
  case False
  then have dt: "0 \<le> dt" "dt \<le> INT64_MAX - peer_time_local host" by auto
  note tick = peer_tick_slots [OF assms(1-5) dt]
  have remotes: "map slot_remote (peer_slots (ticked_host dt host)) = map slot_remote (peer_slots host)"
    by (cases "peer_slots host")
      (auto simp: ticked_host_def collected_host_def tick_clock_def advance_slot_def Let_def)
  have "slot_remote (peer_slots host' ! j) = slot_remote (peer_slots (ticked_host dt host) ! j)" if j: "j < length (peer_slots host)" for j
  proof (cases j)
    case 0
    then show ?thesis
      using arg_cong [OF tick(5), of "\<lambda>l. l ! 0"] j by simp
  next
    case (Suc k)
    then have "slot_sent (mutual_queue host') (peer_slots (ticked_host dt host) ! j) (peer_slots host' ! j)" using tick(4) j by simp
    then show ?thesis by (auto simp: slot_sent_def)
  qed
  then have "map slot_remote (peer_slots host') = map slot_remote (peer_slots (ticked_host dt host))"
    using tick(3) by (simp add: list_eq_iff_nth_eq ticked_host_sel(5))
  then show ?thesis using remotes same_remotes_fixed [of host' host] assms(6) by simp
qed

subsection \<open>The steps of both applications\<close>

text \<open>
  The calls of \<open>network_step\<close>, for a client whose datagrams come from \<open>addr\<close> and \<open>port\<close>: those
  that reach the host from there are datagrams the client has sent, in any order, lost or repeated; from other
  addresses there may be anything. The clock of the host is past 0 after each of its ticks, and the queues of the
  client do not outgrow an index.
\<close>

inductive stack_step ::
  "'r mt64_ops \<Rightarrow> 'w os_ops \<Rightarrow> 'v os_ops \<Rightarrow> 32 word \<Rightarrow> port_t \<Rightarrow> 'r network \<Rightarrow> 'r network \<Rightarrow> bool" for M hos cos addr port where
  st_host_call: "pool_call hos (host_pool n, net_host n) (pool', host') \<Longrightarrow>
    stack_step M hos cos addr port n (n\<lparr>host_pool := pool', net_host := host'\<rparr>)"
| st_host_tick: "alloc_ok al \<Longrightarrow> \<forall>buf. receivable_at hos addr port w buf \<longrightarrow> buf \<in> net_up n \<Longrightarrow>
    peer_pool_tick M (recording hos) True (Some ((host_pool n)\<lparr>pool_alloc := pa\<rparr>))
      (Some ((net_host n)\<lparr>peer_alloc := al\<rparr>)) dt (w, []) = Some (st, Some pool', Some host', w', sent) \<Longrightarrow>
    0 < peer_time_local host' \<Longrightarrow> int (length (mutual_queue host')) \<le> INT64_MAX \<Longrightarrow>
    stack_step M hos cos addr port n (n\<lparr>host_pool := pool', net_host := host', net_wire := net_wire n \<union> set sent\<rparr>)"
| st_client_call: "pool_call cos (client_pool n, net_client n) (pool', client') \<Longrightarrow>
    stack_step M hos cos addr port n (n\<lparr>client_pool := pool', net_client := client'\<rparr>)"
| st_client_connect: "int (length (peer_slots (net_client n))) + 1 \<le> 0xffffffff \<Longrightarrow>
    peer_pool_connect cos True (Some ((client_pool n)\<lparr>pool_alloc := pa\<rparr>)) (Some ((net_client n)\<lparr>peer_alloc := al\<rparr>))
      protocol len address rport v = Some (st, Some pool', Some client', v') \<Longrightarrow>
    stack_step M hos cos addr port n (n\<lparr>client_pool := pool', net_client := client'\<rparr>)"
| st_client_tick: "alloc_ok al \<Longrightarrow> \<forall>buf. receivable cos v buf \<longrightarrow> buf \<in> net_wire n \<Longrightarrow>
    peer_pool_tick M (recording cos) True (Some ((client_pool n)\<lparr>pool_alloc := pa\<rparr>))
      (Some ((net_client n)\<lparr>peer_alloc := al\<rparr>)) dt (v, []) = Some (st, Some pool', Some client', v', sent) \<Longrightarrow>
    queues_fit client' \<Longrightarrow>
    stack_step M hos cos addr port n (n\<lparr>client_pool := pool', net_client := client', net_up := net_up n \<union> set sent\<rparr>)"

lemma stack_network_step: "stack_step M hos cos addr port n n' \<Longrightarrow> network_step M hos cos n n'"
  by (erule stack_step.cases) (auto intro: network_step.intros)

text \<open>The host may have been running: a slot with messages belongs to another address.\<close>

definition client_key :: "'w os_ops \<Rightarrow> 32 word \<Rightarrow> port_t \<Rightarrow> node_key" where
  "client_key hos addr port = (PEER_UDP_IPv4, port, inet_ntop hos addr)"

definition stack_start :: "node_key \<Rightarrow> 'r network \<Rightarrow> bool" where
  "stack_start key n \<longleftrightarrow> network_start n \<and> host_order (net_host n) \<and> log_timed (net_host n) \<and> host_fixed (net_host n) \<and>
     (\<forall>slot \<in> set (peer_slots (net_host n)). slot_queue slot = [] \<or>
       (\<exists>i k. endpoint_id (slot_remote slot) = int i \<and> node_key (pool_nodes (host_pool n)) i = Some k \<and> k \<noteq> key))"

inductive stack_reach ::
  "'r mt64_ops \<Rightarrow> 'w os_ops \<Rightarrow> 'v os_ops \<Rightarrow> 32 word \<Rightarrow> port_t \<Rightarrow> 'r network \<Rightarrow> 'r network \<Rightarrow> bool" for M hos cos addr port where
  stack_reach_start: "stack_start (client_key hos addr port) n \<Longrightarrow> stack_reach M hos cos addr port n n"
| stack_reach_step: "stack_reach M hos cos addr port n0 n \<Longrightarrow> stack_step M hos cos addr port n n' \<Longrightarrow>
    stack_reach M hos cos addr port n0 n'"

lemma stack_reach_network: "stack_reach M hos cos addr port n0 n \<Longrightarrow> network_reach M hos cos n0 n"
  by (induction rule: stack_reach.induct)
    (auto simp: stack_start_def intro: network_reach_start network_reach_step stack_network_step)

subsection \<open>Stacks as duplex sessions\<close>

text \<open>\<open>i\<close> is the node of the client's address in the host's pool.\<close>

definition stack_rel :: "nat \<Rightarrow> 'r network \<Rightarrow> 'r session \<times> peer_packet_t set \<Rightarrow> bool" where
  "stack_rel i n = (\<lambda>(s, ps). represents n s \<and> duplex_inv (int i) (s, ps) \<and> net_up n \<subseteq> datagram ` ps \<and> host_fixed (net_host n))"

lemma duplex_steps_inv: "(duplex_step M c)\<^sup>*\<^sup>* x x' \<Longrightarrow> duplex_inv c x \<Longrightarrow> duplex_inv c x'"
  by (induction rule: rtranclp_induct) (auto intro: duplex_step_inv)

lemma stack_rel_host:
  assumes "stack_rel i n (s, ps)" and "(duplex_step M (int i))\<^sup>*\<^sup>* (s, ps) (s\<lparr>sess_host := h, sess_net := sess_net s \<union> new\<rparr>, ps)"
    and "same_peer h host'" and "pool_wf (pool_nodes pool')" and "host_fixed host'" and "wire \<subseteq> datagram ` new"
  shows "\<exists>x'. (duplex_step M (int i))\<^sup>*\<^sup>* (s, ps) x' \<and>
    stack_rel i (n\<lparr>host_pool := pool', net_host := host', net_wire := net_wire n \<union> wire\<rparr>) x'"
  using assms duplex_steps_inv [OF assms(2)]
  by (intro exI [of _ "(s\<lparr>sess_host := h, sess_net := sess_net s \<union> new\<rparr>, ps)"])
    (auto simp: stack_rel_def represents_def duplex_inv_def)

lemma stack_rel_client:
  assumes "stack_rel i n (s, ps)" and "(duplex_step M (int i))\<^sup>*\<^sup>* (s, ps) (s\<lparr>sess_client := c\<rparr>, ps \<union> new)"
    and "same_peer c client'" and "pool_wf (pool_nodes pool')" and "sent \<subseteq> datagram ` new"
  shows "\<exists>x'. (duplex_step M (int i))\<^sup>*\<^sup>* (s, ps) x' \<and>
    stack_rel i (n\<lparr>client_pool := pool', net_client := client', net_up := net_up n \<union> sent\<rparr>) x'"
  using assms duplex_steps_inv [OF assms(2)]
  by (intro exI [of _ "(s\<lparr>sess_client := c\<rparr>, ps \<union> new)"])
    (auto simp: stack_rel_def represents_def duplex_inv_def)

lemma client_steps_duplex:
  assumes "client_steps M s client'"
  shows "(duplex_step M c)\<^sup>*\<^sup>* (s, ps) (s\<lparr>sess_client := client'\<rparr>, ps)"
proof -
  have step: "duplex_step M c (s\<lparr>sess_client := a\<rparr>, ps) (s\<lparr>sess_client := b\<rparr>, ps)"
    if "session_step M (s\<lparr>sess_client := a\<rparr>) (s\<lparr>sess_client := b\<rparr>)" for a b
    using dx_client [of M "s\<lparr>sess_client := a\<rparr>" b c ps] that by simp
  have "(\<lambda>a b. duplex_step M c (s\<lparr>sess_client := a\<rparr>, ps) (s\<lparr>sess_client := b\<rparr>, ps))\<^sup>*\<^sup>* (sess_client s) client'"
    using assms unfolding client_steps_def by (rule rtranclp_mono [THEN predicate2D, rotated]) (use step in blast)
  from rtranclp_put [where R = "duplex_step M c" and put = "\<lambda>a. (s\<lparr>sess_client := a\<rparr>, ps)", OF this] show ?thesis by simp
qed

lemma stack_rel_client_only:
  assumes "stack_rel i n (s, ps)" and "\<exists>c. client_steps M s c \<and> same_peer c client' \<and> pool_wf (pool_nodes pool')"
  shows "\<exists>x'. (duplex_step M (int i))\<^sup>*\<^sup>* (s, ps) x' \<and> stack_rel i (n\<lparr>client_pool := pool', net_client := client'\<rparr>) x'"
proof -
  obtain c where c: "client_steps M s c" "same_peer c client'" "pool_wf (pool_nodes pool')" using assms(2) by blast
  show ?thesis
    using stack_rel_client [OF assms(1) _ c(2,3), of M "{}" "{}"] client_steps_duplex [OF c(1)] by simp
qed

lemma stack_host_call:
  assumes "stack_rel i n (s, ps)" and "pool_call hos (host_pool n, net_host n) (pool', host')"
  shows "\<exists>x'. (duplex_step M (int i))\<^sup>*\<^sup>* (s, ps) x' \<and> stack_rel i (n\<lparr>host_pool := pool', net_host := host'\<rparr>) x'"
proof -
  let ?R = "\<lambda>h h'. duplex_step M (int i) (s\<lparr>sess_host := h\<rparr>, ps) (s\<lparr>sess_host := h'\<rparr>, ps) \<and> (host_fixed h \<longrightarrow> host_fixed h')"
  have s: "peer_wf (sess_host s)" "peer_mode (sess_host s) = PEER_HOST" "same_peer (sess_host s) (net_host n)"
    "pool_wf (pool_nodes (host_pool n))" "host_fixed (net_host n)"
    using assms(1) by (simp_all add: stack_rel_def represents_def session_inv_def)
  have "\<exists>h. ?R\<^sup>*\<^sup>* (sess_host s) h \<and> same_peer h host' \<and> pool_wf (pool_nodes pool')"
    using s(2) dx_host_queue [where s = s and M = M and c = "int i" and up = ps]
      dx_host_open [where s = s and M = M and c = "int i" and up = ps]
    by (intro pool_call_steps [OF assms(2) s(3,1,4)]) (auto dest: peer_queue_fixed peer_open_fixed)
  then obtain h where h: "?R\<^sup>*\<^sup>* (sess_host s) h" "same_peer h host'" "pool_wf (pool_nodes pool')" by blast
  have "(\<lambda>h h'. duplex_step M (int i) (s\<lparr>sess_host := h\<rparr>, ps) (s\<lparr>sess_host := h'\<rparr>, ps))\<^sup>*\<^sup>* (sess_host s) h"
    by (rule rtranclp_mono [THEN predicate2D, OF _ h(1)]) blast
  from rtranclp_put [where R = "duplex_step M (int i)" and put = "\<lambda>a. (s\<lparr>sess_host := a\<rparr>, ps)", OF this] have steps: "(duplex_step M (int i))\<^sup>*\<^sup>* (s, ps) (s\<lparr>sess_host := h\<rparr>, ps)" by simp
  have "host_fixed h" using h(1) s(3,5) by (induction rule: rtranclp_induct) (auto simp: same_peer_def)
  then have "host_fixed host'" using h(2) by (auto simp: same_peer_def)
  then show ?thesis using stack_rel_host [OF assms(1) _ h(2,3), of M "{}" "{}"] steps by simp
qed

text \<open>What the host receives from the client's node has the content of a packet of the client.\<close>

lemma received_upstream:
  assumes "received_at (recording hos) (w, []) nodes p" and "source_id p = int i"
    and "i < length nodes \<longrightarrow> node_key nodes i = Some (client_key hos addr port)" and "inj (inet_ntop hos)"
    and "\<forall>buf. receivable_at hos addr port w buf \<longrightarrow> buf \<in> datagram ` ps" and "\<forall>q \<in> ps. up_packet D q"
  shows "\<exists>q \<in> ps. same_content p q"
proof -
  obtain buf addr' port' where buf: "receivable_at (recording hos) addr' port' (w, []) buf" "packet_size p = int (length buf)"
    "packet_data p = buf @ replicate (400 - length buf) 0" and key: "node_key nodes i = Some (PEER_UDP_IPv4, port', inet_ntop hos addr')"
    using assms(1,2) by (auto simp: received_at_def recording_def)
  have "i < length nodes" using key by (simp add: node_key_def split: if_splits)
  then have "addr' = addr" "port' = port" using assms(3,4) key by (auto simp: client_key_def inj_eq)
  then have "receivable_at hos addr port w buf" using receivable_at_recording [OF buf(1)] by simp
  then obtain q where q: "q \<in> ps" "buf = datagram q" using assms(5) by blast
  obtain ms where "q = wire_packet (source_id q) (destination_id q) ms" "packet_ok ms"
    using assms(6) q(1) by (auto simp: up_packet_def)
  then show ?thesis using datagram_content buf(2,3) q by blast
qed

text \<open>The tick of a host up to \<open>peer_tick\<close>.\<close>

lemma stack_host_input:
  assumes "stack_rel i n (s, ps)" and "same_peer (sess_host s) peer" and "alloc_ok (peer_alloc peer)"
    and "pool_nodes pool = pool_nodes (host_pool n)" and "\<forall>buf. receivable_at hos addr port w buf \<longrightarrow> buf \<in> net_up n"
    and "resolve_address_and_id (recording hos) True pool peer = Some (s1, pool1, peer1)"
    and "receive_nodes (recording hos) True 0 (s1, pool1, [], (w, [])) = Some (s2, pool', packets, w2)"
    and "peer_input True (Some peer1) packets = Some (s3, Some peer3)"
    and "i < length (pool_nodes pool') \<longrightarrow> node_key (pool_nodes pool') i = Some (client_key hos addr port)" and "inj (inet_ntop hos)"
  shows "(duplex_step M (int i))\<^sup>*\<^sup>* (s, ps) (s\<lparr>sess_host := peer3\<rparr>, ps) \<and> host_fixed peer3 \<and>
    alloc_ok (peer_alloc peer3) \<and> pool_wf (pool_nodes pool')"
proof -
  let ?h = "sess_host s"
  have s: "peer_wf ?h" "peer_mode ?h = PEER_HOST" "pool_wf (pool_nodes pool)" "host_fixed peer" "net_up n \<subseteq> datagram ` ps"
    "\<forall>q \<in> ps. up_packet (client_data (sess_client s)) q"
    using assms(1,2,4) by (auto simp: stack_rel_def represents_def session_inv_def duplex_inv_def same_peer_def host_fixed_def)
  have peer: "peer_wf peer" "peer_slots peer = peer_slots ?h" "peer_mode peer = PEER_HOST"
    using s(1,2) same_peer_wf [OF assms(2)] assms(2) by (auto simp: same_peer_def)
  from pool_tick_calls [OF assms(6-8) s(3) peer(1) assms(3)]
  obtain slots where slots: "peer1 = peer\<lparr>peer_slots := slots\<rparr>" "list_all2 slot_resolved (peer_slots peer) slots"
    and wf: "pool_wf (pool_nodes pool')" and ok: "\<forall>q \<in> set packets. length (packet_data q) = 400 \<and> source_id q \<noteq> - 1"
    and al: "alloc_ok (peer_alloc peer1)" "alloc_ok (peer_alloc peer3)" by blast
  note fixed = resolve_fixed [OF assms(6) s(4)]
  let ?s1 = "s\<lparr>sess_host := ?h\<lparr>peer_slots := slots\<rparr>\<rparr>"
  have 1: "duplex_step M (int i) (s, ps) (?s1, ps)"
    by (rule dx_host_resolve) (use slots fixed peer(2) in simp_all)
  have "pool_wf (pool_nodes pool1)" using resolve_resolved [OF assms(6) s(3) peer(1)] by simp
  then have "received_at (recording hos) (w, []) (pool_nodes pool') p" if "p \<in> set packets" for p
    using receive_nodes_at [OF assms(7) _ _ that] by simp
  then have up: "\<forall>p \<in> set packets. source_id p = int i \<longrightarrow> (\<exists>q \<in> ps. same_content p q)"
    using received_upstream [OF _ _ assms(9,10) _ s(6)] assms(5) s(5) by blast
  have "(sess_host ?s1)\<lparr>peer_alloc := peer_alloc peer1\<rparr> = peer1" using assms(2) slots(1) by (auto simp: same_peer_def)
  then have "duplex_step M (int i) (?s1, ps) (s\<lparr>sess_host := peer3\<rparr>, ps)"
    using dx_host_input [OF al(1) ok up, of ?s1 s3 peer3 M] assms(8) by simp
  moreover have "host_fixed peer3" using peer_input_fixed [OF assms(8)] fixed slots(1) peer(3) by simp
  ultimately show ?thesis using 1 al(2) wf by (auto intro: converse_rtranclp_into_rtranclp)
qed

lemma stack_host_tick:
  assumes "stack_rel i n (s, ps)" and "alloc_ok al" and "0 < peer_time_local host'"
    and "\<forall>buf. receivable_at hos addr port w buf \<longrightarrow> buf \<in> net_up n"
    and "peer_pool_tick_body M (recording hos) True dt ((host_pool n)\<lparr>pool_alloc := pa\<rparr>) ((net_host n)\<lparr>peer_alloc := al\<rparr>) (w, []) =
      Some (st, pool', host', w', sent)"
    and "int (length (mutual_queue host')) \<le> INT64_MAX"
    and "i < length (pool_nodes pool') \<longrightarrow> node_key (pool_nodes pool') i = Some (client_key hos addr port)" and "inj (inet_ntop hos)"
  shows "\<exists>x'. (duplex_step M (int i))\<^sup>*\<^sup>* (s, ps) x' \<and>
    stack_rel i (n\<lparr>host_pool := pool', net_host := host', net_wire := net_wire n \<union> set sent\<rparr>) x'"
  using assms(5)
proof (cases rule: peer_pool_tick_parts)
  case refused
  then show ?thesis using assms(1) by (intro exI [of _ "(s, ps)"]) (auto simp: stack_rel_def represents_def same_peer_def)
next
  case (parts s1 pool1 peer1 s2 packets w2 s3 peer3 tick s5)
  have "same_peer (sess_host s) ((net_host n)\<lparr>peer_alloc := al\<rparr>)"
    using assms(1) by (auto simp: stack_rel_def represents_def same_peer_def)
  from stack_host_input [OF assms(1) this _ _ assms(4) parts(1-3) assms(7,8), of M] assms(2)
  have 1: "(duplex_step M (int i))\<^sup>*\<^sup>* (s, ps) (s\<lparr>sess_host := peer3\<rparr>, ps)" "host_fixed peer3" "alloc_ok (peer_alloc peer3)"
    "pool_wf (pool_nodes pool')" by simp_all
  have "duplex_inv (int i) (s\<lparr>sess_host := peer3\<rparr>, ps)" using duplex_steps_inv [OF 1(1)] assms(1) by (simp add: stack_rel_def)
  then have wf: "peer_wf peer3" "peer_mode peer3 = PEER_HOST" by (simp_all add: duplex_inv_def session_inv_def)
  have fixed: "host_fixed host'" by (rule peer_tick_fixed [OF wf 1(3) parts(4) assms(6) 1(2)])
  have "duplex_step M (int i) (s\<lparr>sess_host := peer3\<rparr>, ps)
      (s\<lparr>sess_host := host', sess_net := sess_net s \<union> set (tick_packets tick)\<rparr>, ps)"
    using dx_host_tick [OF 1(3), of M "s\<lparr>sess_host := peer3\<rparr>" dt tick host' "int i" ps] parts(4) assms(3,6) by simp
  from rtranclp.rtrancl_into_rtrancl [OF 1(1) this] show ?thesis
    by (rule stack_rel_host [OF assms(1) _ same_peer_refl(1) 1(4) fixed recorded_sent [OF parts(2,5)]])
qed

lemma stack_client_tick:
  assumes "stack_rel i n (s, ps)" and "alloc_ok al" and "\<forall>buf. receivable cos v buf \<longrightarrow> buf \<in> net_wire n"
    and "peer_pool_tick_body M (recording cos) True dt ((client_pool n)\<lparr>pool_alloc := pa\<rparr>) ((net_client n)\<lparr>peer_alloc := al\<rparr>) (v, []) =
      Some (st, pool', client', v', sent)"
    and "queues_fit client'"
  shows "\<exists>x'. (duplex_step M (int i))\<^sup>*\<^sup>* (s, ps) x' \<and>
    stack_rel i (n\<lparr>client_pool := pool', net_client := client', net_up := net_up n \<union> set sent\<rparr>) x'"
  using assms(4)
proof (cases rule: peer_pool_tick_parts)
  case refused
  then show ?thesis using assms(1) by (intro exI [of _ "(s, ps)"]) (auto simp: stack_rel_def represents_def same_peer_def)
next
  case (parts s1 pool1 peer1 s2 packets w2 s3 peer3 tick s5)
  have s: "session_inv s" "same_peer (sess_client s) ((net_client n)\<lparr>peer_alloc := al\<rparr>)" "pool_wf (pool_nodes (client_pool n))"
    "net_wire n \<subseteq> datagram ` sess_net s"
    using assms(1) by (auto simp: stack_rel_def represents_def same_peer_def)
  have "\<forall>buf. receivable (recording cos) (v, []) buf \<longrightarrow> buf \<in> datagram ` sess_net s"
    using assms(3) s(4) receivable_recording [of cos "(v, [])"] by fastforce
  from client_tick_input [OF s(1,2) _ _ parts(1-3) this, of M] assms(2) s(3)
  have 1: "client_steps M s peer3" "alloc_ok (peer_alloc peer3)" "pool_wf (pool_nodes pool')" by simp_all
  let ?s1 = "s\<lparr>sess_client := peer3\<rparr>"
  have steps: "(duplex_step M (int i))\<^sup>*\<^sup>* (s, ps) (?s1, ps)" by (rule client_steps_duplex [OF 1(1)])
  then have "session_inv ?s1" using duplex_steps_inv [OF steps] assms(1) by (simp add: stack_rel_def duplex_inv_def)
  then have mode: "peer_mode peer3 = PEER_CLIENT" by (simp add: session_inv_def)
  have "int (length (client_data client')) \<le> INT64_MAX" "int (length (mutual_queue client')) \<le> INT64_MAX"
    using assms(5) by (auto simp: queues_fit_def client_data_def split: list.split)
  then have "int (length (client_data peer3)) \<le> INT64_MAX" "int (length (mutual_queue peer3)) \<le> INT64_MAX"
    using peer_tick_data [OF parts(4) mode] peer_tick_client_queue [OF parts(4) mode] by simp_all
  then have "duplex_step M (int i) (?s1, ps) (s\<lparr>sess_client := client'\<rparr>, ps \<union> set (tick_packets tick))"
    using dx_client_tick [OF 1(2), of M ?s1 dt tick client' "int i" ps] parts(4) by simp
  from rtranclp.rtrancl_into_rtrancl [OF steps this] show ?thesis
    by (rule stack_rel_client [OF assms(1) _ same_peer_refl(1) 1(3) recorded_sent [OF parts(2,5)]])
qed

lemma stack_step_duplex:
  assumes "stack_step M hos cos addr port n n'" and "stack_rel i n (s, ps)" and "inj (inet_ntop hos)"
    and "i < length (pool_nodes (host_pool n')) \<longrightarrow> node_key (pool_nodes (host_pool n')) i = Some (client_key hos addr port)"
  shows "\<exists>x'. (duplex_step M (int i))\<^sup>*\<^sup>* (s, ps) x' \<and> stack_rel i n' x'"
proof -
  have s: "session_inv s" "same_peer (sess_client s) (net_client n)" "pool_wf (pool_nodes (client_pool n))"
    using assms(2) by (simp_all add: stack_rel_def represents_def)
  note client = stack_rel_client_only [OF assms(2), of M]
  from assms(1) show ?thesis
  proof cases
    case (st_host_call pool' host')
    from stack_host_call [OF assms(2) st_host_call(2)] show ?thesis by (simp add: st_host_call(1))
  next
    case (st_host_tick al w pa dt st pool' host' w' sent)
    show ?thesis
      unfolding st_host_tick(1)
      by (rule stack_host_tick [OF assms(2) st_host_tick(2,5,3) _ st_host_tick(6) _ assms(3)])
        (use st_host_tick(1,4) assms(4) in \<open>simp_all add: pool_api\<close>)
  next
    case (st_client_call pool' client')
    from client [OF client_call_steps [OF s st_client_call(2)]] show ?thesis by (simp add: st_client_call(1))
  next
    case (st_client_connect pa al protocol len address rport v st pool' client' v')
    have "same_peer (sess_client s) ((net_client n)\<lparr>peer_alloc := al\<rparr>)" using s(2) by (auto simp: same_peer_def)
    from client_pool_connect_steps [OF s(1) this _ st_client_connect(3) [unfolded pool_api], of M] s(3) st_client_connect(2)
    have "\<exists>c. client_steps M s c \<and> same_peer c client' \<and> pool_wf (pool_nodes pool')" by simp
    from client [OF this] show ?thesis by (simp add: st_client_connect(1))
  next
    case (st_client_tick al v pa dt st pool' client' v' sent)
    from stack_client_tick [OF assms(2) st_client_tick(2,3) st_client_tick(4) [unfolded pool_api] st_client_tick(5)]
    show ?thesis by (simp add: st_client_tick(1))
  qed
qed

text \<open>The nodes of the host's pool stay, so an id that stands for the client's address in the end has never stood for another.\<close>

lemma stack_step_nodes:
  assumes "stack_step M hos cos addr port n n'" and "represents n s"
  shows "\<exists>new. pool_nodes (host_pool n') = pool_nodes (host_pool n) @ new"
proof -
  have wf: "pool_wf (pool_nodes (host_pool n))" "peer_wf (net_host n)"
    using assms(2) same_peer_wf by (auto simp: represents_def session_inv_def)
  from assms(1) show ?thesis
  proof cases
    case (st_host_call pool' host')
    from st_host_call(2) show ?thesis
    proof cases
      case (call_open count pa al protocol port w st w')
      then show ?thesis
        using peer_pool_open_cases [of hos protocol port count "(host_pool n)\<lparr>pool_alloc := pa\<rparr>" "(net_host n)\<lparr>peer_alloc := al\<rparr>" w]
        by (auto simp: pool_api st_host_call(1))
    qed (simp add: st_host_call(1))
  next
    case (st_host_tick al w pa dt st pool' host' w' sent)
    have "nodes_grow (pool_nodes (host_pool n)) (pool_nodes pool')"
      using peer_pool_tick_wf [OF st_host_tick(4) [unfolded pool_api]] wf by simp
    then show ?thesis by (auto simp: nodes_grow_def st_host_tick(1))
  qed simp_all
qed

lemma duplex_reach_steps: "(duplex_step M c)\<^sup>*\<^sup>* x x' \<Longrightarrow> duplex_reach M c s0 x \<Longrightarrow> duplex_reach M c s0 x'"
  by (induction rule: rtranclp_induct) (auto intro: dx_step)

lemma stack_start_duplex:
  assumes "stack_start key n" and "i < length (pool_nodes (host_pool n)) \<longrightarrow> node_key (pool_nodes (host_pool n)) i = Some key"
  shows "duplex_reach M (int i) (net_session n) (net_session n, {}) \<and> stack_rel i n (net_session n, {})"
proof -
  have n: "network_start n" "host_order (net_host n)" "log_timed (net_host n)" "host_fixed (net_host n)" "net_up n = {}"
    using assms(1) by (simp_all add: stack_start_def network_start_def)
  note net = network_start_session [OF n(1)]
  have "slot_queue slot = []" if "slot \<in> set (peer_slots (net_host n))" "endpoint_id (slot_remote slot) = int i" for slot
    using assms that unfolding stack_start_def by (auto simp: node_key_def split: if_splits)
  then have "duplex_start (int i) (net_session n)"
    using net n(2,3) by (simp add: duplex_start_def net_session_def)
  then have reach: "duplex_reach M (int i) (net_session n) (net_session n, {})" by (rule dx_start)
  then show ?thesis using duplex_reach_inv [OF reach] net n(4,5) by (simp add: stack_rel_def)
qed

lemma stack_reach_duplex:
  assumes "stack_reach M hos cos addr port n0 n" and "inj (inet_ntop hos)"
    and "i < length (pool_nodes (host_pool n)) \<longrightarrow> node_key (pool_nodes (host_pool n)) i = Some (client_key hos addr port)"
  shows "\<exists>x. duplex_reach M (int i) (net_session n0) x \<and> stack_rel i n x"
  using assms(1,3)
proof (induction rule: stack_reach.induct)
  case (stack_reach_start n)
  then show ?case using stack_start_duplex by blast
next
  case (stack_reach_step n0 n n')
  obtain s where "represents n s" using network_reach_session stack_reach_network [OF stack_reach_step(1)] by blast
  then obtain new where "pool_nodes (host_pool n') = pool_nodes (host_pool n) @ new"
    using stack_step_nodes [OF stack_reach_step(2)] by blast
  then have "i < length (pool_nodes (host_pool n)) \<longrightarrow> node_key (pool_nodes (host_pool n)) i = Some (client_key hos addr port)"
    using stack_reach_step(4) by (auto simp: node_key_append)
  from stack_reach_step(3) [OF this] obtain s ps where x: "duplex_reach M (int i) (net_session n0) (s, ps)" "stack_rel i n (s, ps)"
    by auto
  from stack_step_duplex [OF stack_reach_step(2) x(2) assms(2) stack_reach_step(4)]
  show ?case using duplex_reach_steps x(1) by blast
qed

subsection \<open>A run\<close>

lemma receivable_at_receivable: "receivable_at os addr port w buf \<Longrightarrow> receivable os w buf"
  by (induction rule: receivable_at.induct) (auto intro: receivable.intros)

lemma script_ntop: "inj (inet_ntop script_os)"
proof (rule injI)
  fix a b
  assume same: "inet_ntop script_os a = inet_ntop script_os b"
  have low: "unat (ucast c :: byte) = unat c" if "c < 200" for c :: "32 word"
    using that by (simp add: unsigned_ucast_eq word_less_nat_alt take_bit_nat_eq_self)
  have high: "peer_read_u32 (le32 c) 0 = Some c" for c using peer_read_u32_append [of "[]" c "[]"] by simp
  have len: "length (le32 c) = 4" for c by (simp add: le32_def)
  consider "a < 200" "b < 200" | "\<not> a < 200" "\<not> b < 200" | "length (inet_ntop script_os a) \<noteq> length (inet_ntop script_os b)"
    using len by (fastforce simp: script_os_def)
  then show "a = b"
  proof cases
    case 1
    then have "(ucast a :: byte) = ucast b" using same by (simp add: script_os_def)
    then show ?thesis using low [OF 1(1)] low [OF 1(2)] by (simp add: word_unat_eq_iff)
  next
    case 2
    then have "le32 a = le32 b" using same by (simp add: script_os_def)
    then show ?thesis using high [of a] high [of b] by (metis option.inject)
  next
    case 3
    then show ?thesis using same by (metis (no_types))
  qed
qed

lemma run_command_stack:
  assumes "run_command c (n, down, up) = Some (n', down', up')" and "net_up n = set up"
  shows "stack_step example_mt64 script_os script_os addr port n n' \<and> net_up n' = set up'"
  using assms(1)
proof (cases rule: run_command_cases)
  case (host_call pool' host')
  then show ?thesis using assms(2) by (simp add: st_host_call)
next
  case (host_tick ks dt st pool' host' w' sent)
  have "\<forall>buf. receivable_at script_os addr port (0, map (\<lambda>(s, k, addr, port). (s, up ! k, addr, port)) ks) buf \<longrightarrow> buf \<in> net_up n"
    using host_tick(3) assms(2) by (fastforce simp: list_all_iff dest!: receivable_at_receivable script_receivable)
  then show ?thesis
    using host_tick assms(2) st_host_tick [where n = n and al = "peer_alloc (net_host n)" and pa = "pool_alloc (host_pool n)"] by simp
next
  case (client_call pool' client')
  then show ?thesis using assms(2) by (simp add: st_client_call)
next
  case (client_connect len address rport st pool' client' w')
  then show ?thesis
    using assms(2) st_client_connect [where n = n and al = "peer_alloc (net_client n)" and pa = "pool_alloc (client_pool n)"] by simp
next
  case (client_tick inbox dt st pool' client' w' sent)
  then show ?thesis
    using assms(2) st_client_tick [where n = n and al = "peer_alloc (net_client n)" and pa = "pool_alloc (client_pool n)"] by simp
qed

lemma run_commands_stack:
  assumes "run_commands cs (n, down, up) = Some (n', down', up')" and "net_up n = set up"
    and "stack_reach example_mt64 script_os script_os addr port n0 n"
  shows "stack_reach example_mt64 script_os script_os addr port n0 n'"
  using assms
proof (induction cs arbitrary: n down up)
  case (Cons c cs)
  then obtain n1 down1 up1 where "run_command c (n, down, up) = Some (n1, down1, up1)"
    "run_commands cs (n1, down1, up1) = Some (n', down', up')"
    by (auto dest!: bind_eq_SomeD)
  moreover from this have "stack_step example_mt64 script_os script_os addr port n n1" "net_up n1 = set up1"
    using run_command_stack Cons.prems(2) by blast+
  ultimately show ?case using Cons.IH stack_reach_step [OF Cons.prems(3)] by blast
qed simp

lemma fresh_stack: "stack_start key fresh_network"
  using fresh_start
  by (simp add: stack_start_def) (simp add: fresh_network_def fresh_peer_def host_order_def log_timed_def host_fixed_def host_log_def)

lemma whole_session_stack:
  "\<exists>n. stack_reach example_mt64 script_os script_os 6 7003 fresh_network n \<and> length (peer_slots (net_host n)) = 2 \<and>
    endpoint_id (slot_remote (peer_slots (net_host n) ! 1)) = int 2 \<and>
    node_key (pool_nodes (host_pool n)) 2 = Some (PEER_UDP_IPv4, 7003, [54]) \<and> actor_data 1 (mutual_queue (net_host n)) = [[9]]"
proof -
  obtain n down up where run: "run_commands whole_session (fresh_network, [], []) = Some (n, down, up)"
    and n: "mutual_queue (net_host n) = [ready_message (5, 0, [1, 2]), ready_message (10, 1, [9])]"
      "map (\<lambda>slot. endpoint_id (slot_remote slot)) (peer_slots (net_host n)) = [- 1, 2]"
      "map remote_key (pool_nodes (host_pool n)) = [None, None, Some (PEER_UDP_IPv4, 7003, [54])]"
    using whole_session_runs by (auto simp: observe_def)
  have "stack_reach example_mt64 script_os script_os 6 7003 fresh_network n"
    by (rule run_commands_stack [OF run _ stack_reach_start [OF fresh_stack]]) (simp add: fresh_network_def)
  moreover have len: "length (peer_slots (net_host n)) = 2" "length (pool_nodes (host_pool n)) = 3"
    using n(2,3) by (auto dest!: arg_cong [where f = length])
  moreover have "endpoint_id (slot_remote (peer_slots (net_host n) ! 1)) = int 2"
    using arg_cong [OF n(2), of "\<lambda>l. l ! 1"] len by simp
  moreover have "node_key (pool_nodes (host_pool n)) 2 = Some (PEER_UDP_IPv4, 7003, [54])"
    using arg_cong [OF n(3), of "\<lambda>l. l ! 2"] len by (simp add: node_key_def)
  moreover have "actor_data 1 (mutual_queue (net_host n)) = [[9]]" by (simp add: n(1) actor_data_def)
  ultimately show ?thesis by blast
qed

subsection \<open>Properties\<close>

text \<open>C2. The messages of a client arrive in order through pools, sockets and datagrams: in every state the two applications
  can reach, the messages that the host has published from a slot of the client's address are the first messages the client
  has queued, each of them once, in the order it queued them (for each slot by itself, when the address has several). This holds
  whatever the systems and the pools' allocators answer, whichever datagrams are lost, repeated or reordered on either way,
  and whatever the host receives from other addresses. It supposes that the host publishes nothing at time 0 (its clock
  is past 0 after every tick, and what it has published at the start has a time), that at the start its slots with messages
  belong to other addresses, that the builds are without assertions and the peers' allocators grant, that datagrams from the client's address are datagrams the client sent, and that
  \<open>inet_ntop\<close> writes different addresses differently.\<close>

theorem stack_messages_in_order:
  assumes "stack_reach M hos cos addr port n0 n" and "inj (inet_ntop hos)"
    and "1 \<le> j" and "j < length (peer_slots (net_host n))"
    and "endpoint_id (slot_remote (peer_slots (net_host n) ! j)) = int i"
    and "node_key (pool_nodes (host_pool n)) i = Some (PEER_UDP_IPv4, port, inet_ntop hos addr)"
  shows "prefix (actor_data (int j) (mutual_queue (net_host n))) (client_data (net_client n))"
proof -
  obtain s ps where s: "stack_rel i n (s, ps)"
    using stack_reach_duplex [OF assms(1,2), of i] assms(6) by (auto simp: client_key_def)
  then have "same_peer (sess_host s) (net_host n)" "same_peer (sess_client s) (net_client n)" "duplex_inv (int i) (s, ps)"
    by (simp_all add: stack_rel_def represents_def)
  then show ?thesis using duplex_inv_prefix [of "int i" s ps j] assms(3-5) by (auto simp: same_peer_def)
qed

theorem stack_messages_in_order_witness:
  "\<exists>n. stack_reach example_mt64 script_os script_os 6 7003 fresh_network n \<and>
    actor_data (int 1) (mutual_queue (net_host n)) = [[9]] \<and>
    prefix (actor_data (int 1) (mutual_queue (net_host n))) (client_data (net_client n))"
proof -
  obtain n where n: "stack_reach example_mt64 script_os script_os 6 7003 fresh_network n" "length (peer_slots (net_host n)) = 2"
    "endpoint_id (slot_remote (peer_slots (net_host n) ! 1)) = int 2"
    "node_key (pool_nodes (host_pool n)) 2 = Some (PEER_UDP_IPv4, 7003, [54])" "actor_data 1 (mutual_queue (net_host n)) = [[9]]"
    using whole_session_stack by blast
  have "prefix (actor_data (int 1) (mutual_queue (net_host n))) (client_data (net_client n))"
    by (rule stack_messages_in_order [OF n(1) script_ntop _ _ n(3)]) (use n(2,4) in \<open>simp_all add: script_os_def\<close>)
  then show ?thesis using n(1,5) by (intro exI [of _ n]) simp
qed

end
