(* ===== verification/Spec2Isabelle.thy ===== *)
theory Spec2Isabelle
  imports Peer_Cipher Peer_Safety Peer_Sockets Peer_Stack
begin

text \<open>
  A verification library for \<open>peer\<close>, a C library for peer-to-peer sessions over datagrams
  (\<open>source/peer\<close> of the repository).

  \<^bold>\<open>The program.\<close> A session has a host and clients. Every peer is a \<open>peer_t\<close>; applications give it
  messages (\<open>peer_queue\<close>), hand it the packets that arrived (\<open>peer_input\<close>) and ask it for the
  packets to send (\<open>peer_tick\<close>). The host orders the messages of all peers into one \<^emph>\<open>mutual queue\<close>
  and sends it to every client; a client sends its own messages to the host and collects the
  mutual queue. Packets may be lost, repeated and reordered, so messages carry their index in a queue, and
  every packet carries a trail of earlier messages. \<open>socket_pool.c\<close> connects a peer to system sockets.

  \<^bold>\<open>How C is modelled\<close> (\<open>Peer_Prelude\<close>). An operation returns an option: \<^const>\<open>None\<close> is a failed assertion or
  an access outside an object, so a theorem that an operation returns \<^const>\<open>Some\<close> also shows that it is
  free of them. The parameter \<open>nd\<close> is \<open>NDEBUG\<close>. Statuses are integers joined with \<open>OR\<close>. The
  allocator is the list of its coming answers (a refusal, or memory with arbitrary contents), with
  \<open>alloc_ok\<close> for one that does not refuse; dynamic arrays are lists. Structs are records, enums are
  datatypes with one constructor for values outside the enum. Integers on the wire are words; the
  \<open>ptrdiff_t\<close> and \<open>int64_t\<close> values of the state are integers, with the bounds where the code tests or
  needs them. Pointers that may be \<open>NULL\<close> are options.

  \<^bold>\<open>The theories.\<close>
  \<^item> \<open>Peer_Options\<close> (\<open>options.h\<close>): constants and error codes.
  \<^item> \<open>Peer_Serial\<close> (\<open>serial.h\<close>): readers and writers over bounds-checked arrays. The locale \<open>int_codec\<close> is the
    contract of an integer in a buffer, interpreted for 8, 16, 32 and 64 bits; the bytes of a message
    in closed form; round trips.
  \<^item> \<open>Peer_Packet\<close> (\<open>packet.c\<close>, \<open>packet.h\<close>): \<open>peer_pack\<close> and \<open>peer_unpack\<close>. Unpacking inverts packing, packets are
    filled greedily, unpacking never leaves the packet whatever its bytes.
  \<^item> \<open>Peer_Queue\<close> (\<open>peer.c\<close>, \<open>queue_append\<close> and \<open>queue_insert\<close>): the locale \<open>message_log\<close> is the contract of a log
    of indexed messages (the first message for an index stays); \<open>queue_insert\<close> implements it.
  \<^item> \<open>Peer_State\<close> (\<open>peer.h\<close>; \<open>peer_init\<close>, \<open>peer_open\<close>, \<open>peer_destroy\<close>, \<open>peer_queue\<close>, \<open>peer_connect\<close>): the state and its
    well-formedness \<open>peer_wf\<close>, which every operation keeps.
  \<^item> \<open>Peer_Cipher\<close> (\<open>cipher.c\<close>): the cipher as far as the source has it.
  \<^item> \<open>Peer_Input\<close> (\<open>peer_input\<close>): routing, session requests, service and application messages, for arbitrary bytes.
  \<^item> \<open>Peer_Protocol\<close>: an abstract receiver of protocol messages (\<open>client_receive\<close>, \<open>host_receive\<close>), and that
    \<open>peer_input\<close> on encoded messages refines it.
  \<^item> \<open>Peer_Tick\<close> (\<open>peer_tick\<close> with trails, heartbeats, session responses): the model and closed forms.
  \<^item> \<open>Peer_Sending\<close>: what a tick does to the mutual queue and what its packets say.
  \<^item> \<open>Peer_Session\<close>: host, client and network as a step relation; agreement of the queues as an invariant, and
    that a tick whose packets arrive brings a client up to date from \<open>out_index\<close> on.
  \<^item> \<open>Peer_Safety\<close>: what \<open>peer_input\<close> of a host reads of an arbitrary packet; it stays within the chunks exactly when
    every message has room for its header.
  \<^item> \<open>Peer_Order\<close>: an invariant of a host, kept by all its operations for arbitrary packets: the messages of an actor in
    the mutual queue are those of its slot's queue before \<open>in_index\<close>.
  \<^item> \<open>Peer_Upstream\<close>: the way from a client to its host: the client's queue only grows, the host stores on its slot
    what comes from it, and what it sends beside its own messages is refused for its time.
  \<^item> \<open>Peer_Duplex\<close>: a session in both directions as a step relation over \<open>Peer_Session\<close>; the client's messages appear in the mutual
    queue in their order, it can publish when nothing it sent was lost, and what the trail of its heartbeat does.
  \<^item> \<open>Peer_Pool\<close> (\<open>socket_pool.c\<close>, \<open>socket_pool.h\<close>, the POSIX part of \<open>sockets.h\<close>): all operations of the pool over
    a record of system calls.
  \<^item> \<open>Peer_Sockets\<close> (\<open>sockets.h\<close>): the Windows part. The locale \<open>socket_modes\<close> is the contract of the switches between
    blocking and non-blocking calls, which both parts implement where \<open>fcntl\<close> and \<open>ioctlsocket\<close> behave as documented.
  \<^item> \<open>Peer_Nodes\<close>: the locale \<open>directory\<close> is the contract of ids for addresses, interpreted for the nodes of the pool;
    resolving endpoints refines the address layer of \<open>Peer_Session\<close>; opening is all or nothing.
  \<^item> \<open>Peer_Pool_Tick\<close>: the receiving loop as one pass, invariants of the tick, connecting, and that packets survive
    the way through sockets.
  \<^item> \<open>Peer_Network\<close>: two peers with their pools over a network of datagrams. The locale \<open>outbox\<close> is the contract of a
    system whose state shows what it was given to send, interpreted for any system with a record of its
    calls. Every operation of a pool refines steps of the session, so agreement holds for the whole stack; a
    session from the first socket to a delivered message is run by evaluation.
  \<^item> \<open>Peer_Stack\<close>: the way from a client to the host through both pools. The id of a packet is the node of the address
    its datagram came from, a host's resolving leaves the ids of its clients alone, and the calls of both applications refine
    the steps of \<open>Peer_Duplex\<close>; so the order of a client's messages is kept by the whole stack.

  \<^bold>\<open>How the main results fit together.\<close> \<open>peer_tick\<close> of a host puts messages into packets that say what the
  mutual queue says (\<open>Peer_Sending\<close>), sockets keep packets (\<open>Peer_Pool_Tick\<close>), \<open>peer_input\<close> of a client takes
  the messages of such packets as a log does (\<open>Peer_Protocol\<close>, \<open>Peer_Queue\<close>), and by induction over the steps of
  a session the client's queue agrees with the host's in every state (\<open>Peer_Session\<close>); a simulation carries
  this to the operations of the pools and their datagrams (\<open>Peer_Network\<close>). In the other direction, the host's
  invariant of order (\<open>Peer_Order\<close>) and the packets of a client (\<open>Peer_Upstream\<close>) give that the mutual queue has the messages
  of each client's slot in the order in which it queued them (\<open>Peer_Duplex\<close>), and a second simulation carries this
  to pools and datagrams (\<open>Peer_Stack\<close>); this direction needs that the host publishes nothing at
  time 0 (the example \<open>heartbeat_trail_corrupts\<close> shows why). The theorems about the
  packets of a tick hold for builds without assertions, since one assertion of \<open>packet.c\<close> fails for full
  packets (\<open>pack_large_chunk_aborts\<close>).

  \<^bold>\<open>Loops.\<close> There is no fuel: every loop is a total function. Most are structural; the loop over the messages of
  a packet ends because every message takes at least one byte (at most 356 for a packet), and the loop over the nodes of a pool, which
  may grow while it runs, because a node it adds has no socket.

  \<^bold>\<open>Parameters.\<close> The Mersenne twister of the kit library (\<open>mt64_ops\<close>), the operating system (\<open>os_ops\<close>) and the
  socket library of Windows (\<open>winsock_ops\<close>) are parameters of the definitions that use them. What is
  assumed of them is stated where it is used: replication from host to client assumes nothing, the order of a client's
  messages through sockets that \<open>inet_ntop\<close> writes different addresses differently.

  \<^bold>\<open>Not modelled.\<close> The kit library itself (another repository); freeing of memory, apart from what \<open>peer_destroy\<close>
  and \<open>peer_pool_destroy\<close> release and the array of nodes that moves when it grows; the tests and build files.
\<close>

end
